(* ===== verification/Prelude.thy ===== *)
theory Prelude
  imports Main "HOL-Library.Multiset"
begin

text \<open>
  What every component of the development shares: the width-bounded arithmetic of the
  source's unsigned integers, the error plumbing of its fallible functions, and the
  \<open>Vec\<close> operations by index.

  An unsigned integer of the source is a \<open>nat\<close>; every operation whose result depends on the
  width takes the largest value of the type as an argument (\<open>sat_add u16_max a b\<close> is
  \<open>a.saturating_add(b)\<close> on \<open>u16\<close>). Saturating subtraction is \<open>nat\<close> subtraction, which
  stops at 0 as the source's does.

  A fallible function returns \<open>'e + 'a\<close>. A method that takes \<open>&mut self\<close> returns the state
  as well, in the error case too: what a failing call leaves behind is part of the model.
\<close>

named_theorems sat_defs \<open>definitions of the width-bounded arithmetic\<close>
named_theorems result_defs \<open>definitions of the error plumbing\<close>

section \<open>Unsigned integers with a width\<close>

abbreviation u8_max :: nat where "u8_max \<equiv> 255"
abbreviation u16_max :: nat where "u16_max \<equiv> 65535"
abbreviation u32_max :: nat where "u32_max \<equiv> 4294967295"
abbreviation u64_max :: nat where "u64_max \<equiv> 18446744073709551615"

definition sat_add :: "nat \<Rightarrow> nat \<Rightarrow> nat \<Rightarrow> nat" where
  [sat_defs]: "sat_add m a b = min (a + b) m"

definition sat_mul :: "nat \<Rightarrow> nat \<Rightarrow> nat \<Rightarrow> nat" where
  [sat_defs]: "sat_mul m a b = min (a * b) m"

definition checked_add :: "nat \<Rightarrow> nat \<Rightarrow> nat \<Rightarrow> nat option" where
  [sat_defs]: "checked_add m a b = (if a + b \<le> m then Some (a + b) else None)"

definition checked_sub :: "nat \<Rightarrow> nat \<Rightarrow> nat option" where
  [sat_defs]: "checked_sub a b = (if b \<le> a then Some (a - b) else None)"

definition abs_diff :: "nat \<Rightarrow> nat \<Rightarrow> nat" where
  [sat_defs]: "abs_diff a b = (if a < b then b - a else a - b)"

lemma sat_add_le_max [simp]: "sat_add m a b \<le> m"
  by (simp add: sat_add_def)

lemma sat_mul_le_max [simp]: "sat_mul m a b \<le> m"
  by (simp add: sat_mul_def)

lemma sat_add_exact: "a + b \<le> m \<Longrightarrow> sat_add m a b = a + b"
  by (simp add: sat_add_def)

lemma sat_add_ge: "a \<le> m \<Longrightarrow> a \<le> sat_add m a b"
  by (simp add: sat_add_def)

lemma sat_add_mono: "a \<le> a' \<Longrightarrow> b \<le> b' \<Longrightarrow> sat_add m a b \<le> sat_add m a' b'"
  by (auto simp: sat_add_def)

lemma sat_mul_mono: "a \<le> a' \<Longrightarrow> b \<le> b' \<Longrightarrow> sat_mul m a b \<le> sat_mul m a' b'"
  by (simp add: sat_mul_def min.coboundedI1 mult_le_mono)

lemma abs_diff_commute: "abs_diff a b = abs_diff b a"
  by (simp add: abs_diff_def)

lemma abs_diff_self [simp]: "abs_diff a a = 0"
  by (simp add: abs_diff_def)

lemma abs_diff_0_iff [simp]: "abs_diff a b = 0 \<longleftrightarrow> a = b"
  by (auto simp: abs_diff_def)

section \<open>Error plumbing\<close>

text \<open>\<open>option.ok_or(e)\<close>.\<close>

definition ok_or :: "'a option \<Rightarrow> 'e \<Rightarrow> 'e + 'a" where
  [result_defs]: "ok_or v e = (case v of None \<Rightarrow> Inl e | Some x \<Rightarrow> Inr x)"

text \<open>The \<open>?\<close> operator in a pure fallible function.\<close>

definition rbind :: "'e + 'a \<Rightarrow> ('a \<Rightarrow> 'e + 'b) \<Rightarrow> 'e + 'b" where
  [result_defs]: "rbind r k = (case r of Inl e \<Rightarrow> Inl e | Inr x \<Rightarrow> k x)"

text \<open>The \<open>?\<close> operator in a method on \<open>&mut self\<close>, applied to a result that does not
  touch the state: the early return hands back the state as it is at that point.\<close>

definition attempt :: "'s \<Rightarrow> 'e + 'a \<Rightarrow> ('a \<Rightarrow> ('e + 'b) \<times> 's) \<Rightarrow> ('e + 'b) \<times> 's" where
  [result_defs]: "attempt s r k = (case r of Inl e \<Rightarrow> (Inl e, s) | Inr x \<Rightarrow> k x)"

text \<open>The \<open>?\<close> operator applied to another method call on \<open>&mut self\<close>.\<close>

definition chain ::
  "('e + 'a) \<times> 's \<Rightarrow> ('a \<Rightarrow> 's \<Rightarrow> ('e + 'b) \<times> 's) \<Rightarrow> ('e + 'b) \<times> 's" where
  [result_defs]: "chain p k = (case p of (Inl e, s) \<Rightarrow> (Inl e, s) | (Inr x, s) \<Rightarrow> k x s)"

text \<open>\<open>iter().map(f).collect::<Result<Vec<_>, _>>()\<close>: the first error wins.\<close>

fun traverse :: "('a \<Rightarrow> 'e + 'b) \<Rightarrow> 'a list \<Rightarrow> 'e + 'b list" where
  "traverse f [] = Inr []"
| "traverse f (x # xs) = rbind (f x) (\<lambda>y. rbind (traverse f xs) (\<lambda>ys. Inr (y # ys)))"

lemma ok_or_simps [simp]: "ok_or None e = Inl e" "ok_or (Some x) e = Inr x"
  by (simp_all add: ok_or_def)

lemma rbind_simps [simp]: "rbind (Inl e) k = Inl e" "rbind (Inr x) k = k x"
  by (simp_all add: rbind_def)

lemma attempt_simps [simp]: "attempt s (Inl e) k = (Inl e, s)" "attempt s (Inr x) k = k x"
  by (simp_all add: attempt_def)

lemma chain_simps [simp]: "chain (Inl e, s) k = (Inl e, s)" "chain (Inr x, s) k = k x s"
  by (simp_all add: chain_def)

lemma ok_or_eq_Inr [simp]: "ok_or v e = Inr x \<longleftrightarrow> v = Some x"
  by (cases v) auto

lemma ok_or_eq_Inl [simp]: "ok_or v e = Inl e' \<longleftrightarrow> v = None \<and> e' = e"
  by (cases v) auto

lemma rbind_eq_Inr [simp]: "rbind r k = Inr y \<longleftrightarrow> (\<exists>x. r = Inr x \<and> k x = Inr y)"
  by (cases r) auto

lemma rbind_eq_Inl [simp]:
  "rbind r k = Inl e \<longleftrightarrow> r = Inl e \<or> (\<exists>x. r = Inr x \<and> k x = Inl e)"
  by (cases r) auto

lemma attempt_eq_Inr [simp]:
  "attempt s r k = (Inr y, s') \<longleftrightarrow> (\<exists>x. r = Inr x \<and> k x = (Inr y, s'))"
  by (cases r) auto

lemma attempt_eq_Inl [simp]:
  "attempt s r k = (Inl e, s') \<longleftrightarrow>
     (r = Inl e \<and> s' = s) \<or> (\<exists>x. r = Inr x \<and> k x = (Inl e, s'))"
  by (cases r) auto

lemma chain_eq_Inr [simp]:
  "chain p k = (Inr y, s') \<longleftrightarrow> (\<exists>x s. p = (Inr x, s) \<and> k x s = (Inr y, s'))"
  by (cases p; cases "fst p") auto

lemma chain_eq_Inl [simp]:
  "chain p k = (Inl e, s') \<longleftrightarrow>
     p = (Inl e, s') \<or> (\<exists>x s. p = (Inr x, s) \<and> k x s = (Inl e, s'))"
  by (cases p; cases "fst p") auto

lemma traverse_Inr_iff:
  "traverse f xs = Inr ys \<longleftrightarrow> list_all2 (\<lambda>x y. f x = Inr y) xs ys"
  by (induction xs arbitrary: ys) (auto simp: list_all2_Cons1)

lemma traverse_Inl_fails:
  "traverse f xs = Inl e \<Longrightarrow> \<exists>x \<in> set xs. f x = Inl e"
  by (induction xs) auto

lemma traverse_total: "(\<And>x. x \<in> set xs \<Longrightarrow> f x = Inr (g x)) \<Longrightarrow> traverse f xs = Inr (map g xs)"
  by (induction xs) auto

section \<open>\<open>Vec\<close> by index\<close>

definition nth_opt :: "'a list \<Rightarrow> nat \<Rightarrow> 'a option" where
  "nth_opt xs i = (if i < length xs then Some (xs ! i) else None)"

definition remove_at :: "nat \<Rightarrow> 'a list \<Rightarrow> 'a list" where
  "remove_at i xs = take i xs @ drop (Suc i) xs"

definition insert_at :: "nat \<Rightarrow> 'a \<Rightarrow> 'a list \<Rightarrow> 'a list" where
  "insert_at i x xs = take i xs @ x # drop i xs"

text \<open>\<open>iter().position(p)\<close>.\<close>

fun find_index :: "('a \<Rightarrow> bool) \<Rightarrow> 'a list \<Rightarrow> nat option" where
  "find_index p [] = None"
| "find_index p (x # xs) = (if p x then Some 0 else map_option Suc (find_index p xs))"

lemma nth_opt_eq_Some [simp]: "nth_opt xs i = Some x \<longleftrightarrow> i < length xs \<and> x = xs ! i"
  by (auto simp: nth_opt_def)

lemma nth_opt_eq_None [simp]: "nth_opt xs i = None \<longleftrightarrow> length xs \<le> i"
  by (auto simp: nth_opt_def)

lemma length_remove_at: "i < length xs \<Longrightarrow> length (remove_at i xs) = length xs - 1"
  by (simp add: remove_at_def)

lemma length_insert_at [simp]: "length (insert_at i x xs) = Suc (length xs)"
  by (simp add: insert_at_def)

lemma set_remove_at: "set (remove_at i xs) \<subseteq> set xs"
  by (auto simp: remove_at_def dest: in_set_takeD in_set_dropD)

lemma set_insert_at [simp]: "set (insert_at i x xs) = insert x (set xs)"
proof -
  have "set xs = set (take i xs) \<union> set (drop i xs)"
    by (metis append_take_drop_id set_append)
  then show ?thesis by (auto simp: insert_at_def)
qed

lemma mset_remove_at: "i < length xs \<Longrightarrow> add_mset (xs ! i) (mset (remove_at i xs)) = mset xs"
  by (metis id_take_nth_drop mset_append mset.simps(2) remove_at_def union_mset_add_mset_right)

lemma mset_insert_at [simp]: "mset (insert_at i x xs) = add_mset x (mset xs)"
  by (metis append_take_drop_id insert_at_def mset.simps(2) mset_append union_mset_add_mset_right)

lemma insert_at_remove_at: "i < length xs \<Longrightarrow> insert_at i (xs ! i) (remove_at i xs) = xs"
  by (simp add: insert_at_def remove_at_def min_def id_take_nth_drop [symmetric])

lemma insert_at_remove_at_update:
  "i < length xs \<Longrightarrow> insert_at i y (remove_at i xs) = xs[i := y]"
  by (simp add: insert_at_def remove_at_def upd_conv_take_nth_drop min_def)

lemma mset_list_update:
  "i < length xs \<Longrightarrow> add_mset (xs ! i) (mset (xs[i := y])) = add_mset y (mset xs)"
  using mset_remove_at [of i xs]
  by (simp add: insert_at_remove_at_update [symmetric] add_mset_commute [of "xs ! i" y])

lemma find_index_Some:
  "find_index p xs = Some i \<Longrightarrow> i < length xs \<and> p (xs ! i) \<and> (\<forall>j < i. \<not> p (xs ! j))"
proof (induction xs arbitrary: i)
  case (Cons x xs)
  show ?case
  proof (cases "p x")
    case True
    with Cons.prems show ?thesis by simp
  next
    case False
    with Cons.prems obtain k where "find_index p xs = Some k" and "i = Suc k" by auto
    with Cons.IH [of k] False show ?thesis by (simp add: All_less_Suc2)
  qed
qed simp

lemma find_index_None: "find_index p xs = None \<longleftrightarrow> (\<forall>x \<in> set xs. \<not> p x)"
  by (induction xs) auto

lemma replicate_mset_add: "replicate_mset (m + n) x = replicate_mset m x + replicate_mset n x"
  by (rule multiset_eqI) simp

lemma replicate_mset_dec: "0 < n \<Longrightarrow> add_mset x (replicate_mset (n - Suc 0) x) = replicate_mset n x"
  by (cases n) auto

section \<open>Running a sequence of commands\<close>

text \<open>
  A component is driven by a sequence of calls, each of which may fail; the caller goes on
  after a failed call with the state that call left behind. \<open>run_cmds\<close> is that sequence.
\<close>

fun run_cmds :: "('c \<Rightarrow> 's \<Rightarrow> ('e + 'a) \<times> 's) \<Rightarrow> 'c list \<Rightarrow> 's \<Rightarrow> 's" where
  "run_cmds exec [] s = s"
| "run_cmds exec (c # cs) s = run_cmds exec cs (snd (exec c s))"

text \<open>
  Keeping an invariant through the error plumbing: what is left after the call satisfies \<open>P\<close>,
  whichever way it ends.
\<close>

named_theorems keeps_intros \<open>introduction rules for \<open>keeps\<close>\<close>

definition keeps :: "('s \<Rightarrow> bool) \<Rightarrow> 'r \<times> 's \<Rightarrow> bool" where
  "keeps P r \<longleftrightarrow> P (snd r)"

lemma keepsI: "keeps P r \<Longrightarrow> P (snd r)"
  by (simp add: keeps_def)

lemma attempt_keeps [keeps_intros]:
  "P s \<Longrightarrow> (\<And>x. r = Inr x \<Longrightarrow> keeps P (k x)) \<Longrightarrow> keeps P (attempt s r k)"
  by (cases r) (auto simp: keeps_def)

lemma chain_keeps [keeps_intros]:
  "keeps P p \<Longrightarrow> (\<And>x s. p = (Inr x, s) \<Longrightarrow> P s \<Longrightarrow> keeps P (k x s)) \<Longrightarrow> keeps P (chain p k)"
  by (cases p; cases "fst p") (auto simp: keeps_def)

lemma pair_keeps [keeps_intros]: "P s \<Longrightarrow> keeps P (r, s)"
  by (simp add: keeps_def)

lemma if_keeps [keeps_intros]:
  "(b \<Longrightarrow> keeps P x) \<Longrightarrow> (\<not> b \<Longrightarrow> keeps P y) \<Longrightarrow> keeps P (if b then x else y)"
  by simp

lemma option_keeps [keeps_intros]:
  "(v = None \<Longrightarrow> keeps P x) \<Longrightarrow> (\<And>a. v = Some a \<Longrightarrow> keeps P (f a)) \<Longrightarrow>
     keeps P (case v of None \<Rightarrow> x | Some a \<Rightarrow> f a)"
  by (cases v) auto

lemma prod_keeps [keeps_intros]:
  "(\<And>a b. p = (a, b) \<Longrightarrow> keeps P (f a b)) \<Longrightarrow> keeps P (case p of (a, b) \<Rightarrow> f a b)"
  by (cases p) auto

lemma prod_arg_keeps [keeps_intros]:
  "(\<And>a b. p = (a, b) \<Longrightarrow> keeps P (f a b s)) \<Longrightarrow> keeps P ((case p of (a, b) \<Rightarrow> f a b) s)"
  by (cases p) auto

text \<open>A call that fails without a trace: its error comes back with the state it started from.\<close>

named_theorems clean_intros \<open>introduction rules for \<open>clean\<close>\<close>

definition clean :: "'s \<Rightarrow> ('e + 'a) \<times> 's \<Rightarrow> bool" where
  "clean s0 r \<longleftrightarrow> (\<forall>e s. r = (Inl e, s) \<longrightarrow> s = s0)"

lemma cleanD: "clean s0 r \<Longrightarrow> r = (Inl e, s) \<Longrightarrow> s = s0"
  by (simp add: clean_def)

lemma attempt_clean [clean_intros]:
  "(\<And>x. r = Inr x \<Longrightarrow> clean s (k x)) \<Longrightarrow> clean s (attempt s r k)"
  by (cases r) (auto simp: clean_def)

lemma chain_clean [clean_intros]:
  "clean s0 p \<Longrightarrow> (\<And>x s. p = (Inr x, s) \<Longrightarrow> clean s0 (k x s)) \<Longrightarrow> clean s0 (chain p k)"
  by (cases p; cases "fst p") (auto simp: clean_def)

lemma ok_clean [clean_intros]: "clean s0 (Inr x, s)"
  and error_clean [clean_intros]: "clean s (Inl e, s)"
  by (simp_all add: clean_def)

lemma if_clean [clean_intros]:
  "(b \<Longrightarrow> clean s0 x) \<Longrightarrow> (\<not> b \<Longrightarrow> clean s0 y) \<Longrightarrow> clean s0 (if b then x else y)"
  by simp

lemma option_clean [clean_intros]:
  "(v = None \<Longrightarrow> clean s0 x) \<Longrightarrow> (\<And>a. v = Some a \<Longrightarrow> clean s0 (f a)) \<Longrightarrow>
     clean s0 (case v of None \<Rightarrow> x | Some a \<Rightarrow> f a)"
  by (cases v) auto

lemma prod_clean [clean_intros]:
  "(\<And>a b. p = (a, b) \<Longrightarrow> clean s0 (f a b)) \<Longrightarrow> clean s0 (case p of (a, b) \<Rightarrow> f a b)"
  by (cases p) auto

lemma prod_arg_clean [clean_intros]:
  "(\<And>a b. p = (a, b) \<Longrightarrow> clean s0 (f a b s)) \<Longrightarrow> clean s0 ((case p of (a, b) \<Rightarrow> f a b) s)"
  by (cases p) auto

text \<open>
  The contract of a component whose well-typed calls keep an invariant, whether they succeed
  or fail. Clients get it for whole runs.
\<close>

locale invariant_machine =
  fixes exec :: "'c \<Rightarrow> 's \<Rightarrow> ('e + 'a) \<times> 's"
    and inv :: "'s \<Rightarrow> bool"
    and typed :: "'c \<Rightarrow> bool"
  assumes exec_inv: "typed c \<Longrightarrow> inv s \<Longrightarrow> inv (snd (exec c s))"
begin

lemma run_inv: "list_all typed cs \<Longrightarrow> inv s \<Longrightarrow> inv (run_cmds exec cs s)"
  by (induction cs arbitrary: s) (auto intro: exec_inv)

lemma run_append: "run_cmds exec (cs @ ds) s = run_cmds exec ds (run_cmds exec cs s)"
  by (induction cs arbitrary: s) auto

end

text \<open>
  The stronger contract of a component whose failing calls change nothing (the source works
  on clones and commits at the end). In a run, the failed calls can be dropped.
\<close>

fun accepted :: "('c \<Rightarrow> 's \<Rightarrow> ('e + 'a) \<times> 's) \<Rightarrow> 'c list \<Rightarrow> 's \<Rightarrow> 'c list" where
  "accepted exec [] s = []"
| "accepted exec (c # cs) s =
     (case exec c s of
        (Inl e, s') \<Rightarrow> accepted exec cs s'
      | (Inr x, s') \<Rightarrow> c # accepted exec cs s')"

locale atomic_machine = invariant_machine +
  assumes exec_atomic: "typed c \<Longrightarrow> inv s \<Longrightarrow> exec c s = (Inl e, s') \<Longrightarrow> s' = s"
begin

lemma run_accepted:
  "list_all typed cs \<Longrightarrow> inv s \<Longrightarrow> run_cmds exec (accepted exec cs s) s = run_cmds exec cs s"
proof (induction cs arbitrary: s)
  case (Cons c cs)
  show ?case
  proof (cases "exec c s")
    case (Pair r s')
    moreover have "inv s'" using Cons.prems exec_inv [of c s] Pair by simp
    ultimately show ?thesis
      using Cons by (cases r) (auto dest: exec_atomic)
  qed
qed simp

end

end
