(* ===== verification/BTree_Map.thy ===== *)
theory BTree_Map
  imports Prelude
begin

text \<open>
  The ordered map of the source's standard library, \<open>BTreeMap<K, V>\<close>, as the list of its
  entries in strictly ascending key order. The order is part of the model: the program
  iterates over these maps and its results depend on which key comes first. A value of the
  type is determined by its lookup function (\<open>bt_eqI\<close>), so map reasoning needs no
  well-formedness hypotheses. \<open>BTreeSet<K>\<close> is \<open>BTreeMap<K, ()>\<close>, as in the standard
  library itself.
\<close>

section \<open>The type\<close>

typedef (overloaded) ('k::linorder, 'v) btmap =
  "{xs :: ('k \<times> 'v) list. sorted_wrt (<) (map fst xs)}"
  morphisms entries Btmap
  by (rule exI [of _ "[]"]) simp

setup_lifting type_definition_btmap

lemma Btmap_entries [code abstype]: "Btmap (entries m) = m"
  by (rule entries_inverse)

lemma sorted_entries [simp]: "sorted_wrt (<) (map fst (entries m))"
  using entries [of m] by simp

lemma distinct_entries [simp]: "distinct (map fst (entries m))"
  using strict_sorted_iff [THEN iffD1, OF sorted_entries] by blast

instantiation btmap :: (linorder, type) equal
begin

definition "HOL.equal (m :: ('a, 'b) btmap) n \<longleftrightarrow> entries m = entries n"

instance
  by standard (simp add: equal_btmap_def entries_inject)

end

instantiation btmap :: (linorder, type) size
begin

definition "size (m :: ('a, 'b) btmap) = length (entries m)"

instance ..

end

section \<open>Operations\<close>

lift_definition bt_empty :: "('k::linorder, 'v) btmap" is "[]"
  by simp

lift_definition bt_get :: "('k::linorder, 'v) btmap \<Rightarrow> 'k \<Rightarrow> 'v option" is map_of .

definition ins_entry :: "'k::linorder \<Rightarrow> 'v \<Rightarrow> ('k \<times> 'v) list \<Rightarrow> ('k \<times> 'v) list" where
  "ins_entry k v xs = filter (\<lambda>p. fst p < k) xs @ (k, v) # filter (\<lambda>p. k < fst p) xs"

lemma sorted_wrt_fst_filter:
  "sorted_wrt (<) (map fst xs) \<Longrightarrow> sorted_wrt (<) (map fst (filter P xs))"
  by (induction xs) auto

lift_definition bt_insert :: "'k::linorder \<Rightarrow> 'v \<Rightarrow> ('k, 'v) btmap \<Rightarrow> ('k, 'v) btmap"
  is ins_entry
  by (auto simp: ins_entry_def sorted_wrt_append sorted_wrt_fst_filter intro: less_trans)

lift_definition bt_retain ::
  "('k::linorder \<Rightarrow> 'v \<Rightarrow> bool) \<Rightarrow> ('k, 'v) btmap \<Rightarrow> ('k, 'v) btmap"
  is "\<lambda>P. filter (\<lambda>(k, v). P k v)"
  by (rule sorted_wrt_fst_filter)

definition bt_remove :: "'k::linorder \<Rightarrow> ('k, 'v) btmap \<Rightarrow> ('k, 'v) btmap" where
  "bt_remove k = bt_retain (\<lambda>k' _. k' \<noteq> k)"

text \<open>A pass of \<open>values_mut()\<close>.\<close>

lift_definition bt_map :: "('k::linorder \<Rightarrow> 'v \<Rightarrow> 'w) \<Rightarrow> ('k, 'v) btmap \<Rightarrow> ('k, 'w) btmap"
  is "\<lambda>f. map (\<lambda>(k, v). (k, f k v))"
  by (simp add: comp_def case_prod_beta)

definition bt_keys :: "('k::linorder, 'v) btmap \<Rightarrow> 'k list" where
  "bt_keys m = map fst (entries m)"

definition bt_vals :: "('k::linorder, 'v) btmap \<Rightarrow> 'v list" where
  "bt_vals m = map snd (entries m)"

definition bt_len :: "('k::linorder, 'v) btmap \<Rightarrow> nat" where
  "bt_len m = length (entries m)"

definition bt_mem :: "'k::linorder \<Rightarrow> ('k, 'v) btmap \<Rightarrow> bool" where
  "bt_mem k m \<longleftrightarrow> bt_get m k \<noteq> None"

text \<open>\<open>collect()\<close> into a map: later entries for a key replace earlier ones.\<close>

definition bt_of_list :: "('k::linorder \<times> 'v) list \<Rightarrow> ('k, 'v) btmap" where
  "bt_of_list xs = foldl (\<lambda>m (k, v). bt_insert k v m) bt_empty xs"

section \<open>Lookup determines the map\<close>

lemma entries_bt_empty [simp]: "entries bt_empty = []"
  by (rule bt_empty.rep_eq)

lemma in_entries_iff: "(k, v) \<in> set (entries m) \<longleftrightarrow> bt_get m k = Some v"
  by (simp add: bt_get.rep_eq map_of_eq_Some_iff)

lemma ball_entries: "(\<forall>p \<in> set (entries m). Q p) \<longleftrightarrow> (\<forall>k v. bt_get m k = Some v \<longrightarrow> Q (k, v))"
  by (auto simp flip: in_entries_iff)

lemma fst_entries: "k \<in> fst ` set (entries m) \<longleftrightarrow> (\<exists>v. bt_get m k = Some v)"
  by (force simp flip: in_entries_iff)

lemma bt_get_empty [simp]: "bt_get bt_empty k = None"
  by transfer simp

lemma map_of_filter_less: "\<not> k' < k \<Longrightarrow> map_of (filter (\<lambda>p. fst p < k) xs) k' = None"
  by (induction xs) auto

lemma map_of_filter_fst: "P k' \<Longrightarrow> map_of (filter (\<lambda>p. P (fst p)) xs) k' = map_of xs k'"
  by (induction xs) auto

lemma map_of_filter_fst_None: "\<not> P k' \<Longrightarrow> map_of (filter (\<lambda>p. P (fst p)) xs) k' = None"
  by (induction xs) auto

lemma map_of_ins_entry: "map_of (ins_entry k v xs) k' = (if k' = k then Some v else map_of xs k')"
proof (cases k' k rule: linorder_cases)
  case less
  then show ?thesis
    using map_of_filter_fst [of "\<lambda>x. x < k" k' xs] map_of_filter_fst_None [of "\<lambda>x. k < x" k' xs]
    by (auto simp: ins_entry_def map_add_def split: option.splits)
next
  case equal
  then show ?thesis
    using map_of_filter_fst_None [of "\<lambda>x. x < k" k' xs] map_of_filter_fst_None [of "\<lambda>x. k < x" k' xs]
    by (auto simp: ins_entry_def map_add_def split: option.splits)
next
  case greater
  then show ?thesis
    using map_of_filter_fst [of "\<lambda>x. k < x" k' xs] map_of_filter_fst_None [of "\<lambda>x. x < k" k' xs]
    by (auto simp: ins_entry_def map_add_def split: option.splits)
qed

lemma bt_get_insert: "bt_get (bt_insert k v m) k' = (if k' = k then Some v else bt_get m k')"
  by transfer (rule map_of_ins_entry)

lemma bt_get_insert_same [simp]: "bt_get (bt_insert k v m) k = Some v"
  by (simp add: bt_get_insert)

lemma bt_get_insert_other [simp]: "k' \<noteq> k \<Longrightarrow> bt_get (bt_insert k v m) k' = bt_get m k'"
  by (simp add: bt_get_insert)

lemma bt_get_retain:
  "bt_get (bt_retain P m) k = (case bt_get m k of None \<Rightarrow> None | Some v \<Rightarrow> if P k v then Some v else None)"
proof -
  have "map_of (filter (\<lambda>(k, v). P k v) xs) k =
      (case map_of xs k of None \<Rightarrow> None | Some v \<Rightarrow> if P k v then Some v else None)"
    if "distinct (map fst xs)" for xs
    using that
  proof (induction xs)
    case (Cons p xs)
    then show ?case
      by (cases p) (auto split: option.splits dest: map_of_SomeD simp: rev_image_eqI)
  qed simp
  from this [OF distinct_entries] show ?thesis
    by (simp add: bt_get.rep_eq bt_retain.rep_eq)
qed

lemma bt_get_remove: "bt_get (bt_remove k m) k' = (if k' = k then None else bt_get m k')"
  by (auto simp: bt_remove_def bt_get_retain split: option.splits)

lemma bt_get_remove_same [simp]: "bt_get (bt_remove k m) k = None"
  by (simp add: bt_get_remove)

lemma bt_get_remove_other [simp]: "k' \<noteq> k \<Longrightarrow> bt_get (bt_remove k m) k' = bt_get m k'"
  by (simp add: bt_get_remove)

lemma bt_get_map [simp]: "bt_get (bt_map f m) k = map_option (f k) (bt_get m k)"
proof -
  have "map_of (map (\<lambda>(k, v). (k, f k v)) xs) k = map_option (f k) (map_of xs k)" for xs
    by (induction xs) auto
  then show ?thesis
    by (simp add: bt_get.rep_eq bt_map.rep_eq)
qed

lemma set_keys_eq_dom: "set (map fst (entries m)) = dom (bt_get m)"
  by (auto simp: bt_get.rep_eq dom_map_of_conv_image_fst)

lemma entries_eq_map_keys: "entries m = map (\<lambda>k. (k, the (bt_get m k))) (map fst (entries m))"
proof -
  have "xs = map (\<lambda>k. (k, the (map_of xs k))) (map fst xs)" if "distinct (map fst xs)"
    for xs :: "('a \<times> 'b) list"
    using that by (auto intro!: map_idI [symmetric] simp: map_of_is_SomeI)
  then show ?thesis by (simp add: bt_get.rep_eq)
qed

lemma bt_eqI:
  assumes "\<And>k. bt_get m k = bt_get n k"
  shows "m = n"
proof -
  from assms have get: "bt_get m = bt_get n" by (rule ext)
  have "map fst (entries m) = map fst (entries n)"
    by (rule strict_sorted_equal) (simp_all only: sorted_entries set_keys_eq_dom get)
  then have "entries m = entries n"
    using entries_eq_map_keys [of m] entries_eq_map_keys [of n] get by simp
  then show ?thesis by (simp add: entries_inject)
qed

lemma bt_eq_iff: "m = n \<longleftrightarrow> (\<forall>k. bt_get m k = bt_get n k)"
  by (auto intro: bt_eqI)

section \<open>Keys, values, membership, length\<close>

lemma set_bt_keys [simp]: "set (bt_keys m) = dom (bt_get m)"
  by (simp only: bt_keys_def set_keys_eq_dom)

lemma finite_dom_bt_get [simp]: "finite (dom (bt_get m))"
  by (metis List.finite_set set_bt_keys)

lemma sorted_bt_keys [simp]: "sorted_wrt (<) (bt_keys m)"
  by (simp add: bt_keys_def)

lemma distinct_bt_keys [simp]: "distinct (bt_keys m)"
  by (simp add: bt_keys_def)

lemma bt_keys_eq: "bt_keys m = sorted_list_of_set (dom (bt_get m))"
  by (rule strict_sorted_equal) simp_all

lemma in_bt_vals_iff: "v \<in> set (bt_vals m) \<longleftrightarrow> (\<exists>k. bt_get m k = Some v)"
  by (force simp: bt_vals_def simp flip: in_entries_iff)

lemma bt_len_eq_card: "bt_len m = card (dom (bt_get m))"
  by (metis bt_keys_def bt_len_def distinct_bt_keys distinct_card length_map set_bt_keys)

lemma bt_mem_iff: "bt_mem k m \<longleftrightarrow> k \<in> dom (bt_get m)"
  by (auto simp: bt_mem_def)

lemma bt_mem_empty [simp]: "\<not> bt_mem k bt_empty"
  by (simp add: bt_mem_def)

lemma bt_mem_insert [simp]: "bt_mem k' (bt_insert k v m) \<longleftrightarrow> k' = k \<or> bt_mem k' m"
  by (simp add: bt_mem_def bt_get_insert)

lemma bt_mem_remove [simp]: "bt_mem k' (bt_remove k m) \<longleftrightarrow> k' \<noteq> k \<and> bt_mem k' m"
  by (simp add: bt_mem_def bt_get_remove)

lemma bt_mem_map [simp]: "bt_mem k (bt_map f m) \<longleftrightarrow> bt_mem k m"
  by (simp add: bt_mem_def)

lemma bt_mem_of_get: "bt_get m k = Some v \<Longrightarrow> bt_mem k m"
  by (simp add: bt_mem_def)

lemma bt_not_mem: "\<not> bt_mem k m \<longleftrightarrow> bt_get m k = None"
  by (simp add: bt_mem_def)

lemma bt_mem_ex: "bt_mem k m \<longleftrightarrow> (\<exists>v. bt_get m k = Some v)"
  by (simp add: bt_mem_def)

lemma dom_bt_insert [simp]: "dom (bt_get (bt_insert k v m)) = insert k (dom (bt_get m))"
  by (auto simp: bt_get_insert split: if_splits)

lemma dom_bt_remove [simp]: "dom (bt_get (bt_remove k m)) = dom (bt_get m) - {k}"
  by (auto simp: bt_get_remove split: if_splits)

lemma bt_len_empty [simp]: "bt_len bt_empty = 0"
  by (simp add: bt_len_def)

lemma bt_len_insert: "bt_len (bt_insert k v m) = (if bt_mem k m then bt_len m else Suc (bt_len m))"
  by (simp add: bt_len_eq_card bt_mem_iff insert_absorb)

lemma bt_len_remove: "bt_len (bt_remove k m) = (if bt_mem k m then bt_len m - 1 else bt_len m)"
  by (simp add: bt_len_eq_card bt_mem_iff)

lemma bt_len_map [simp]: "bt_len (bt_map f m) = bt_len m"
  by (simp add: bt_len_def bt_map.rep_eq)

lemma bt_len_pos: "bt_mem k m \<Longrightarrow> 0 < bt_len m"
  by (auto simp: bt_len_eq_card bt_mem_iff card_gt_0_iff)

lemma bt_len_remove_mem: "bt_mem k m \<Longrightarrow> Suc (bt_len (bt_remove k m)) = bt_len m"
  using bt_len_pos [of k m] by (simp add: bt_len_remove)

lemma bt_insert_idem: "bt_get m k = Some v \<Longrightarrow> bt_insert k v m = m"
  by (rule bt_eqI) (simp add: bt_get_insert)

lemma bt_insert_remove [simp]: "bt_insert k v (bt_remove k m) = bt_insert k v m"
  by (rule bt_eqI) (simp add: bt_get_insert bt_get_remove)

lemma bt_insert_insert [simp]: "bt_insert k v (bt_insert k v' m) = bt_insert k v m"
  by (rule bt_eqI) (simp add: bt_get_insert)

lemma bt_remove_insert [simp]: "bt_remove k (bt_insert k v m) = bt_remove k m"
  by (rule bt_eqI) (simp add: bt_get_insert bt_get_remove)

lemma bt_insert_commute:
  "j \<noteq> k \<Longrightarrow> bt_insert j u (bt_insert k v m) = bt_insert k v (bt_insert j u m)"
  by (rule bt_eqI) (simp add: bt_get_insert)

lemma bt_remove_insert_other:
  "j \<noteq> k \<Longrightarrow> bt_remove j (bt_insert k v m) = bt_insert k v (bt_remove j m)"
  by (rule bt_eqI) (auto simp: bt_get_insert bt_get_remove)

lemma bt_remove_none: "bt_get m k = None \<Longrightarrow> bt_remove k m = m"
  by (rule bt_eqI) (auto simp: bt_get_remove)

section \<open>Sums over the values\<close>

text \<open>\<open>bt_sum f m\<close> adds a measure of the entries; what a map holds is accounted for by
  adding and removing single entries.\<close>

definition bt_sum :: "('v \<Rightarrow> 'a::comm_monoid_add) \<Rightarrow> ('k::linorder, 'v) btmap \<Rightarrow> 'a" where
  "bt_sum f m = sum_list (map f (bt_vals m))"

lemma bt_sum_empty [simp]: "bt_sum f bt_empty = 0"
  by (simp add: bt_sum_def bt_vals_def)

lemma bt_sum_set: "bt_sum f m = (\<Sum>k \<in> dom (bt_get m). f (the (bt_get m k)))"
proof -
  have "bt_sum f m = sum_list (map (\<lambda>k. f (the (bt_get m k))) (bt_keys m))"
    unfolding bt_sum_def bt_vals_def bt_keys_def
    by (subst entries_eq_map_keys) (simp add: comp_def)
  also have "\<dots> = (\<Sum>k \<in> dom (bt_get m). f (the (bt_get m k)))"
    by (simp add: sum_list_distinct_conv_sum_set)
  finally show ?thesis .
qed

lemma bt_sum_remove: "bt_get m k = Some v \<Longrightarrow> bt_sum f m = f v + bt_sum f (bt_remove k m)"
  unfolding bt_sum_set
  by (subst sum.remove [of _ k]) (auto simp: bt_get_remove intro!: sum.cong)

lemma bt_sum_insert_new: "bt_get m k = None \<Longrightarrow> bt_sum f (bt_insert k v m) = f v + bt_sum f m"
  using bt_sum_remove [of "bt_insert k v m" k v f] by (simp add: bt_remove_none)

lemma bt_sum_insert_removed: "bt_sum f (bt_insert k v m) = f v + bt_sum f (bt_remove k m)"
  using bt_sum_remove [of "bt_insert k v m" k v f] by simp

section \<open>The contract of a keyed store\<close>

text \<open>
  What clients rely on: a lookup sees exactly the last write to its key, and a store is
  determined by its lookups. The laws that follow are proved once for every such store.
\<close>

locale keyed_store =
  fixes get :: "'m \<Rightarrow> 'k \<Rightarrow> 'v option"
    and put :: "'k \<Rightarrow> 'v \<Rightarrow> 'm \<Rightarrow> 'm"
    and del :: "'k \<Rightarrow> 'm \<Rightarrow> 'm"
  assumes get_put: "get (put k v m) j = (if j = k then Some v else get m j)"
    and get_del: "get (del k m) j = (if j = k then None else get m j)"
    and extensional: "(\<And>k. get m k = get n k) \<Longrightarrow> m = n"
begin

lemma put_back: "get m k = Some v \<Longrightarrow> put k v (del k m) = m"
  by (rule extensional) (simp add: get_put get_del)

lemma del_put_new: "get m k = None \<Longrightarrow> del k (put k v m) = m"
  by (rule extensional) (simp add: get_put get_del)

lemma put_cancel: "put k v m = put k w m \<Longrightarrow> v = w"
  by (metis get_put option.inject)

text \<open>Replaying a list of writes: the last write to each key wins.\<close>

lemma get_fold_put:
  "get (foldl (\<lambda>m (k, v). put k v m) m kvs) j =
     (case map_of (rev kvs) j of None \<Rightarrow> get m j | Some v \<Rightarrow> Some v)"
  by (induction kvs arbitrary: m)
    (auto simp: get_put map_of_append map_add_def split: option.splits)

end

interpretation btmap: keyed_store bt_get bt_insert bt_remove
  by unfold_locales (simp_all add: bt_get_insert bt_get_remove bt_eqI)

lemma bt_get_of_list: "bt_get (bt_of_list kvs) k = map_of (rev kvs) k"
  by (simp add: bt_of_list_def btmap.get_fold_put split: option.splits)

section \<open>Sets\<close>

type_synonym 'k btset = "('k, unit) btmap"

abbreviation bs_insert :: "'k::linorder \<Rightarrow> 'k btset \<Rightarrow> 'k btset" where
  "bs_insert k \<equiv> bt_insert k ()"

definition bs_of_list :: "'k::linorder list \<Rightarrow> 'k btset" where
  "bs_of_list ks = foldl (\<lambda>s k. bs_insert k s) bt_empty ks"

lemma bs_eqI: "(\<And>k. bt_mem k s = bt_mem k t) \<Longrightarrow> s = (t :: 'k::linorder btset)"
  by (rule bt_eqI) (metis bt_mem_def not_None_eq old.unit.exhaust)

lemma bt_mem_bs_fold: "bt_mem j (foldl (\<lambda>s k. bs_insert k s) s ks) \<longleftrightarrow> j \<in> set ks \<or> bt_mem j s"
  by (induction ks arbitrary: s) auto

lemma bt_mem_bs_of_list [simp]: "bt_mem j (bs_of_list ks) \<longleftrightarrow> j \<in> set ks"
  by (simp add: bs_of_list_def bt_mem_bs_fold)

section \<open>Evaluation\<close>

text \<open>The equations that evaluate closed maps by rewriting.\<close>

lemmas bt_eval =
  bt_insert.rep_eq ins_entry_def bt_remove_def bt_retain.rep_eq bt_map.rep_eq
  bt_keys_def bt_vals_def bt_len_def bt_get_insert bt_get_remove

end
