(* ===== verification/Core_Types.thy ===== *)
theory Core_Types
  imports BTree_Map
begin

text \<open>
  The shared vocabulary of \<open>crates/forgotten-core/src/lib.rs\<close>: server lifecycle, tile
  positions and cardinal steps, equipment slots, player skills and condition kinds with
  their wire codes, and the error enum of the whole crate.
\<close>

section \<open>Server lifecycle\<close>

datatype server_status = Offline | Starting | Online | Stopping | Failed

datatype lifecycle_command = Start | Ready | Stop | Stopped | Restart | Fail

fun status_as_str :: "server_status \<Rightarrow> string" where
  "status_as_str Offline = ''offline''"
| "status_as_str Starting = ''starting''"
| "status_as_str Online = ''online''"
| "status_as_str Stopping = ''stopping''"
| "status_as_str Failed = ''failed''"

fun command_as_str :: "lifecycle_command \<Rightarrow> string" where
  "command_as_str Start = ''start''"
| "command_as_str Ready = ''ready''"
| "command_as_str Stop = ''stop''"
| "command_as_str Stopped = ''stopped''"
| "command_as_str Restart = ''restart''"
| "command_as_str Fail = ''fail''"

section \<open>Positions\<close>

datatype position = Position (pos_x: nat) (pos_y: nat) (pos_z: nat)

datatype cardinal_direction = North | East | South | West

text \<open>The derived order is lexicographic on \<open>x\<close>, \<open>y\<close>, \<open>z\<close>; it is the key order of
  every map from positions.\<close>

instantiation position :: linorder
begin

definition less_eq_position :: "position \<Rightarrow> position \<Rightarrow> bool" where
  "p \<le> q \<longleftrightarrow> pos_x p < pos_x q \<or> (pos_x p = pos_x q \<and>
     (pos_y p < pos_y q \<or> (pos_y p = pos_y q \<and> pos_z p \<le> pos_z q)))"

definition less_position :: "position \<Rightarrow> position \<Rightarrow> bool" where
  "p < q \<longleftrightarrow> pos_x p < pos_x q \<or> (pos_x p = pos_x q \<and>
     (pos_y p < pos_y q \<or> (pos_y p = pos_y q \<and> pos_z p < pos_z q)))"

instance
  by standard (auto simp: less_eq_position_def less_position_def position.expand)

end

definition pos_wf :: "position \<Rightarrow> bool" where
  "pos_wf p \<longleftrightarrow> pos_x p \<le> u16_max \<and> pos_y p \<le> u16_max \<and> pos_z p \<le> u8_max"

definition is_adjacent_to :: "position \<Rightarrow> position \<Rightarrow> bool" where
  "is_adjacent_to p q \<longleftrightarrow>
     pos_z p = pos_z q \<and> abs_diff (pos_x p) (pos_x q) \<le> 1 \<and>
     abs_diff (pos_y p) (pos_y q) \<le> 1 \<and> p \<noteq> q"

section \<open>Equipment slots, skills, condition kinds\<close>

datatype equipment_slot =
  Head | Neck | Backpack | Armor | RightHand | LeftHand | Legs | Feet | Ring | Ammo

fun slot_code :: "equipment_slot \<Rightarrow> nat" where
  "slot_code Head = 1"
| "slot_code Neck = 2"
| "slot_code Backpack = 3"
| "slot_code Armor = 4"
| "slot_code RightHand = 5"
| "slot_code LeftHand = 6"
| "slot_code Legs = 7"
| "slot_code Feet = 8"
| "slot_code Ring = 9"
| "slot_code Ammo = 10"

definition slot_from_code :: "nat \<Rightarrow> equipment_slot option" where
  "slot_from_code c =
     (if c = 1 then Some Head else if c = 2 then Some Neck else if c = 3 then Some Backpack
      else if c = 4 then Some Armor else if c = 5 then Some RightHand
      else if c = 6 then Some LeftHand else if c = 7 then Some Legs else if c = 8 then Some Feet
      else if c = 9 then Some Ring else if c = 10 then Some Ammo else None)"

datatype player_skill = Fist | Club | Sword | Axe | Distance | Shielding | Fishing

definition all_skills :: "player_skill list" where
  "all_skills = [Fist, Club, Sword, Axe, Distance, Shielding, Fishing]"

fun skill_code :: "player_skill \<Rightarrow> nat" where
  "skill_code Fist = 0"
| "skill_code Club = 1"
| "skill_code Sword = 2"
| "skill_code Axe = 3"
| "skill_code Distance = 4"
| "skill_code Shielding = 5"
| "skill_code Fishing = 6"

definition skill_from_code :: "nat \<Rightarrow> player_skill option" where
  "skill_from_code c =
     (if c = 0 then Some Fist else if c = 1 then Some Club else if c = 2 then Some Sword
      else if c = 3 then Some Axe else if c = 4 then Some Distance
      else if c = 5 then Some Shielding else if c = 6 then Some Fishing else None)"

datatype condition_kind = Poison | Burning | Energy | Haste

fun condition_code :: "condition_kind \<Rightarrow> nat" where
  "condition_code Poison = 0"
| "condition_code Burning = 1"
| "condition_code Energy = 2"
| "condition_code Haste = 3"

definition condition_from_code :: "nat \<Rightarrow> condition_kind option" where
  "condition_from_code c =
     (if c = 0 then Some Poison else if c = 1 then Some Burning
      else if c = 2 then Some Energy else if c = 3 then Some Haste else None)"

definition is_damage_over_time :: "condition_kind \<Rightarrow> bool" where
  "is_damage_over_time k \<longleftrightarrow> k \<noteq> Haste"

lemma slot_code_inject [simp]: "slot_code s = slot_code t \<longleftrightarrow> s = t"
  by (cases s; cases t) simp_all

lemma skill_code_inject [simp]: "skill_code s = skill_code t \<longleftrightarrow> s = t"
  by (cases s; cases t) simp_all

lemma condition_code_inject [simp]: "condition_code s = condition_code t \<longleftrightarrow> s = t"
  by (cases s; cases t) simp_all

text \<open>The derived orders follow the declaration order, which is the code order.\<close>

instantiation equipment_slot :: linorder
begin

definition less_eq_equipment_slot :: "equipment_slot \<Rightarrow> equipment_slot \<Rightarrow> bool" where
  "s \<le> t \<longleftrightarrow> slot_code s \<le> slot_code t"

definition less_equipment_slot :: "equipment_slot \<Rightarrow> equipment_slot \<Rightarrow> bool" where
  "s < t \<longleftrightarrow> slot_code s < slot_code t"

instance
  by standard (auto simp: less_eq_equipment_slot_def less_equipment_slot_def)

end

instantiation condition_kind :: linorder
begin

definition less_eq_condition_kind :: "condition_kind \<Rightarrow> condition_kind \<Rightarrow> bool" where
  "s \<le> t \<longleftrightarrow> condition_code s \<le> condition_code t"

definition less_condition_kind :: "condition_kind \<Rightarrow> condition_kind \<Rightarrow> bool" where
  "s < t \<longleftrightarrow> condition_code s < condition_code t"

instance
  by standard (auto simp: less_eq_condition_kind_def less_condition_kind_def)

end

instantiation player_skill :: linorder
begin

definition less_eq_player_skill :: "player_skill \<Rightarrow> player_skill \<Rightarrow> bool" where
  "s \<le> t \<longleftrightarrow> skill_code s \<le> skill_code t"

definition less_player_skill :: "player_skill \<Rightarrow> player_skill \<Rightarrow> bool" where
  "s < t \<longleftrightarrow> skill_code s < skill_code t"

instance
  by standard (auto simp: less_eq_player_skill_def less_player_skill_def)

end

section \<open>Errors\<close>

text \<open>
  The variants of \<open>CoreError\<close>, in groups by the part of the crate that raises them; the one
  enum of the source is the sum \<open>core_error\<close> of the groups. Payload fields keep the source's
  order; an inline struct payload becomes the constructor's arguments.
\<close>

datatype item_error =
  InvalidContainerCapacity nat
| InvalidContainerName nat
| TooManyPlayerContainers nat
| ContainerFull nat
| InvalidItemContentDepth
| InvalidItemId nat
| InvalidClientThingId nat
| EmptyEquipmentSlot nat equipment_slot
| OccupiedEquipmentSlot nat equipment_slot
| UnknownPlayerContainer nat nat
| UnknownPlayerContainerItem nat nat nat
| DuplicateItemPresentation nat
| InvalidItemStackCount nat
| InvalidItemTransferCount nat nat
| IncompatibleItemStacks
| SamePlayerContainerTransfer nat nat
| SameEquipmentSlotTransfer nat equipment_slot
| ItemStackCountOverflow nat nat

datatype map_error =
  InvalidMovement position position
| MapBoundary position
| MapTileLimit nat
| MapTileItemLimit nat
| MapTownLimit nat
| MapWaypointLimit nat
| InvalidMap string
| InvalidItemUseIntent
| ItemUseOutOfRange nat position position
| MissingMapTile position
| UnknownMapItem position nat nat

datatype static_error =
  InvalidStaticCreatureTargetRange nat
| StaticSpawnLimit nat
| DuplicateStaticSpawnId nat
| EmptyStaticSpawnName
| UnknownEntityName string
| SpawnPositionRejected position
| DynamicSpawnLimit nat
| InvalidStaticCreatureHealthPercent nat
| InvalidStaticCreatureReactivationDelay nat nat nat
| InvalidStaticCreatureMeleeCooldownDelay nat nat nat
| UnknownStaticCreatureSchedule
| StaticCreatureOccupiesPosition position
| PlayerOccupiesStaticCreaturePosition position
| UnknownStaticCreature nat
| InactiveStaticCreature nat
| StaticNpcNotAttackable nat
| StaticCreatureMovementBlocked position

datatype social_error =
  InvalidPartySnapshot string
| TradeWithSelf
| PlayerAlreadyTrading nat
| NoActiveTrade nat
| TradeItemLimit nat
| DuplicateTradeItem
| UnknownTradeItem
| TradeItemMissing nat nat nat
| TradeValidationFailed string
| PlayerNotInParty nat
| PlayerAlreadyInParty nat
| PlayerNotInPartyFree nat
| PartyInvitationNotFound nat nat
| DuplicatePartyInvitation nat nat
| PartyLeadershipTargetNotMember nat nat

datatype player_error =
  DuplicatePlayer nat
| EmptyPlayerName
| PlayerOccupiesPosition position
| InvalidTransition server_status lifecycle_command
| UnknownPlayer nat
| UnknownTown nat
| PlayerTownUnassigned nat
| InvalidPlayerRespawnState nat
| PlayerIsDead nat
| SelectedPlayerIsDead nat
| PlayerIsNotDead nat
| MissingRespawnPosition nat
| DeathLossAlreadyApplied nat
| InvalidFixedDeathLossPercent nat
| SelfInteractionNotAllowed nat
| InvalidPlayerVitals nat

datatype rule_error =
  InvalidProgressionMultiplier nat
| InvalidExperienceAwardPolicy
| InvalidSkillProgress nat nat
| InvalidRegenerationInterval
| InvalidPlayerCondition
| InvalidDeathLossPolicy
| InvalidCombatEvent
| InvalidCombatDefense
| InvalidSpellCastEvent
| InsufficientMana nat nat nat
| SpellCooldownActive nat nat nat
| TargetAlreadyDefeated nat
| CombatCooldownActive nat nat nat
| CombatOutOfRange nat nat
| StaticCreatureCombatOutOfRange nat nat

datatype core_error =
  Item_error item_error
| Map_error map_error
| Static_error static_error
| Social_error social_error
| Player_error player_error
| Rule_error rule_error

text \<open>
  A call ends in a value, in an error of the crate, or in a panic (a division by a zero
  interval taken from an unchecked public field, an arithmetic overflow in a checked build).
\<close>

datatype fault = Error core_error | Panic

type_synonym 'a result = "fault + 'a"

abbreviation Ok :: "'a \<Rightarrow> 'a result" where "Ok \<equiv> Inr"

abbreviation item_fault :: "item_error \<Rightarrow> fault" where "item_fault e \<equiv> Error (Item_error e)"
abbreviation map_fault :: "map_error \<Rightarrow> fault" where "map_fault e \<equiv> Error (Map_error e)"
abbreviation static_fault :: "static_error \<Rightarrow> fault" where "static_fault e \<equiv> Error (Static_error e)"
abbreviation social_fault :: "social_error \<Rightarrow> fault" where "social_fault e \<equiv> Error (Social_error e)"
abbreviation player_fault :: "player_error \<Rightarrow> fault" where "player_fault e \<equiv> Error (Player_error e)"
abbreviation rule_fault :: "rule_error \<Rightarrow> fault" where "rule_fault e \<equiv> Error (Rule_error e)"

abbreviation unknown_player :: "nat \<Rightarrow> fault" where
  "unknown_player p \<equiv> player_fault (UnknownPlayer p)"

section \<open>Operations on statuses and positions\<close>

fun apply_command :: "server_status \<Rightarrow> lifecycle_command \<Rightarrow> server_status result" where
  "apply_command Offline Start = Ok Starting"
| "apply_command Failed Start = Ok Starting"
| "apply_command Starting Ready = Ok Online"
| "apply_command Online Stop = Ok Stopping"
| "apply_command Stopping Stopped = Ok Offline"
| "apply_command Online Restart = Ok Stopping"
| "apply_command _ Fail = Ok Failed"
| "apply_command s c = Inl (player_fault (InvalidTransition s c))"

definition step :: "position \<Rightarrow> cardinal_direction \<Rightarrow> position result" where
  "step p d =
     (case (case d of
              North \<Rightarrow> (Some (pos_x p), checked_sub (pos_y p) 1)
            | East \<Rightarrow> (checked_add u16_max (pos_x p) 1, Some (pos_y p))
            | South \<Rightarrow> (Some (pos_x p), checked_add u16_max (pos_y p) 1)
            | West \<Rightarrow> (checked_sub (pos_x p) 1, Some (pos_y p))) of
        (Some x, Some y) \<Rightarrow> Ok (Position x y (pos_z p))
      | _ \<Rightarrow> Inl (map_fault (MapBoundary p)))"

section \<open>Lemmas\<close>

lemma is_adjacent_sym: "is_adjacent_to p q = is_adjacent_to q p"
  by (auto simp: is_adjacent_to_def abs_diff_commute)

lemma not_adjacent_self [simp]: "\<not> is_adjacent_to p p"
  by (simp add: is_adjacent_to_def)

lemma step_adjacent: "step p d = Ok q \<Longrightarrow> is_adjacent_to p q"
  by (cases p)
    (auto simp: step_def sat_defs is_adjacent_to_def
       split: cardinal_direction.splits option.splits if_splits)

lemma step_wf: "step p d = Ok q \<Longrightarrow> pos_wf p \<Longrightarrow> pos_wf q"
  by (auto simp: step_def sat_defs pos_wf_def
       split: cardinal_direction.splits option.splits if_splits)

lemma step_floor: "step p d = Ok q \<Longrightarrow> pos_z q = pos_z p"
  by (auto simp: step_def split: cardinal_direction.splits option.splits prod.splits)

lemma step_error: "step p d = Inl e \<Longrightarrow> e = map_fault (MapBoundary p)"
  by (auto simp: step_def split: cardinal_direction.splits option.splits prod.splits)

fun opposite :: "cardinal_direction \<Rightarrow> cardinal_direction" where
  "opposite North = South"
| "opposite South = North"
| "opposite East = West"
| "opposite West = East"

lemma step_opposite: "step p d = Ok q \<Longrightarrow> pos_wf p \<Longrightarrow> step q (opposite d) = Ok p"
  by (cases p; cases d)
    (auto simp: step_def sat_defs pos_wf_def split: option.splits if_splits)

lemma slot_roundtrip [simp]: "slot_from_code (slot_code s) = Some s"
  by (cases s) (simp_all add: slot_from_code_def)

lemma slot_from_code_inv: "slot_from_code c = Some s \<Longrightarrow> slot_code s = c"
  by (auto simp: slot_from_code_def split: if_splits)

lemma skill_roundtrip [simp]: "skill_from_code (skill_code s) = Some s"
  by (cases s) (simp_all add: skill_from_code_def)

lemma skill_from_code_inv: "skill_from_code c = Some s \<Longrightarrow> skill_code s = c"
  by (auto simp: skill_from_code_def split: if_splits)

lemma condition_roundtrip [simp]: "condition_from_code (condition_code k) = Some k"
  by (cases k) (simp_all add: condition_from_code_def)

lemma condition_from_code_inv: "condition_from_code c = Some k \<Longrightarrow> condition_code k = c"
  by (auto simp: condition_from_code_def split: if_splits)

lemma skill_code_less: "skill_code s < 7"
  by (cases s) simp_all

section \<open>The lifecycle as a step relation\<close>

inductive status_step :: "server_status \<Rightarrow> lifecycle_command \<Rightarrow> server_status \<Rightarrow> bool" where
  boot: "s = Offline \<or> s = Failed \<Longrightarrow> status_step s Start Starting"
| up: "status_step Starting Ready Online"
| halt: "c = Stop \<or> c = Restart \<Longrightarrow> status_step Online c Stopping"
| down: "status_step Stopping Stopped Offline"
| crash: "status_step s Fail Failed"

inductive_cases status_step_online: "status_step s c Online"
inductive_simps status_step_iff: "status_step s c t"

lemma status_step_apply: "status_step s c t \<longleftrightarrow> apply_command s c = Ok t"
  by (cases s; cases c) (auto simp: status_step_iff)

lemma apply_command_error:
  "apply_command s c = Inl e \<longleftrightarrow> (\<nexists>t. status_step s c t) \<and> e = player_fault (InvalidTransition s c)"
  by (cases s; cases c) (auto simp: status_step_iff)

text \<open>A trace of accepted commands.\<close>

fun status_trace :: "server_status \<Rightarrow> lifecycle_command list \<Rightarrow> server_status result" where
  "status_trace s [] = Ok s"
| "status_trace s (c # cs) = rbind (apply_command s c) (\<lambda>t. status_trace t cs)"

lemma status_trace_append:
  "status_trace s (cs @ ds) = rbind (status_trace s cs) (\<lambda>t. status_trace t ds)"
proof (induction cs arbitrary: s)
  case (Cons c cs)
  then show ?case by (cases "apply_command s c") auto
qed simp

lemma online_only_after_ready:
  assumes "status_trace s cs = Ok Online" and "s \<noteq> Online"
  shows "\<exists>ds. cs = ds @ [Ready] \<and> status_trace s ds = Ok Starting"
proof (cases cs rule: rev_cases)
  case Nil
  with assms show ?thesis by simp
next
  case (snoc ds c)
  with assms(1) obtain t where t: "status_trace s ds = Ok t" and c: "apply_command t c = Ok Online"
    by (auto simp: status_trace_append)
  from c have "status_step t c Online" by (simp add: status_step_apply)
  then show ?thesis using snoc t by (auto elim: status_step_online)
qed

end
