(* ===== verification/Items.thy ===== *)
theory Items
  imports Core_Types
begin

text \<open>
  Runtime items and what holds them: item instances with their stack arithmetic and nested
  contents, ordered bounded containers, a player's container windows and equipment slots,
  and the presentation catalog (\<open>ItemInstance\<close>, \<open>ItemContainer\<close>, \<open>PlayerContainer\<close>,
  \<open>PlayerContainers\<close>, \<open>PlayerEquipment\<close>, \<open>NativeItemPresentationCatalog\<close> of
  \<open>crates/forgotten-core/src/lib.rs\<close>).

  The measure that the transfer theories conserve is \<open>item_units\<close>: the multiset with one
  element per unit of a stack, labelled by what makes two stacks compatible.
\<close>

named_theorems item_defs \<open>definitions of the item and container operations\<close>

abbreviation max_item_stack_count :: nat where "max_item_stack_count \<equiv> 100"
abbreviation max_content_depth :: nat where "max_content_depth \<equiv> 1"
abbreviation max_content_slots :: nat where "max_content_slots \<equiv> 20"
abbreviation max_container_capacity :: nat where "max_container_capacity \<equiv> 100"
abbreviation max_player_containers :: nat where "max_player_containers \<equiv> 16"
abbreviation max_player_container_name_bytes :: nat where
  "max_player_container_name_bytes \<equiv> 64"

section \<open>Item instances\<close>

datatype item_instance =
  Item_Instance (server_id: nat) (stack_count: nat) (action_id: "nat option")
    (unique_id: "nat option") (contents: "item_instance list")

definition with_count :: "nat \<Rightarrow> item_instance \<Rightarrow> item_instance" where
  "with_count n it = Item_Instance (server_id it) n (action_id it) (unique_id it) (contents it)"

definition with_contents :: "item_instance list \<Rightarrow> item_instance \<Rightarrow> item_instance" where
  "with_contents xs it =
     Item_Instance (server_id it) (stack_count it) (action_id it) (unique_id it) xs"

lemma with_count_sel [simp]:
  "server_id (with_count n it) = server_id it"
  "stack_count (with_count n it) = n"
  "action_id (with_count n it) = action_id it"
  "unique_id (with_count n it) = unique_id it"
  "contents (with_count n it) = contents it"
  by (simp_all add: with_count_def)

lemma with_contents_sel [simp]:
  "server_id (with_contents xs it) = server_id it"
  "stack_count (with_contents xs it) = stack_count it"
  "action_id (with_contents xs it) = action_id it"
  "unique_id (with_contents xs it) = unique_id it"
  "contents (with_contents xs it) = xs"
  by (simp_all add: with_contents_def)

lemma with_count_id [simp]: "with_count (stack_count it) it = it"
  by (simp add: with_count_def)

lemma with_count_twice [simp]: "with_count n (with_count m it) = with_count n it"
  by (simp add: with_count_def)

definition item_new :: "nat \<Rightarrow> nat \<Rightarrow> item_instance result" where
  [item_defs]: "item_new sid n =
     (if sid = 0 then Inl (item_fault (InvalidItemId sid))
      else if \<not> (1 \<le> n \<and> n \<le> max_item_stack_count)
      then Inl (item_fault (InvalidItemStackCount n))
      else Ok (Item_Instance sid n None None []))"

text \<open>Height of an item's content subtree, in \<open>u8\<close> with saturation.\<close>

fun content_depth :: "item_instance \<Rightarrow> nat" where
  "content_depth (Item_Instance sid n aid uid xs) =
     foldr max (map (\<lambda>c. sat_add u8_max (content_depth c) 1) xs) 0"

definition insert_content :: "item_instance \<Rightarrow> item_instance \<Rightarrow> item_instance result" where
  [item_defs]: "insert_content self it =
     (if server_id it = 0 then Inl (item_fault (InvalidItemId (server_id it)))
      else if length (contents self) \<ge> max_content_slots
      then Inl (item_fault (ContainerFull max_content_slots))
      else if content_depth it \<ge> max_content_depth
      then Inl (item_fault InvalidItemContentDepth)
      else Ok (with_contents (contents self @ [it]) self))"

definition take_content :: "item_instance \<Rightarrow> nat \<Rightarrow> (item_instance \<times> item_instance) option" where
  [item_defs]: "take_content self i =
     (if i < length (contents self)
      then Some (contents self ! i, with_contents (remove_at i (contents self)) self)
      else None)"

definition is_stack_compatible_with :: "item_instance \<Rightarrow> item_instance \<Rightarrow> bool" where
  "is_stack_compatible_with self other \<longleftrightarrow>
     server_id self = server_id other \<and> action_id self = action_id other \<and>
     unique_id self = unique_id other"

text \<open>\<open>split_off\<close> returns what is left in \<open>self\<close> and the split stack; a rejected count
  leaves \<open>self\<close> as it was.\<close>

definition split_off :: "item_instance \<Rightarrow> nat \<Rightarrow> (item_instance \<times> item_instance) result" where
  [item_defs]: "split_off self n =
     (if n = 0 \<or> n > stack_count self
      then Inl (item_fault (InvalidItemTransferCount n (stack_count self)))
      else (let rest = with_count (stack_count self - n) self
            in Ok (rest, with_count n rest)))"

definition merge_stack :: "item_instance \<Rightarrow> item_instance \<Rightarrow> item_instance result" where
  [item_defs]: "merge_stack self incoming =
     (if \<not> is_stack_compatible_with self incoming
      then Inl (item_fault IncompatibleItemStacks)
      else (case checked_add u16_max (stack_count self) (stack_count incoming) of
              None \<Rightarrow> Inl (item_fault
                        (ItemStackCountOverflow (stack_count self) (stack_count incoming)))
            | Some n \<Rightarrow>
                if n > max_item_stack_count
                then Inl (item_fault
                       (ItemStackCountOverflow (stack_count self) (stack_count incoming)))
                else Ok (with_count n self)))"

section \<open>Containers\<close>

record item_container =
  ic_capacity :: nat
  ic_items :: "item_instance list"

definition container_new :: "nat \<Rightarrow> item_container result" where
  [item_defs]: "container_new cap =
     (if cap = 0 \<or> cap > max_container_capacity
      then Inl (item_fault (InvalidContainerCapacity cap))
      else Ok \<lparr>ic_capacity = cap, ic_items = []\<rparr>)"

definition container_insert :: "item_container \<Rightarrow> item_instance \<Rightarrow> item_container result" where
  [item_defs]: "container_insert c it =
     (if length (ic_items c) \<ge> ic_capacity c
      then Inl (item_fault (ContainerFull (ic_capacity c)))
      else Ok (c\<lparr>ic_items := ic_items c @ [it]\<rparr>))"

text \<open>The index and the count of the stack that received the item come back with the
  container.\<close>

definition merge_or_insert_stack ::
  "item_container \<Rightarrow> item_instance \<Rightarrow> ((nat \<times> nat) \<times> item_container) result" where
  [item_defs]: "merge_or_insert_stack c it =
     (case find_index (\<lambda>ex. is_stack_compatible_with ex it \<and>
             sat_add u16_max (stack_count ex) (stack_count it) \<le> max_item_stack_count)
           (ic_items c) of
        Some i \<Rightarrow>
          rbind (merge_stack (ic_items c ! i) it) (\<lambda>merged.
            Ok ((i, stack_count merged), c\<lparr>ic_items := (ic_items c)[i := merged]\<rparr>))
      | None \<Rightarrow>
          (case find (\<lambda>ex. is_stack_compatible_with ex it) (ic_items c) of
             Some ex \<Rightarrow>
               Inl (item_fault (ItemStackCountOverflow (stack_count ex) (stack_count it)))
           | None \<Rightarrow>
               rbind (container_insert c it) (\<lambda>c'.
                 Ok ((length (ic_items c') - 1, stack_count it), c'))))"

definition container_remove ::
  "item_container \<Rightarrow> nat \<Rightarrow> (item_instance \<times> item_container) option" where
  [item_defs]: "container_remove c i =
     (if i < length (ic_items c)
      then Some (ic_items c ! i, c\<lparr>ic_items := remove_at i (ic_items c)\<rparr>)
      else None)"

definition container_take_content ::
  "item_container \<Rightarrow> nat \<Rightarrow> nat \<Rightarrow> (item_instance \<times> item_container) option" where
  [item_defs]: "container_take_content c i j =
     (case nth_opt (ic_items c) i of
        None \<Rightarrow> None
      | Some it \<Rightarrow>
          (case take_content it j of
             None \<Rightarrow> None
           | Some (x, it') \<Rightarrow> Some (x, c\<lparr>ic_items := (ic_items c)[i := it']\<rparr>)))"

definition consume_item_unit :: "item_container \<Rightarrow> nat \<Rightarrow> bool \<times> item_container" where
  [item_defs]: "consume_item_unit c i =
     (case nth_opt (ic_items c) i of
        None \<Rightarrow> (False, c)
      | Some it \<Rightarrow>
          (True,
           if stack_count it > 1
           then c\<lparr>ic_items := (ic_items c)[i := with_count (stack_count it - 1) it]\<rparr>
           else c\<lparr>ic_items := remove_at i (ic_items c)\<rparr>))"

definition take_item_units :: "item_container \<Rightarrow> nat \<Rightarrow> nat \<Rightarrow> nat \<times> item_container" where
  [item_defs]: "take_item_units c i units =
     (case nth_opt (ic_items c) i of
        None \<Rightarrow> (0, c)
      | Some it \<Rightarrow>
          (let available = min (stack_count it) units;
               left = stack_count it - available
           in (available,
               if left = 0 then c\<lparr>ic_items := remove_at i (ic_items c)\<rparr>
               else c\<lparr>ic_items := (ic_items c)[i := with_count left it]\<rparr>)))"

section \<open>Container windows and equipment\<close>

record player_container =
  pc_id :: nat
  pc_item :: item_instance
  pc_name :: string
  pc_has_parent :: bool
  pc_items :: item_container

definition player_container_new ::
  "nat \<Rightarrow> item_instance \<Rightarrow> string \<Rightarrow> bool \<Rightarrow> nat \<Rightarrow> player_container result" where
  [item_defs]: "player_container_new cid it name has_parent cap =
     (if name = [] \<or> length name > max_player_container_name_bytes
      then Inl (item_fault (InvalidContainerName (length name)))
      else rbind (container_new cap) (\<lambda>c.
        Ok \<lparr>pc_id = cid, pc_item = it, pc_name = name, pc_has_parent = has_parent,
             pc_items = c\<rparr>))"

type_synonym player_containers = "(nat, player_container) btmap"

definition containers_insert ::
  "player_containers \<Rightarrow> player_container \<Rightarrow> player_containers result" where
  [item_defs]: "containers_insert cs c =
     (if \<not> bt_mem (pc_id c) cs \<and> bt_len cs \<ge> max_player_containers
      then Inl (item_fault (TooManyPlayerContainers max_player_containers))
      else Ok (bt_insert (pc_id c) c cs))"

text \<open>\<open>BTreeMap::remove\<close> with its return value: the removed entry and what is left.\<close>

definition bt_take :: "'k::linorder \<Rightarrow> ('k, 'v) btmap \<Rightarrow> ('v \<times> ('k, 'v) btmap) option" where
  "bt_take k m = map_option (\<lambda>v. (v, bt_remove k m)) (bt_get m k)"

type_synonym player_equipment = "(equipment_slot, item_instance) btmap"

definition equip :: "equipment_slot \<Rightarrow> item_instance \<Rightarrow> player_equipment \<Rightarrow> player_equipment" where
  [item_defs]: "equip slot it eq = bt_insert slot it eq"

definition unequip ::
  "equipment_slot \<Rightarrow> player_equipment \<Rightarrow> (item_instance \<times> player_equipment) option" where
  [item_defs]: "unequip slot eq = bt_take slot eq"

section \<open>Presentation catalog\<close>

record item_presentation =
  client_thing_id :: nat
  requires_classic_740_subtype :: bool

type_synonym presentation_catalog = "(nat, item_presentation) btmap"

definition catalog_insert ::
  "presentation_catalog \<Rightarrow> nat \<Rightarrow> item_presentation \<Rightarrow> presentation_catalog result" where
  "catalog_insert cat sid pr =
     (if sid = 0 then Inl (item_fault (InvalidItemId sid))
      else if client_thing_id pr = 0 then Inl (item_fault (InvalidClientThingId sid))
      else if bt_mem sid cat then Inl (item_fault (DuplicateItemPresentation sid))
      else Ok (bt_insert sid pr cat))"

definition unique_server_id_for_client_thing_id ::
  "presentation_catalog \<Rightarrow> nat \<Rightarrow> nat option" where
  "unique_server_id_for_client_thing_id cat ctid =
     (case map fst (filter (\<lambda>(sid, pr). client_thing_id pr = ctid) (entries cat)) of
        [] \<Rightarrow> None
      | sid # rest \<Rightarrow> if rest = [] then Some sid else None)"

section \<open>Well-formedness\<close>

definition head_wf :: "item_instance \<Rightarrow> bool" where
  "head_wf it \<longleftrightarrow>
     1 \<le> server_id it \<and> server_id it \<le> u16_max \<and>
     1 \<le> stack_count it \<and> stack_count it \<le> max_item_stack_count"

text \<open>Contents are at most one level deep: what is inside an item is a leaf.\<close>

definition is_leaf :: "item_instance \<Rightarrow> bool" where
  "is_leaf it \<longleftrightarrow> contents it = []"

definition item_wf :: "item_instance \<Rightarrow> bool" where
  "item_wf it \<longleftrightarrow> head_wf it \<and> length (contents it) \<le> max_content_slots \<and>
     (\<forall>x \<in> set (contents it). head_wf x \<and> is_leaf x)"

definition container_wf :: "item_container \<Rightarrow> bool" where
  "container_wf c \<longleftrightarrow>
     1 \<le> ic_capacity c \<and> ic_capacity c \<le> max_container_capacity \<and>
     length (ic_items c) \<le> ic_capacity c \<and> (\<forall>it \<in> set (ic_items c). item_wf it)"

definition window_wf :: "nat \<Rightarrow> player_container \<Rightarrow> bool" where
  "window_wf cid c \<longleftrightarrow>
     pc_id c = cid \<and> item_wf (pc_item c) \<and> pc_name c \<noteq> [] \<and>
     length (pc_name c) \<le> max_player_container_name_bytes \<and> container_wf (pc_items c)"

definition containers_wf :: "player_containers \<Rightarrow> bool" where
  "containers_wf cs \<longleftrightarrow>
     bt_len cs \<le> max_player_containers \<and> (\<forall>cid c. bt_get cs cid = Some c \<longrightarrow> window_wf cid c)"

definition equipment_wf :: "player_equipment \<Rightarrow> bool" where
  "equipment_wf eq \<longleftrightarrow> (\<forall>slot it. bt_get eq slot = Some it \<longrightarrow> item_wf it)"

section \<open>Units\<close>

type_synonym unit_label = "nat \<times> nat option \<times> nat option"

definition label :: "item_instance \<Rightarrow> unit_label" where
  "label it = (server_id it, action_id it, unique_id it)"

definition item_units :: "item_instance \<Rightarrow> unit_label multiset" where
  "item_units it = replicate_mset (stack_count it) (label it)"

definition items_units :: "item_instance list \<Rightarrow> unit_label multiset" where
  "items_units its = sum_list (map item_units its)"

definition window_units :: "player_container \<Rightarrow> unit_label multiset" where
  "window_units c = items_units (ic_items (pc_items c))"

definition containers_units :: "player_containers \<Rightarrow> unit_label multiset" where
  "containers_units cs = bt_sum window_units cs"

definition equipment_units :: "player_equipment \<Rightarrow> unit_label multiset" where
  "equipment_units eq = bt_sum item_units eq"

section \<open>Stacks: splitting and merging\<close>

lemmas item_wf_iff = item_wf_def head_wf_def

lemma item_wf_with_count:
  "item_wf it \<Longrightarrow> 1 \<le> n \<Longrightarrow> n \<le> max_item_stack_count \<Longrightarrow> item_wf (with_count n it)"
  by (simp add: item_wf_iff)

lemma item_new_wf: "item_new sid n = Ok it \<Longrightarrow> sid \<le> u16_max \<Longrightarrow> item_wf it"
  by (auto simp: item_new_def item_wf_def head_wf_def split: if_splits)

lemma label_with_count [simp]: "label (with_count n it) = label it"
  by (simp add: label_def)

lemma compatible_iff_label: "is_stack_compatible_with a b \<longleftrightarrow> label a = label b"
  by (simp add: is_stack_compatible_with_def label_def)

lemma split_off_Ok:
  "split_off it n = Ok (rest, split) \<longleftrightarrow>
     1 \<le> n \<and> n \<le> stack_count it \<and>
     rest = with_count (stack_count it - n) it \<and> split = with_count n it"
  by (auto simp: split_off_def Let_def)

lemma split_off_units: "split_off it n = Ok (rest, split) \<Longrightarrow>
    item_units rest + item_units split = item_units it"
  by (auto simp: split_off_Ok item_units_def simp flip: replicate_mset_add)

lemma split_off_wf:
  "split_off it n = Ok (rest, split) \<Longrightarrow> item_wf it \<Longrightarrow>
     item_wf split \<and> (0 < stack_count rest \<longrightarrow> item_wf rest)"
  by (auto simp: split_off_Ok item_wf_iff)

lemma merge_stack_Ok:
  "merge_stack it inc = Ok m \<longleftrightarrow>
     label it = label inc \<and> stack_count it + stack_count inc \<le> max_item_stack_count \<and>
     m = with_count (stack_count it + stack_count inc) it"
  by (auto simp: merge_stack_def compatible_iff_label checked_add_def split: if_splits)

lemma merge_stack_units: "merge_stack it inc = Ok m \<Longrightarrow> item_units m = item_units it + item_units inc"
  by (auto simp: merge_stack_Ok item_units_def replicate_mset_add)

lemma merge_stack_wf:
  "merge_stack it inc = Ok m \<Longrightarrow> item_wf it \<Longrightarrow> item_wf inc \<Longrightarrow> item_wf m"
  by (auto simp: merge_stack_Ok item_wf_iff)

lemma split_then_merge:
  "split_off it n = Ok (rest, split) \<Longrightarrow> stack_count it \<le> max_item_stack_count \<Longrightarrow>
     merge_stack rest split = Ok it"
  by (auto simp: split_off_Ok merge_stack_Ok label_def)

text \<open>A split copies the nested contents into both halves; a merge keeps only the target's.\<close>

lemma split_off_contents:
  "split_off it n = Ok (rest, split) \<Longrightarrow> contents rest = contents it \<and> contents split = contents it"
  by (auto simp: split_off_Ok)

lemma merge_stack_contents: "merge_stack it inc = Ok m \<Longrightarrow> contents m = contents it"
  by (auto simp: merge_stack_Ok)

section \<open>Nested contents\<close>

lemma foldr_max_le: "foldr max xs (0::nat) \<le> b \<longleftrightarrow> (\<forall>x \<in> set xs. x \<le> b)"
  by (induction xs) auto

lemma content_depth_iff: "content_depth it \<le> b \<longleftrightarrow>
    (\<forall>c \<in> set (contents it). sat_add u8_max (content_depth c) 1 \<le> b)"
  by (cases it) (simp add: foldr_max_le)

lemma content_depth_0: "content_depth it = 0 \<longleftrightarrow> is_leaf it"
  using content_depth_iff [of it 0] by (cases "contents it") (auto simp: sat_add_def is_leaf_def)

lemma content_depth_le_1: "content_depth it \<le> 1 \<longleftrightarrow> (\<forall>c \<in> set (contents it). is_leaf c)"
  unfolding content_depth_iff [of it 1]
  by (intro ball_cong refl) (auto simp: sat_add_def simp flip: content_depth_0)

lemma insert_content_Ok:
  "insert_content self it = Ok self' \<longleftrightarrow>
     server_id it \<noteq> 0 \<and> length (contents self) < max_content_slots \<and> is_leaf it \<and>
     self' = with_contents (contents self @ [it]) self"
  by (auto simp: insert_content_def simp flip: content_depth_0)

lemma insert_content_depth:
  "insert_content self it = Ok self' \<Longrightarrow> content_depth self \<le> 1 \<Longrightarrow> content_depth self' \<le> 1"
  unfolding content_depth_le_1 by (auto simp: insert_content_Ok)

lemma item_wf_with_contents:
  "item_wf it \<Longrightarrow> length xs \<le> max_content_slots \<Longrightarrow> (\<And>x. x \<in> set xs \<Longrightarrow> head_wf x \<and> is_leaf x) \<Longrightarrow>
     item_wf (with_contents xs it)"
  by (simp add: item_wf_def head_wf_def)

lemma item_wf_leaf: "head_wf it \<Longrightarrow> is_leaf it \<Longrightarrow> item_wf it"
  by (simp add: item_wf_def is_leaf_def)

lemma item_wf_inside: "item_wf it \<Longrightarrow> x \<in> set (contents it) \<Longrightarrow> head_wf x \<and> is_leaf x"
  by (simp add: item_wf_def)

lemma insert_content_wf:
  "insert_content self it = Ok self' \<Longrightarrow> item_wf self \<Longrightarrow> item_wf it \<Longrightarrow> item_wf self'"
  by (auto simp: insert_content_Ok intro!: item_wf_with_contents dest: item_wf_inside)
    (auto simp: item_wf_def)

lemma take_content_wf:
  assumes "take_content self i = Some (x, self')" and "item_wf self"
  shows "item_wf x \<and> item_wf self'"
proof -
  from assms(1) have i: "i < length (contents self)" and x: "x = contents self ! i"
    and self': "self' = with_contents (remove_at i (contents self)) self"
    by (auto simp: take_content_def split: if_splits)
  have "length (remove_at i (contents self)) \<le> max_content_slots"
    using assms(2) i by (auto simp: item_wf_def length_remove_at)
  moreover have "head_wf y \<and> is_leaf y" if "y \<in> set (remove_at i (contents self))" for y
    using that assms(2) set_remove_at [of i "contents self"] by (blast dest: item_wf_inside)
  ultimately have "item_wf self'"
    unfolding self' by (rule item_wf_with_contents [OF assms(2)])
  moreover have "item_wf x"
    using item_wf_inside [OF assms(2), of x] i x by (auto intro: item_wf_leaf)
  ultimately show ?thesis by simp
qed

lemma take_content_contents:
  "take_content self i = Some (x, self') \<Longrightarrow>
     mset (contents self) = add_mset x (mset (contents self')) \<and> self' = with_contents (contents self') self"
  by (auto simp: take_content_def mset_remove_at split: if_splits)

text \<open>Taking back what was just inserted restores the item.\<close>

lemma insert_take_content:
  "insert_content self it = Ok self' \<Longrightarrow> take_content self' (length (contents self)) = Some (it, self)"
  by (cases self)
    (auto simp: insert_content_def take_content_def with_contents_def remove_at_def split: if_splits)

section \<open>Containers keep their bounds and account for every unit\<close>

lemma items_units_simps [simp]:
  "items_units [] = {#}"
  "items_units (it # its) = item_units it + items_units its"
  "items_units (xs @ ys) = items_units xs + items_units ys"
  by (simp_all add: items_units_def)

lemma items_units_split: "i < length xs \<Longrightarrow>
    items_units xs = item_units (xs ! i) + items_units (remove_at i xs)"
  by (subst id_take_nth_drop [of i xs]) (simp_all add: remove_at_def)

lemma items_units_insert_at [simp]: "items_units (insert_at i x xs) = item_units x + items_units xs"
  by (subst (2) append_take_drop_id [of i xs, symmetric])
    (simp only: insert_at_def items_units_simps add_ac)

lemma items_units_update: "i < length xs \<Longrightarrow>
    items_units (xs[i := y]) = item_units y + items_units (remove_at i xs)"
  by (simp flip: insert_at_remove_at_update)

lemma container_new_wf: "container_new cap = Ok c \<Longrightarrow> container_wf c"
  by (auto simp: container_new_def container_wf_def split: if_splits)

lemma container_wf_nth: "container_wf c \<Longrightarrow> i < length (ic_items c) \<Longrightarrow> item_wf (ic_items c ! i)"
  by (simp add: container_wf_def)

lemma container_wf_items:
  assumes "container_wf c" and "length xs \<le> ic_capacity c" and "\<And>x. x \<in> set xs \<Longrightarrow> item_wf x"
  shows "container_wf (c\<lparr>ic_items := xs\<rparr>)"
  using assms by (simp add: container_wf_def)

lemma container_wf_update:
  "container_wf c \<Longrightarrow> item_wf it \<Longrightarrow> container_wf (c\<lparr>ic_items := (ic_items c)[i := it]\<rparr>)"
  by (rule container_wf_items) (auto simp: container_wf_def dest!: set_update_subset_insert [THEN subsetD])

lemma container_wf_remove_at:
  assumes "container_wf c" and "i < length (ic_items c)"
  shows "container_wf (c\<lparr>ic_items := remove_at i (ic_items c)\<rparr>)"
proof (rule container_wf_items [OF assms(1)])
  show "length (remove_at i (ic_items c)) \<le> ic_capacity c"
    using assms by (auto simp: container_wf_def length_remove_at)
next
  fix x assume "x \<in> set (remove_at i (ic_items c))"
  then show "item_wf x"
    using assms(1) set_remove_at [of i "ic_items c"] by (auto simp: container_wf_def)
qed

lemma container_wf_insert_at:
  "container_wf c \<Longrightarrow> item_wf it \<Longrightarrow> length (ic_items c) < ic_capacity c \<Longrightarrow>
     container_wf (c\<lparr>ic_items := insert_at i it (ic_items c)\<rparr>)"
  by (rule container_wf_items) (auto simp: container_wf_def)

lemmas container_wf_intros =
  container_wf_update container_wf_remove_at container_wf_insert_at container_wf_nth

lemma container_insert_Ok:
  "container_insert c it = Ok c' \<longleftrightarrow>
     length (ic_items c) < ic_capacity c \<and> c' = c\<lparr>ic_items := ic_items c @ [it]\<rparr>"
  by (auto simp: container_insert_def)

lemma container_insert_wf:
  "container_insert c it = Ok c' \<Longrightarrow> container_wf c \<Longrightarrow> item_wf it \<Longrightarrow> container_wf c'"
  by (auto simp: container_insert_Ok container_wf_def)

lemma container_insert_units:
  "container_insert c it = Ok c' \<Longrightarrow> items_units (ic_items c') = items_units (ic_items c) + item_units it"
  by (auto simp: container_insert_Ok)

text \<open>The three outcomes of \<open>merge_or_insert_stack\<close>.\<close>

lemma merge_or_insert_stack_Ok:
  assumes "merge_or_insert_stack c it = Ok ((i, n), c')"
  obtains (merged) ex where "i < length (ic_items c)" and "ex = ic_items c ! i"
      and "label ex = label it" and "stack_count ex + stack_count it \<le> max_item_stack_count"
      and "n = stack_count ex + stack_count it" and "c' = c\<lparr>ic_items := (ic_items c)[i := with_count n ex]\<rparr>"
    | (inserted) "\<forall>ex \<in> set (ic_items c). label ex \<noteq> label it"
      and "i = length (ic_items c)" and "n = stack_count it"
      and "length (ic_items c) < ic_capacity c" and "c' = c\<lparr>ic_items := ic_items c @ [it]\<rparr>"
proof (cases "find_index (\<lambda>ex. is_stack_compatible_with ex it \<and>
             sat_add u16_max (stack_count ex) (stack_count it) \<le> max_item_stack_count) (ic_items c)")
  case (Some k)
  from find_index_Some [OF Some] assms Some show ?thesis
    by (intro merged [of "ic_items c ! k"])
      (auto simp: merge_or_insert_stack_def merge_stack_Ok)
next
  case None
  with assms show ?thesis
    by (intro inserted)
      (auto simp: merge_or_insert_stack_def container_insert_Ok find_None_iff compatible_iff_label
         split: option.splits)
qed

lemma merge_or_insert_stack_wf:
  assumes "merge_or_insert_stack c it = Ok (r, c')" and "container_wf c" and "item_wf it"
  shows "container_wf c'"
proof -
  obtain i n where r: "r = (i, n)" by (cases r)
  from assms(1) [unfolded r] show ?thesis
  proof (cases rule: merge_or_insert_stack_Ok)
    case (merged ex)
    then have "item_wf (with_count n ex)"
      using container_wf_nth [OF assms(2), of i] by (auto simp: item_wf_iff)
    with merged assms(2) show ?thesis by (simp add: container_wf_update)
  next
    case inserted
    with assms show ?thesis by (auto intro!: container_wf_items simp: container_wf_def)
  qed
qed

lemma merge_or_insert_stack_units:
  assumes "merge_or_insert_stack c it = Ok (r, c')"
  shows "items_units (ic_items c') = items_units (ic_items c) + item_units it"
proof -
  obtain i n where r: "r = (i, n)" by (cases r)
  from assms [unfolded r] show ?thesis
  proof (cases rule: merge_or_insert_stack_Ok)
    case (merged ex)
    then have "item_units (with_count n ex) = item_units ex + item_units it"
      by (simp add: item_units_def replicate_mset_add)
    with merged show ?thesis
      by (simp add: items_units_update items_units_split [of i "ic_items c"])
  next
    case inserted
    then show ?thesis by simp
  qed
qed

lemma merge_or_insert_stack_target:
  assumes "merge_or_insert_stack c it = Ok ((i, n), c')"
  shows "i < length (ic_items c') \<and> stack_count (ic_items c' ! i) = n \<and> label (ic_items c' ! i) = label it"
  using assms by (cases rule: merge_or_insert_stack_Ok) auto

text \<open>A rejected stack means that no entry can take it: either a compatible one would
  overflow, or the container is full.\<close>

lemma merge_or_insert_stack_error:
  assumes "merge_or_insert_stack c it = Inl e"
  shows "(\<forall>ex \<in> set (ic_items c). label ex = label it \<longrightarrow>
            max_item_stack_count < sat_add u16_max (stack_count ex) (stack_count it)) \<and>
         ((\<exists>ex \<in> set (ic_items c). label ex = label it \<and>
             e = item_fault (ItemStackCountOverflow (stack_count ex) (stack_count it))) \<or>
          (length (ic_items c) \<ge> ic_capacity c \<and> e = item_fault (ContainerFull (ic_capacity c))))"
proof (cases "find_index (\<lambda>ex. is_stack_compatible_with ex it \<and>
             sat_add u16_max (stack_count ex) (stack_count it) \<le> max_item_stack_count) (ic_items c)")
  case (Some k)
  from find_index_Some [OF Some] assms Some show ?thesis
    by (auto simp: merge_or_insert_stack_def merge_stack_def compatible_iff_label sat_defs
        split: if_splits)
next
  case None
  note none = None
  show ?thesis
  proof (cases "find (\<lambda>ex. is_stack_compatible_with ex it) (ic_items c)")
    case None
    with none assms have "container_insert c it = Inl e"
      by (simp add: merge_or_insert_stack_def)
    with none show ?thesis
      by (auto simp: container_insert_def find_index_None compatible_iff_label split: if_splits)
  next
    case (Some ex)
    then have "ex \<in> set (ic_items c)" and "label ex = label it"
      by (auto simp: find_Some_iff compatible_iff_label)
    moreover from Some none assms
    have "e = item_fault (ItemStackCountOverflow (stack_count ex) (stack_count it))"
      by (simp add: merge_or_insert_stack_def)
    ultimately show ?thesis using none by (auto simp: find_index_None compatible_iff_label)
  qed
qed

lemma container_remove_Some:
  "container_remove c i = Some (it, c') \<longleftrightarrow>
     i < length (ic_items c) \<and> it = ic_items c ! i \<and> c' = c\<lparr>ic_items := remove_at i (ic_items c)\<rparr>"
  by (auto simp: container_remove_def)

lemma container_remove_wf:
  "container_remove c i = Some (it, c') \<Longrightarrow> container_wf c \<Longrightarrow> item_wf it \<and> container_wf c'"
  by (auto simp: container_remove_Some intro: container_wf_intros)

lemma container_remove_units:
  "container_remove c i = Some (it, c') \<Longrightarrow>
     items_units (ic_items c) = item_units it + items_units (ic_items c')"
  by (auto simp: container_remove_Some items_units_split)

lemma container_take_content_Some:
  "container_take_content c i j = Some (x, c') \<longleftrightarrow>
     i < length (ic_items c) \<and> (\<exists>it'. take_content (ic_items c ! i) j = Some (x, it') \<and>
       c' = c\<lparr>ic_items := (ic_items c)[i := it']\<rparr>)"
  by (auto simp: container_take_content_def split: option.splits)

lemma take_content_units: "take_content it j = Some (x, it') \<Longrightarrow> item_units it' = item_units it"
  by (auto simp: take_content_def item_units_def label_def split: if_splits)

lemma container_take_content_wf:
  assumes "container_take_content c i j = Some (x, c')" and "container_wf c"
  shows "item_wf x \<and> container_wf c'"
proof -
  from assms obtain it' where i: "i < length (ic_items c)"
    and t: "take_content (ic_items c ! i) j = Some (x, it')"
    and c': "c' = c\<lparr>ic_items := (ic_items c)[i := it']\<rparr>"
    by (auto simp: container_take_content_Some)
  from take_content_wf [OF t] i assms(2) have "item_wf x \<and> item_wf it'"
    by (simp add: container_wf_nth)
  with c' assms(2) show ?thesis by (simp add: container_wf_update)
qed

lemma container_take_content_units:
  "container_take_content c i j = Some (x, c') \<Longrightarrow> items_units (ic_items c') = items_units (ic_items c)"
  by (auto simp: container_take_content_Some items_units_update
      items_units_split [of i "ic_items c"] dest: take_content_units)

lemma item_wf_dec:
  "item_wf it \<Longrightarrow> k < stack_count it \<Longrightarrow> item_wf (with_count (stack_count it - k) it)"
  by (rule item_wf_with_count) (auto simp: item_wf_iff)

lemma consume_item_unit_wf: "container_wf c \<Longrightarrow> container_wf (snd (consume_item_unit c i))"
  by (auto simp: consume_item_unit_def intro!: container_wf_intros item_wf_dec split: option.splits)

lemma consume_item_unit_units:
  assumes "container_wf c" and "i < length (ic_items c)"
  shows "items_units (ic_items c) =
    add_mset (label (ic_items c ! i)) (items_units (ic_items (snd (consume_item_unit c i))))"
proof -
  let ?it = "ic_items c ! i"
  from assms have "1 \<le> stack_count ?it" by (auto simp: container_wf_def item_wf_iff)
  then show ?thesis
    using assms(2) replicate_mset_dec [of "stack_count ?it" "label ?it"]
    by (auto simp: consume_item_unit_def nth_opt_def items_units_update item_units_def
        items_units_split [of i "ic_items c"] le_Suc_eq)
qed

lemma take_item_units_wf: "container_wf c \<Longrightarrow> container_wf (snd (take_item_units c i u))"
  by (auto simp: take_item_units_def Let_def intro!: container_wf_intros item_wf_dec
      split: option.splits)

lemma take_item_units_count:
  assumes "take_item_units c i u = (k, c')" and "i < length (ic_items c)"
  shows "k = min (stack_count (ic_items c ! i)) u \<and>
    items_units (ic_items c) = replicate_mset k (label (ic_items c ! i)) + items_units (ic_items c')"
  using assms
  by (auto simp: take_item_units_def Let_def nth_opt_def items_units_update item_units_def min_def
      items_units_split [of i "ic_items c"] simp flip: replicate_mset_add split: if_splits)

section \<open>Windows and equipment\<close>

lemma bt_take_Some [simp]:
  "bt_take k m = Some (v, m') \<longleftrightarrow> bt_get m k = Some v \<and> m' = bt_remove k m"
  by (auto simp: bt_take_def)

lemma bt_take_None [simp]: "bt_take k m = None \<longleftrightarrow> bt_get m k = None"
  by (simp add: bt_take_def)

lemma player_container_new_wf:
  "player_container_new cid it name hp cap = Ok c \<Longrightarrow> item_wf it \<Longrightarrow> window_wf cid c"
  by (auto simp: player_container_new_def window_wf_def dest: container_new_wf split: if_splits)

lemma containers_insert_Ok:
  "containers_insert cs c = Ok cs' \<longleftrightarrow>
     (bt_mem (pc_id c) cs \<or> bt_len cs < max_player_containers) \<and> cs' = bt_insert (pc_id c) c cs"
  by (auto simp: containers_insert_def)

lemma containers_insert_wf:
  "containers_insert cs c = Ok cs' \<Longrightarrow> containers_wf cs \<Longrightarrow> window_wf (pc_id c) c \<Longrightarrow> containers_wf cs'"
  by (auto simp: containers_insert_Ok containers_wf_def bt_len_insert bt_get_insert split: if_splits)

text \<open>Putting a window back that was taken out of a well-formed collection never fails.\<close>

lemma containers_put_back:
  assumes "bt_get cs cid = Some c" and "containers_wf cs" and "pc_id c' = cid"
  shows "containers_insert (bt_remove cid cs) c' = Ok (bt_insert cid c' cs)"
proof -
  have "bt_mem cid cs" using assms(1) by (simp add: bt_mem_def)
  then have "bt_len (bt_remove cid cs) < max_player_containers"
    using assms(2) bt_len_remove_mem [of cid cs] by (simp add: containers_wf_def)
  with assms(3) show ?thesis by (auto simp: containers_insert_def)
qed

lemma containers_wf_update:
  "containers_wf cs \<Longrightarrow> bt_get cs cid = Some c \<Longrightarrow> window_wf cid c' \<Longrightarrow>
     containers_wf (bt_insert cid c' cs)"
  by (auto simp: containers_wf_def bt_len_insert bt_mem_def bt_get_insert)

lemma containers_wf_get: "containers_wf cs \<Longrightarrow> bt_get cs cid = Some c \<Longrightarrow> window_wf cid c"
  by (simp add: containers_wf_def)

lemma containers_units_update:
  "bt_get cs cid = Some c \<Longrightarrow>
     containers_units (bt_insert cid c' cs) + window_units c = containers_units cs + window_units c'"
  by (simp add: containers_units_def bt_sum_insert_removed [of _ _ c'] bt_sum_remove [of cs cid c] add_ac)

lemma equipment_units_equip:
  "equipment_units (bt_insert slot it eq) = item_units it + equipment_units (bt_remove slot eq)"
  by (simp add: equipment_units_def bt_sum_insert_removed)

lemma equipment_units_unequip:
  "bt_get eq slot = Some it \<Longrightarrow> equipment_units eq = item_units it + equipment_units (bt_remove slot eq)"
  by (simp add: equipment_units_def bt_sum_remove)

lemma equipment_wf_insert: "equipment_wf eq \<Longrightarrow> item_wf it \<Longrightarrow> equipment_wf (bt_insert slot it eq)"
  by (auto simp: equipment_wf_def bt_get_insert)

lemma equipment_wf_remove: "equipment_wf eq \<Longrightarrow> equipment_wf (bt_remove slot eq)"
  by (auto simp: equipment_wf_def bt_get_remove)

section \<open>The presentation catalog\<close>

lemma catalog_insert_Ok:
  "catalog_insert cat sid pr = Ok cat' \<longleftrightarrow>
     sid \<noteq> 0 \<and> client_thing_id pr \<noteq> 0 \<and> bt_get cat sid = None \<and> cat' = bt_insert sid pr cat"
  by (auto simp: catalog_insert_def bt_mem_def)

lemma map_fst_eq_singleton:
  assumes "distinct (map fst xs)"
  shows "map fst (filter P xs) = [k] \<longleftrightarrow> (\<forall>p \<in> set xs. P p \<longleftrightarrow> fst p = k) \<and> k \<in> fst ` set xs"
    (is "?l \<longleftrightarrow> ?r")
proof
  assume ?l
  then obtain p where f: "filter P xs = [p]" and k: "fst p = k" by auto
  have "p \<in> set xs" and Pp: "P p" using f by (auto dest: filter_eq_ConsD)
  moreover have "\<forall>q \<in> set xs. P q \<longrightarrow> q = p"
  proof -
    have "set (filter P xs) = {p}" using f by simp
    then show ?thesis by auto
  qed
  moreover have "q = p" if "q \<in> set xs" and "fst q = k" for q
    using that \<open>p \<in> set xs\<close> k assms eq_key_imp_eq_value [of xs k "snd q" "snd p"]
    by (metis prod.collapse)
  ultimately show ?r using k by (metis image_eqI)
next
  assume r: ?r
  then have "filter P xs = filter (\<lambda>p. fst p = k) xs" by (intro filter_cong) auto
  moreover have "map fst (filter (\<lambda>p. fst p = k) xs) = [k]"
    using assms r by (induction xs) (auto simp: filter_empty_conv rev_image_eqI)
  ultimately show ?l by simp
qed

lemma unique_server_id_iff:
  "unique_server_id_for_client_thing_id cat ctid = Some sid \<longleftrightarrow>
     (\<exists>pr. bt_get cat sid = Some pr \<and> client_thing_id pr = ctid) \<and>
     (\<forall>sid' pr. bt_get cat sid' = Some pr \<and> client_thing_id pr = ctid \<longrightarrow> sid' = sid)"
proof -
  have "unique_server_id_for_client_thing_id cat ctid = Some sid \<longleftrightarrow>
      map fst (filter (\<lambda>(sid, pr). client_thing_id pr = ctid) (entries cat)) = [sid]"
    by (auto simp: unique_server_id_for_client_thing_id_def split: list.splits)
  also have "\<dots> \<longleftrightarrow> (\<forall>p \<in> set (entries cat). (case p of (s, pr) \<Rightarrow> client_thing_id pr = ctid) \<longleftrightarrow> fst p = sid) \<and>
      sid \<in> fst ` set (entries cat)"
    by (rule map_fst_eq_singleton) simp
  also have "\<dots> \<longleftrightarrow> (\<forall>k v. bt_get cat k = Some v \<longrightarrow> (client_thing_id v = ctid) = (k = sid)) \<and>
      (\<exists>v. bt_get cat sid = Some v)"
    unfolding ball_entries fst_entries by simp
  also have "\<dots> \<longleftrightarrow> (\<exists>pr. bt_get cat sid = Some pr \<and> client_thing_id pr = ctid) \<and>
     (\<forall>sid' pr. bt_get cat sid' = Some pr \<and> client_thing_id pr = ctid \<longrightarrow> sid' = sid)"
    by (metis option.inject)
  finally show ?thesis .
qed

end
