(* ===== verification/Progression.thy ===== *)
theory Progression
  imports Core_Types "HOL-Library.Extended_Nat" "HOL-Library.Signed_Division"
begin

text \<open>
  Levels, skills, magic and experience: the value types and pure functions of
  \<open>crates/forgotten-core/src/lib.rs\<close> from \<open>Player\<close> to \<open>PlayerMagicAdvanceOutcome\<close> and the
  free functions behind \<open>WorldState\<close>, \<open>classic_experience_for_level\<close> to
  \<open>magic_progress_from_total\<close>.

  A \<open>[T; 7]\<close> indexed by a skill code is a function from \<open>player_skill\<close>. The one use of
  floating point (\<open>scale_progression_requirement\<close>, whose \<open>powi\<close> has no specified precision)
  is a parameter \<open>fscale base milli exponent\<close>: the floor of the \<open>f64\<close> product, infinite on
  overflow. Nothing is assumed of it.
\<close>

instantiation player_skill :: enum
begin

definition "enum_class.enum = [Fist, Club, Sword, Axe, Distance, Shielding, Fishing]"

definition "enum_class.enum_all P \<longleftrightarrow>
  P Fist \<and> P Club \<and> P Sword \<and> P Axe \<and> P Distance \<and> P Shielding \<and> P Fishing"

definition "enum_class.enum_ex P \<longleftrightarrow>
  P Fist \<or> P Club \<or> P Sword \<or> P Axe \<or> P Distance \<or> P Shielding \<or> P Fishing"

instance
proof
  show "(UNIV :: player_skill set) = set enum_class.enum"
    by (auto simp: enum_player_skill_def intro: player_skill.exhaust)
  show "distinct (enum_class.enum :: player_skill list)"
    by (simp add: enum_player_skill_def)
  show "enum_class.enum_all P \<longleftrightarrow> Ball UNIV P" for P :: "player_skill \<Rightarrow> bool"
    by (auto simp: enum_all_player_skill_def) (metis player_skill.exhaust)
  show "enum_class.enum_ex P \<longleftrightarrow> Bex UNIV P" for P :: "player_skill \<Rightarrow> bool"
    by (auto simp: enum_ex_player_skill_def) (metis player_skill.exhaust)
qed

end

section \<open>Vitals\<close>

record player_vitals =
  health :: nat
  max_health :: nat
  mana :: nat
  max_mana :: nat
  carry_capacity :: nat
  magic_level :: nat

definition vitals_is_valid :: "player_vitals \<Rightarrow> bool" where
  "vitals_is_valid v \<longleftrightarrow> max_health v > 0 \<and> health v \<le> max_health v \<and> mana v \<le> max_mana v"

definition default_vitals :: player_vitals where
  "default_vitals =
     \<lparr>health = 150, max_health = 150, mana = 50, max_mana = 50, carry_capacity = 40000,
      magic_level = 0\<rparr>"

section \<open>Skills and vocations\<close>

record skill_progress =
  sp_level :: nat
  sp_percent :: nat

definition skill_progress_new :: "nat \<Rightarrow> nat \<Rightarrow> skill_progress result" where
  "skill_progress_new lv pc =
     (if lv = 0 \<or> pc > 100 then Inl (rule_fault (InvalidSkillProgress lv pc))
      else Ok \<lparr>sp_level = lv, sp_percent = pc\<rparr>)"

definition default_skill_progress :: skill_progress where
  "default_skill_progress = \<lparr>sp_level = 10, sp_percent = 0\<rparr>"

type_synonym player_skills = "player_skill \<Rightarrow> skill_progress"

text \<open>\<open>set\<close> also reports whether it changed anything.\<close>

definition skills_set ::
  "player_skill \<Rightarrow> skill_progress \<Rightarrow> player_skills \<Rightarrow> bool \<times> player_skills" where
  "skills_set s p sk = (if sk s = p then (False, sk) else (True, sk(s := p)))"

datatype base_vocation = NoVocation | Sorcerer | Druid | Paladin | Knight

fun vocation_id :: "base_vocation \<Rightarrow> nat" where
  "vocation_id NoVocation = 0"
| "vocation_id Sorcerer = 1"
| "vocation_id Druid = 2"
| "vocation_id Paladin = 3"
| "vocation_id Knight = 4"

definition vocation_from_id :: "nat \<Rightarrow> base_vocation option" where
  "vocation_from_id i =
     (if i = 0 then Some NoVocation else if i = 1 then Some Sorcerer else if i = 2 then Some Druid
      else if i = 3 then Some Paladin else if i = 4 then Some Knight else None)"

record player_progression =
  vocation :: nat
  skills :: player_skills

definition default_progression :: player_progression where
  "default_progression = \<lparr>vocation = 0, skills = (\<lambda>_. default_skill_progress)\<rparr>"

record progression_attempts =
  skill_tries :: "player_skill \<Rightarrow> nat"
  magic_mana :: nat

definition default_attempts :: progression_attempts where
  "default_attempts = \<lparr>skill_tries = (\<lambda>_. 0), magic_mana = 0\<rparr>"

section \<open>Experience and levels\<close>

text \<open>\<open>i128\<close> arithmetic with overflow checks.\<close>

definition i128 :: "int \<Rightarrow> int option" where
  "i128 x = (if - (2 ^ 127) \<le> x \<and> x < 2 ^ 127 then Some x else None)"

definition checked_div_i128 :: "int \<Rightarrow> int \<Rightarrow> int option" where
  "checked_div_i128 a b = (if b = 0 then None else i128 (a sdiv b))"

definition classic_experience_for_level :: "nat \<Rightarrow> nat option" where
  "classic_experience_for_level lv =
     (if lv = 0 then None
      else (let l = int lv in
        Option.bind (i128 (l * l)) (\<lambda>sq.
        Option.bind (i128 (sq * l)) (\<lambda>cube.
        Option.bind (i128 (6 * l)) (\<lambda>six.
        Option.bind (i128 (six * l)) (\<lambda>six_sq.
        Option.bind (i128 (cube - six_sq)) (\<lambda>a.
        Option.bind (i128 (17 * l)) (\<lambda>sev.
        Option.bind (i128 (a + sev)) (\<lambda>b.
        Option.bind (i128 (b - 12)) (\<lambda>numerator.
        Option.bind (checked_div_i128 numerator 6) (\<lambda>q.
        Option.bind (i128 (q * 100)) (\<lambda>e.
          if 0 \<le> e \<and> e \<le> int u64_max then Some (nat e) else None))))))))))))"

definition div_ceil :: "nat \<Rightarrow> nat \<Rightarrow> nat" where
  "div_ceil a b = (if a mod b = 0 then a div b else a div b + 1)"

lemma div_ceil_2_bounds: "low < high \<Longrightarrow> low < low + div_ceil (high - low) 2 \<and> low + div_ceil (high - low) 2 \<le> high"
  unfolding div_ceil_def by (simp; presburger)

text \<open>The bisection of \<open>level_for_experience\<close>, from any bracket.\<close>

function level_search :: "nat \<Rightarrow> nat \<Rightarrow> nat \<Rightarrow> nat" where
  "level_search experience low high =
     (if low < high then
        (let midpoint = low + div_ceil (high - low) 2
         in case classic_experience_for_level midpoint of
              Some required \<Rightarrow>
                if required \<le> experience then level_search experience midpoint high
                else level_search experience low (midpoint - 1)
            | None \<Rightarrow> level_search experience low (midpoint - 1))
      else low)"
  by pat_completeness auto
termination
proof (relation "measure (\<lambda>(e, low, high). high - low)", goal_cases)
  case 1
  then show ?case by simp
qed (use div_ceil_2_bounds in \<open>fastforce+\<close>)

declare level_search.simps [simp del]

definition level_for_experience :: "nat \<Rightarrow> nat" where
  "level_for_experience experience = level_search experience 1 u32_max"

record player =
  pl_id :: nat
  pl_account_id :: nat
  pl_name :: string
  pl_position :: position
  pl_level :: nat
  pl_experience :: nat
  pl_skill_points :: nat

definition add_experience :: "nat \<Rightarrow> player \<Rightarrow> player" where
  "add_experience amount p =
     (let e = sat_add u64_max (pl_experience p) amount
      in p\<lparr>pl_experience := e, pl_level := level_for_experience e\<rparr>)"

section \<open>Experience awards\<close>

abbreviation max_progression_multiplier_milli :: nat where
  "max_progression_multiplier_milli \<equiv> 100000"
abbreviation max_experience_award_rate :: nat where "max_experience_award_rate \<equiv> 100000"
abbreviation progression_multiplier_scale :: nat where "progression_multiplier_scale \<equiv> 1000"

record award_stage =
  min_level :: nat
  max_level :: nat
  multiplier_milli :: nat

definition award_stage_new :: "nat \<Rightarrow> nat \<Rightarrow> nat \<Rightarrow> award_stage result" where
  "award_stage_new lo hi m =
     (if lo = 0 \<or> hi < lo \<or> m = 0 \<or> m > max_progression_multiplier_milli
      then Inl (rule_fault InvalidExperienceAwardPolicy)
      else Ok \<lparr>min_level = lo, max_level = hi, multiplier_milli = m\<rparr>)"

record award_policy =
  flat_rate :: nat
  stages :: "award_stage list"

definition award_policy_new :: "nat \<Rightarrow> award_stage list \<Rightarrow> award_policy result" where
  "award_policy_new rate sts =
     (if rate > max_experience_award_rate \<or>
         list_ex (\<lambda>(a, b). max_level a \<ge> min_level b) (zip sts (tl sts))
      then Inl (rule_fault InvalidExperienceAwardPolicy)
      else Ok \<lparr>flat_rate = rate, stages = sts\<rparr>)"

definition award_for :: "award_policy \<Rightarrow> nat \<Rightarrow> nat \<Rightarrow> nat" where
  "award_for pol lv raw =
     (let m = (case find (\<lambda>st. min_level st \<le> lv \<and> lv \<le> max_level st) (stages pol) of
                 None \<Rightarrow> progression_multiplier_scale
               | Some st \<Rightarrow> multiplier_milli st)
      in sat_mul u64_max (sat_mul u64_max raw (flat_rate pol)) m div progression_multiplier_scale)"

record level_up_gains =
  gain_health :: nat
  gain_mana :: nat
  gain_capacity :: nat

definition scaled_amount :: "nat \<Rightarrow> nat \<Rightarrow> nat" where
  "scaled_amount amount levels =
     (let n = sat_mul u32_max amount levels in if n \<le> u16_max then n else u16_max)"

definition apply_gains :: "level_up_gains \<Rightarrow> player_vitals \<Rightarrow> nat \<Rightarrow> player_vitals" where
  "apply_gains g v levels =
     (let h = scaled_amount (gain_health g) levels;
          m = scaled_amount (gain_mana g) levels;
          c = scaled_amount (gain_capacity g) levels
      in v\<lparr>health := sat_add u16_max (health v) h,
           max_health := sat_add u16_max (max_health v) h,
           mana := sat_add u16_max (mana v) m,
           max_mana := sat_add u16_max (max_mana v) m,
           carry_capacity := sat_add u16_max (carry_capacity v) c\<rparr>)"

section \<open>Skill tries and magic mana\<close>

abbreviation minimum_player_skill_level :: nat where "minimum_player_skill_level \<equiv> 10"
abbreviation magic_level_base_mana :: nat where "magic_level_base_mana \<equiv> 1600"

fun skill_base_tries :: "player_skill \<Rightarrow> nat" where
  "skill_base_tries Fist = 50"
| "skill_base_tries Club = 50"
| "skill_base_tries Sword = 50"
| "skill_base_tries Axe = 50"
| "skill_base_tries Distance = 30"
| "skill_base_tries Shielding = 100"
| "skill_base_tries Fishing = 20"

type_synonym float_scale = "nat \<Rightarrow> nat \<Rightarrow> nat \<Rightarrow> enat"

definition multiplier_new :: "nat \<Rightarrow> nat result" where
  "multiplier_new milli =
     (if milli = 0 \<or> milli > max_progression_multiplier_milli
      then Inl (rule_fault (InvalidProgressionMultiplier milli)) else Ok milli)"

text \<open>\<open>clamp(1.0, u64::MAX as f64) as u64\<close>: the upper bound is 2^64 in \<open>f64\<close>, and the cast
  saturates.\<close>

definition scale_progression_requirement :: "float_scale \<Rightarrow> nat \<Rightarrow> nat \<Rightarrow> nat \<Rightarrow> nat" where
  "scale_progression_requirement fscale base milli ex =
     (case fscale base milli ex of
        \<infinity> \<Rightarrow> u64_max
      | enat n \<Rightarrow> min (max 1 n) u64_max)"

record progression_rules =
  magic_level_multiplier :: nat
  skill_multipliers :: "player_skill \<Rightarrow> nat"

definition required_skill_tries ::
  "float_scale \<Rightarrow> progression_rules \<Rightarrow> player_skill \<Rightarrow> nat \<Rightarrow> nat" where
  "required_skill_tries fs rules s target =
     scale_progression_requirement fs (skill_base_tries s) (skill_multipliers rules s)
       (target - (minimum_player_skill_level + 1))"

definition required_magic_mana :: "float_scale \<Rightarrow> progression_rules \<Rightarrow> nat \<Rightarrow> nat" where
  "required_magic_mana fs rules target =
     (if target = 0 then 0
      else scale_progression_requirement fs magic_level_base_mana (magic_level_multiplier rules)
             (target - 1))"

definition progress_percent :: "nat \<Rightarrow> nat \<Rightarrow> nat" where
  "progress_percent stored required =
     (if required = 0 then 0 else min (sat_mul u64_max stored 100 div required) 100)"

definition fixed_percent_of :: "nat \<Rightarrow> nat \<Rightarrow> nat" where
  "fixed_percent_of v pc =
     sat_add u64_max (sat_mul u64_max (v div 100) pc) (sat_mul u64_max (v mod 100) pc div 100)"

text \<open>
  The \<open>while\<close> loop that \<open>advance_skill_tries\<close> (levels up to \<open>u16::MAX\<close>) and
  \<open>advance_magic_mana\<close> (up to \<open>u8::MAX\<close>) have in common; \<open>cap\<close> is that maximum and \<open>req\<close>
  the requirement of a target level. The result is the level, the stored counter and the
  levels gained.
\<close>

function advance_loop ::
  "nat \<Rightarrow> (nat \<Rightarrow> nat) \<Rightarrow> nat \<Rightarrow> nat \<Rightarrow> nat \<Rightarrow> nat \<Rightarrow> nat \<times> nat \<times> nat" where
  "advance_loop cap req level stored awarded gained =
     (if awarded > 0 \<and> level < cap then
        (let required = req (sat_add cap level 1);
             needed = required - stored
         in if awarded < needed then (level, sat_add u64_max stored awarded, gained)
            else advance_loop cap req (sat_add cap level 1) 0 (awarded - needed)
                   (sat_add cap gained 1))
      else (level, stored, gained))"
  by pat_completeness auto
termination
  by (relation "measure (\<lambda>(cap, req, level, stored, awarded, gained). cap - level)")
    (auto simp: sat_add_def)

declare advance_loop.simps [simp del]

definition advance_skill_tries ::
  "float_scale \<Rightarrow> skill_progress \<Rightarrow> nat \<Rightarrow> nat \<Rightarrow> progression_rules \<Rightarrow> player_skill \<Rightarrow>
     skill_progress \<times> nat \<times> nat" where
  "advance_skill_tries fs progress stored awarded rules s =
     (let (level, stored', gained) =
            advance_loop u16_max (required_skill_tries fs rules s) (sp_level progress) stored awarded 0;
          stored'' = (if level = u16_max then 0 else stored');
          required = required_skill_tries fs rules s (sat_add u16_max level 1)
      in (\<lparr>sp_level = level, sp_percent = progress_percent stored'' required\<rparr>, stored'', gained))"

definition advance_magic_mana ::
  "float_scale \<Rightarrow> nat \<Rightarrow> nat \<Rightarrow> nat \<Rightarrow> progression_rules \<Rightarrow> nat \<times> nat \<times> nat" where
  "advance_magic_mana fs lv stored awarded rules =
     (let (level, stored', gained) =
            advance_loop u8_max (required_magic_mana fs rules) lv stored awarded 0
      in (level, if level = u8_max then 0 else stored', gained))"

text \<open>\<open>for target in base + 1 ..= level { total = total.saturating_add(req(target)) }\<close>.\<close>

definition cumulative :: "(nat \<Rightarrow> nat) \<Rightarrow> nat \<Rightarrow> nat \<Rightarrow> nat \<Rightarrow> nat" where
  "cumulative req base level stored =
     foldl (\<lambda>total t. sat_add u64_max total (req t)) stored [Suc base ..< Suc level]"

definition cumulative_skill_tries ::
  "float_scale \<Rightarrow> skill_progress \<Rightarrow> nat \<Rightarrow> progression_rules \<Rightarrow> player_skill \<Rightarrow> nat" where
  "cumulative_skill_tries fs progress stored rules s =
     cumulative (required_skill_tries fs rules s) minimum_player_skill_level (sp_level progress) stored"

definition cumulative_magic_mana :: "float_scale \<Rightarrow> nat \<Rightarrow> nat \<Rightarrow> progression_rules \<Rightarrow> nat" where
  "cumulative_magic_mana fs lv stored rules = cumulative (required_magic_mana fs rules) 0 lv stored"

text \<open>The loop of the two \<open>*_from_total\<close> functions.\<close>

function from_total :: "nat \<Rightarrow> (nat \<Rightarrow> nat) \<Rightarrow> nat \<Rightarrow> nat \<Rightarrow> nat \<times> nat" where
  "from_total cap req level tot =
     (if level < cap then
        (let required = req (sat_add cap level 1)
         in if tot < required then (level, tot)
            else from_total cap req (sat_add cap level 1) (tot - required))
      else (level, 0))"
  by pat_completeness auto
termination
  by (relation "measure (\<lambda>(cap, req, level, tot). cap - level)") (auto simp: sat_add_def)

declare from_total.simps [simp del]

definition skill_progress_from_total ::
  "float_scale \<Rightarrow> nat \<Rightarrow> progression_rules \<Rightarrow> player_skill \<Rightarrow> skill_progress \<times> nat" where
  "skill_progress_from_total fs tot rules s =
     (let (level, rest) = from_total u16_max (required_skill_tries fs rules s)
                            minimum_player_skill_level tot
      in (\<lparr>sp_level = level,
           sp_percent = (if level < u16_max
             then progress_percent rest (required_skill_tries fs rules s (sat_add u16_max level 1))
             else 0)\<rparr>, rest))"

definition magic_progress_from_total ::
  "float_scale \<Rightarrow> nat \<Rightarrow> progression_rules \<Rightarrow> nat \<times> nat" where
  "magic_progress_from_total fs tot rules = from_total u8_max (required_magic_mana fs rules) 0 tot"

section \<open>Requirements and percentages\<close>

lemma scale_progression_requirement_bounds:
  "1 \<le> scale_progression_requirement fs base milli ex \<and>
   scale_progression_requirement fs base milli ex \<le> u64_max"
  by (simp add: scale_progression_requirement_def split: enat.splits)

lemma required_skill_tries_pos: "1 \<le> required_skill_tries fs rules s t"
  unfolding required_skill_tries_def using scale_progression_requirement_bounds by blast

lemma required_magic_mana_pos: "0 < t \<Longrightarrow> 1 \<le> required_magic_mana fs rules t"
  unfolding required_magic_mana_def using scale_progression_requirement_bounds by simp

lemma progress_percent_le: "progress_percent stored required \<le> 100"
  by (simp add: progress_percent_def)

lemma progress_percent_below:
  assumes "stored < required" and "required \<le> u64_max div 100"
  shows "progress_percent stored required < 100"
proof -
  have "stored * 100 < required * 100" using assms(1) by simp
  then have "stored * 100 div required < 100"
    by (metis assms(1) div_less_iff_less_mult gr_zeroI mult.commute not_less_zero)
  moreover have "stored * 100 \<le> u64_max" using assms by simp
  ultimately show ?thesis
    using assms(1) by (simp add: progress_percent_def sat_mul_def min_def)
qed

text \<open>The split computation of a percentage is the exact one and never saturates.\<close>

lemma fixed_percent_of_exact:
  assumes "v \<le> u64_max" and "pc \<le> 100"
  shows "fixed_percent_of v pc = v * pc div 100"
proof -
  have split: "v * pc = (v div 100 * pc) * 100 + v mod 100 * pc"
    by (metis add_mult_distrib div_mult_mod_eq mult.assoc mult.commute)
  have "v div 100 * pc \<le> v div 100 * 100" using assms(2) by simp
  also have "\<dots> \<le> v" by simp
  finally have w: "v div 100 * pc \<le> v" .
  have r: "v mod 100 * pc \<le> 99 * 100"
    by (rule mult_le_mono) (use assms(2) in simp_all)
  have eq: "v * pc div 100 = v div 100 * pc + v mod 100 * pc div 100"
    by (subst split) simp
  have "v * pc div 100 \<le> v" using assms(2) div_le_mono [of "v * pc" "v * 100" 100] by simp
  with eq w r assms show ?thesis
    by (simp add: fixed_percent_of_def sat_defs min_def)
qed

lemma fixed_percent_of_le: "v \<le> u64_max \<Longrightarrow> pc \<le> 100 \<Longrightarrow> fixed_percent_of v pc \<le> v"
  using div_le_mono [of "v * pc" "v * 100" 100] by (simp add: fixed_percent_of_exact)

section \<open>The classic experience curve\<close>

text \<open>The polynomial without overflow checks, on \<open>nat\<close>.\<close>

definition classic_curve :: "nat \<Rightarrow> nat" where
  "classic_curve n = (\<Sum>k = 1..<n. 50 * (k * k + 4 - 3 * k))"

lemma curve_step_pos: "0 < k * k + 4 - 3 * (k::nat)"
proof (cases "3 \<le> k")
  case True
  from mult_le_mono1 [OF this, of k] show ?thesis by linarith
next
  case False
  then have "k = 0 \<or> k = 1 \<or> k = 2" by linarith
  then show ?thesis by auto
qed

lemma curve_step_int: "int (k * k + 4 - 3 * k) = int k * int k - 3 * int k + 4"
  using curve_step_pos [of k] by (simp add: of_nat_diff)

lemma classic_curve_Suc: "1 \<le> n \<Longrightarrow> classic_curve (Suc n) = classic_curve n + 50 * (n * n + 4 - 3 * n)"
  by (simp add: classic_curve_def)

lemma classic_curve_int:
  "1 \<le> n \<Longrightarrow> 3 * int (classic_curve n) = 50 * (int n ^ 3 - 6 * int n ^ 2 + 17 * int n - 12)"
proof (induction n rule: nat_induct_at_least)
  case base
  then show ?case by (simp add: classic_curve_def)
next
  case (Suc n)
  then have "3 * int (classic_curve (Suc n)) =
      50 * (int n ^ 3 - 6 * int n ^ 2 + 17 * int n - 12) + 150 * (int n * int n - 3 * int n + 4)"
    by (simp add: classic_curve_Suc curve_step_int)
  also have "\<dots> = 50 * (int (Suc n) ^ 3 - 6 * int (Suc n) ^ 2 + 17 * int (Suc n) - 12)"
    by (simp add: algebra_simps power2_eq_square power3_eq_cube)
  finally show ?case .
qed

lemma classic_curve_less: "1 \<le> m \<Longrightarrow> m < n \<Longrightarrow> classic_curve m < classic_curve n"
proof (induction n)
  case (Suc n)
  then show ?case
    using curve_step_pos [of n] by (cases "m = n") (auto simp: classic_curve_Suc less_Suc_eq)
qed simp

lemma classic_curve_mono: "1 \<le> m \<Longrightarrow> m \<le> n \<Longrightarrow> classic_curve m \<le> classic_curve n"
  using classic_curve_less [of m n] by (cases "m = n") auto

text \<open>For every \<open>u32\<close> level the checked \<open>i128\<close> computation goes through, and the division
  by six is exact.\<close>

lemma i128_bounded:
  "- 100000000000000000000000000000000 \<le> x \<Longrightarrow> x \<le> 100000000000000000000000000000000 \<Longrightarrow> i128 x = Some x"
  by (simp add: i128_def)

lemma classic_experience_for_level_eq:
  assumes "1 \<le> lv" and "lv \<le> u32_max"
  shows "classic_experience_for_level lv =
    (if classic_curve lv \<le> u64_max then Some (classic_curve lv) else None)"
proof -
  define l where "l = int lv"
  have l: "1 \<le> l" "l \<le> 4294967296" using assms by (auto simp: l_def)
  have sq: "0 \<le> l * l" "l * l \<le> 18446744073709551616"
    using l mult_mono [of l 4294967296 l 4294967296] by auto
  have cube: "0 \<le> l * l * l" "l * l * l \<le> 79228162514264337593543950336"
    using l sq mult_mono [of "l * l" 18446744073709551616 l 4294967296] by auto
  have six: "6 * l * l = 6 * (l * l)" by simp
  define num where "num = l * l * l - 6 * l * l + 17 * l - 12"
  have curve: "3 * int (classic_curve lv) = 50 * num"
    using classic_curve_int [OF assms(1)] by (simp add: num_def l_def power2_eq_square power3_eq_cube)
  moreover have "even num" by (simp add: num_def)
  ultimately have "6 dvd num" by presburger
  then obtain q where q: "num = 6 * q" by (rule dvdE)
  have q100: "q * 100 = int (classic_curve lv)" using curve q by simp
  then have q0: "0 \<le> q" by simp
  have "num sdiv 6 = q"
    using q q0 by (cases "q = 0") (simp_all add: signed_divide_int_def sgn_if)
  moreover have "i128 (l * l) = Some (l * l)" "i128 (l * l * l) = Some (l * l * l)"
    "i128 (6 * l) = Some (6 * l)" "i128 (6 * l * l) = Some (6 * l * l)"
    "i128 (l * l * l - 6 * l * l) = Some (l * l * l - 6 * l * l)"
    "i128 (17 * l) = Some (17 * l)"
    "i128 (l * l * l - 6 * l * l + 17 * l) = Some (l * l * l - 6 * l * l + 17 * l)"
    "i128 num = Some num"
    unfolding num_def six by (rule i128_bounded; use l sq cube in linarith)+
  moreover have "i128 q = Some q" "i128 (q * 100) = Some (q * 100)"
    by (rule i128_bounded; use q q0 l sq cube six num_def in linarith)+
  ultimately show ?thesis
    using assms(1) q100
    by (auto simp: classic_experience_for_level_def checked_div_i128_def Let_def simp flip: l_def num_def)
qed

lemma classic_experience_level_1 [simp]: "classic_curve 1 = 0" "classic_curve (Suc 0) = 0"
  by (simp_all add: classic_curve_def)

section \<open>Bisection finds the highest affordable level\<close>

definition affordable :: "nat \<Rightarrow> nat \<Rightarrow> bool" where
  "affordable experience lv \<longleftrightarrow>
     (\<exists>required. classic_experience_for_level lv = Some required \<and> required \<le> experience)"

lemma affordable_iff:
  "1 \<le> lv \<Longrightarrow> lv \<le> u32_max \<Longrightarrow> experience \<le> u64_max \<Longrightarrow>
     affordable experience lv \<longleftrightarrow> classic_curve lv \<le> experience"
  by (auto simp: affordable_def classic_experience_for_level_eq)

lemma level_search_unfold:
  "level_search e low high =
     (if low < high then
        (if affordable e (low + div_ceil (high - low) 2)
         then level_search e (low + div_ceil (high - low) 2) high
         else level_search e low (low + div_ceil (high - low) 2 - 1))
      else low)"
  by (subst level_search.simps) (auto simp: affordable_def Let_def split: option.splits)

lemma level_search_correct:
  assumes "e \<le> u64_max" and "1 \<le> low" and "low \<le> high" and "high \<le> u32_max"
    and "classic_curve low \<le> e"
  shows "low \<le> level_search e low high \<and> level_search e low high \<le> high \<and>
    classic_curve (level_search e low high) \<le> e \<and>
    (\<forall>lv. level_search e low high < lv \<and> lv \<le> high \<longrightarrow> e < classic_curve lv)"
  using assms
proof (induction "high - low" arbitrary: low high rule: less_induct)
  case less
  show ?case
  proof (cases "low < high")
    case False
    then have "low = high" using less.prems by simp
    then have "level_search e low high = low" by (subst level_search_unfold) simp
    with \<open>low = high\<close> less.prems show ?thesis by simp
  next
    case True
    define mid where "mid = low + div_ceil (high - low) 2"
    have mid: "low < mid" "mid \<le> high" using div_ceil_2_bounds [OF True] by (auto simp: mid_def)
    have aff: "affordable e mid \<longleftrightarrow> classic_curve mid \<le> e"
      using mid less.prems by (intro affordable_iff) auto
    show ?thesis
    proof (cases "affordable e mid")
      case True
      have "level_search e low high = level_search e mid high"
        using True \<open>low < high\<close> by (simp add: level_search_unfold [of e low high] flip: mid_def)
      moreover have "high - mid < high - low" using mid \<open>low < high\<close> by simp
      ultimately show ?thesis
        using less.hyps [of high mid] True aff mid less.prems by fastforce
    next
      case False
      have eq: "level_search e low high = level_search e low (mid - 1)"
        using False \<open>low < high\<close> by (simp add: level_search_unfold [of e low high] flip: mid_def)
      have above: "e < classic_curve lv" if "mid \<le> lv" for lv
        using classic_curve_mono [of mid lv] that False aff mid less.prems by auto
      from less.hyps [of "mid - 1" low] mid less.prems
      have "low \<le> level_search e low (mid - 1) \<and> level_search e low (mid - 1) \<le> mid - 1 \<and>
        classic_curve (level_search e low (mid - 1)) \<le> e \<and>
        (\<forall>lv. level_search e low (mid - 1) < lv \<and> lv \<le> mid - 1 \<longrightarrow> e < classic_curve lv)"
        by auto
      then show ?thesis unfolding eq using above mid
        by (metis Suc_pred' add_leE le_trans less_eq_Suc_le not_less_eq_eq plus_1_eq_Suc diff_le_self
            linorder_not_le less_le_trans zero_less_Suc gr_zeroI)
    qed
  qed
qed

lemma level_for_experience_bounds:
  assumes "e \<le> u64_max"
  shows "1 \<le> level_for_experience e \<and> level_for_experience e \<le> u32_max \<and>
    classic_curve (level_for_experience e) \<le> e \<and>
    (\<forall>lv. level_for_experience e < lv \<and> lv \<le> u32_max \<longrightarrow> e < classic_curve lv)"
  unfolding level_for_experience_def using assms by (intro level_search_correct) auto

lemma level_for_experience_mono:
  assumes "a \<le> b" and "b \<le> u64_max"
  shows "level_for_experience a \<le> level_for_experience b"
proof (rule ccontr)
  assume "\<not> level_for_experience a \<le> level_for_experience b"
  with level_for_experience_bounds [of a] level_for_experience_bounds [of b] assms
  have "b < classic_curve (level_for_experience a)" and "classic_curve (level_for_experience a) \<le> a"
    by auto
  with assms(1) show False by simp
qed

lemma level_for_experience_curve:
  assumes "1 \<le> lv" and "lv \<le> u32_max" and "classic_curve lv \<le> u64_max"
  shows "level_for_experience (classic_curve lv) = lv"
proof (rule antisym)
  note b = level_for_experience_bounds [OF assms(3)]
  show "lv \<le> level_for_experience (classic_curve lv)"
    using b assms by (meson leI less_irrefl)
  show "level_for_experience (classic_curve lv) \<le> lv"
    using b assms(1) classic_curve_less [of lv "level_for_experience (classic_curve lv)"]
    by (meson leD leI)
qed

lemma add_experience_level:
  "pl_level (add_experience n p) = level_for_experience (pl_experience (add_experience n p))"
  by (simp add: add_experience_def Let_def)

section \<open>Award policies\<close>

lemma award_stage_new_Ok:
  "award_stage_new lo hi m = Ok st \<Longrightarrow>
     1 \<le> min_level st \<and> min_level st \<le> max_level st \<and>
     1 \<le> multiplier_milli st \<and> multiplier_milli st \<le> max_progression_multiplier_milli"
  by (auto simp: award_stage_new_def split: if_splits)

definition stage_ok :: "award_stage \<Rightarrow> bool" where
  "stage_ok st \<longleftrightarrow> min_level st \<le> max_level st"

definition stages_ordered :: "award_stage list \<Rightarrow> bool" where
  "stages_ordered sts \<longleftrightarrow> sorted_wrt (\<lambda>a b. max_level a < min_level b) sts"

lemma adjacent_stages_ordered:
  assumes "\<forall>st \<in> set sts. stage_ok st"
    and "\<not> list_ex (\<lambda>(a, b). max_level a \<ge> min_level b) (zip sts (tl sts))"
  shows "stages_ordered sts"
  using assms
proof (induction sts)
  case (Cons a sts)
  then have rest: "stages_ordered sts"
    by (cases sts) (auto simp: stages_ordered_def)
  show ?case
  proof (cases sts)
    case Nil
    then show ?thesis by (simp add: stages_ordered_def)
  next
    case (Cons b sts')
    with Cons.prems rest show ?thesis
      by (fastforce simp: stages_ordered_def stage_ok_def)
  qed
qed (simp add: stages_ordered_def)

lemma award_policy_new_ordered:
  "award_policy_new rate sts = Ok pol \<Longrightarrow> \<forall>st \<in> set sts. stage_ok st \<Longrightarrow>
     stages_ordered (stages pol) \<and> stages pol = sts \<and> flat_rate pol = rate"
  by (auto simp: award_policy_new_def split: if_splits intro: adjacent_stages_ordered)

text \<open>In an ordered policy at most one stage covers a level, so the first match is the only
  one.\<close>

lemma stages_ordered_unique:
  assumes "stages_ordered sts" and "a \<in> set sts" and "b \<in> set sts"
    and "min_level a \<le> lv" "lv \<le> max_level a" and "min_level b \<le> lv" "lv \<le> max_level b"
  shows "a = b"
  using assms
  by (induction sts) (auto simp: stages_ordered_def dest: le_less_trans [OF _ less_le_trans])

lemma find_stage:
  assumes "stages_ordered sts" and "st \<in> set sts" and "min_level st \<le> lv" and "lv \<le> max_level st"
  shows "find (\<lambda>st. min_level st \<le> lv \<and> lv \<le> max_level st) sts = Some st"
proof (cases "find (\<lambda>st. min_level st \<le> lv \<and> lv \<le> max_level st) sts")
  case None
  with assms show ?thesis by (auto simp: find_None_iff)
next
  case (Some b)
  then have "b \<in> set sts" and "min_level b \<le> lv" and "lv \<le> max_level b"
    by (auto simp: find_Some_iff)
  with assms Some show ?thesis by (auto dest: stages_ordered_unique)
qed

section \<open>Level-up gains\<close>

lemma apply_gains_valid:
  "vitals_is_valid v \<Longrightarrow> max_health v \<le> u16_max \<Longrightarrow> max_mana v \<le> u16_max \<Longrightarrow>
     vitals_is_valid (apply_gains g v n)"
  by (auto simp: vitals_is_valid_def apply_gains_def Let_def sat_add_def min_def)

lemma apply_gains_bounds:
  "max_health (apply_gains g v n) \<le> u16_max \<and> max_mana (apply_gains g v n) \<le> u16_max"
  by (simp add: apply_gains_def Let_def)

lemma apply_gains_none: "vitals_is_valid v \<Longrightarrow> max_health v \<le> u16_max \<Longrightarrow> max_mana v \<le> u16_max \<Longrightarrow>
    carry_capacity v \<le> u16_max \<Longrightarrow> apply_gains g v 0 = v"
  by (simp add: apply_gains_def scaled_amount_def sat_defs vitals_is_valid_def min_def)

section \<open>Counters and levels\<close>

text \<open>The total without saturation.\<close>

definition exact_total :: "(nat \<Rightarrow> nat) \<Rightarrow> nat \<Rightarrow> nat \<Rightarrow> nat \<Rightarrow> nat" where
  "exact_total req base level stored = stored + (\<Sum>t \<in> {base <.. level}. req t)"

lemma foldl_sat_add:
  "acc \<le> u64_max \<Longrightarrow>
   foldl (\<lambda>tot t. sat_add u64_max tot (req t)) acc ts = min (acc + sum_list (map req ts)) u64_max"
proof (induction ts arbitrary: acc)
  case (Cons t ts)
  then show ?case by (simp add: sat_add_def)
qed simp

lemma cumulative_exact:
  "stored \<le> u64_max \<Longrightarrow> cumulative req base level stored = min (exact_total req base level stored) u64_max"
proof -
  assume "stored \<le> u64_max"
  moreover have "sum_list (map req [Suc base ..< Suc level]) = (\<Sum>t \<in> {base <.. level}. req t)"
    by (subst sum_list_distinct_conv_sum_set) (auto intro!: sum.cong)
  ultimately show ?thesis by (simp add: cumulative_def foldl_sat_add exact_total_def)
qed

lemma exact_total_Suc:
  "base \<le> level \<Longrightarrow> exact_total req base (Suc level) stored = req (Suc level) + exact_total req base level stored"
proof -
  assume "base \<le> level"
  then have "{base <.. Suc level} = insert (Suc level) {base <.. level}" by auto
  then show ?thesis by (simp add: exact_total_def)
qed

lemma exact_total_same [simp]: "exact_total req base base stored = stored"
  by (simp add: exact_total_def)

lemma exact_total_shift: "exact_total req base level (a + b) = a + exact_total req base level b"
  by (simp add: exact_total_def)

text \<open>Resolving a total gives the level and the rest back.\<close>

lemma from_total_step:
  "level < cap \<Longrightarrow> req (Suc level) \<le> tot \<Longrightarrow>
     from_total cap req level tot = from_total cap req (Suc level) (tot - req (Suc level))"
  by (subst from_total.simps) (simp add: sat_add_def Let_def)

lemma from_total_stop:
  "level < cap \<Longrightarrow> tot < req (Suc level) \<Longrightarrow> from_total cap req level tot = (level, tot)"
  by (subst from_total.simps) (simp add: sat_add_def Let_def)

lemma from_total_cap: "cap \<le> level \<Longrightarrow> from_total cap req level tot = (level, 0)"
  by (subst from_total.simps) simp

lemma from_total_exact_total:
  assumes "base \<le> level" and "level \<le> cap"
  shows "from_total cap req base (exact_total req base level rest) = from_total cap req level rest"
  using assms
proof (induction "level - base" arbitrary: base)
  case (Suc d)
  then have lt: "base < level" by simp
  have tot: "exact_total req base level rest = req (Suc base) + exact_total req (Suc base) level rest"
  proof -
    have "{base <.. level} = insert (Suc base) {Suc base <.. level}" using lt by auto
    then show ?thesis by (simp add: exact_total_def)
  qed
  have "from_total cap req base (exact_total req base level rest) =
      from_total cap req (Suc base) (exact_total req (Suc base) level rest)"
    using lt Suc.prems tot by (subst from_total_step) auto
  also have "\<dots> = from_total cap req level rest"
    using Suc by (intro Suc.hyps(1)) auto
  finally show ?case .
qed simp

text \<open>What \<open>from_total\<close> returns: the total is the requirements of the levels passed plus the
  rest, and the rest does not reach the next level; at the cap the rest is dropped.\<close>

lemma from_total_spec:
  assumes "from_total cap req base tot = (level, rest)" and "base \<le> cap"
  shows "base \<le> level \<and> level \<le> cap \<and>
    (if level < cap then tot = exact_total req base level rest \<and> rest < req (Suc level)
     else rest = 0 \<and> exact_total req base level 0 \<le> tot)"
  using assms
proof (induction "cap - base" arbitrary: base tot)
  case 0
  then show ?case by (auto simp: from_total_cap)
next
  case (Suc d)
  then have lt: "base < cap" by simp
  show ?case
  proof (cases "tot < req (Suc base)")
    case True
    with lt Suc.prems show ?thesis by (auto simp: from_total_stop)
  next
    case False
    with lt Suc.prems have "from_total cap req (Suc base) (tot - req (Suc base)) = (level, rest)"
      by (simp add: from_total_step)
    with Suc.hyps(1) [of "Suc base"] Suc.hyps(2) lt have ih: "Suc base \<le> level \<and> level \<le> cap \<and>
      (if level < cap then tot - req (Suc base) = exact_total req (Suc base) level rest \<and> rest < req (Suc level)
       else rest = 0 \<and> exact_total req (Suc base) level 0 \<le> tot - req (Suc base))"
      by simp
    then have "{base <.. level} = insert (Suc base) {Suc base <.. level}" by auto
    then have "exact_total req base level r = req (Suc base) + exact_total req (Suc base) level r" for r
      by (simp add: exact_total_def)
    with ih False show ?thesis by (auto split: if_splits)
  qed
qed

text \<open>A smaller total never resolves to a higher level.\<close>

lemma exact_total_mono_level: "l \<le> l' \<Longrightarrow> exact_total req base l r \<le> exact_total req base l' r"
  by (auto simp: exact_total_def intro!: sum_mono2)

lemma from_total_mono:
  assumes "from_total cap req base a = (la, ra)" and "from_total cap req base b = (lb, rb)"
    and "a \<le> b" and "base \<le> cap"
  shows "la \<le> lb"
proof (rule ccontr)
  assume "\<not> la \<le> lb"
  note sa = from_total_spec [OF assms(1,4)] and sb = from_total_spec [OF assms(2,4)]
  from \<open>\<not> la \<le> lb\<close> sa sb have lt: "lb < la" "lb < cap" by auto
  with sb have "b < req (Suc lb) + exact_total req base lb 0"
    by (auto simp: exact_total_def)
  also have "\<dots> = exact_total req base (Suc lb) 0" using sb by (simp add: exact_total_Suc)
  also have "\<dots> \<le> exact_total req base la 0" using lt by (intro exact_total_mono_level) simp
  also have "\<dots> \<le> a" using sa by (auto simp: exact_total_def split: if_splits)
  finally show False using assms(3) by simp
qed

text \<open>
  The incremental loop agrees with resolving the total: starting from a level and a counter
  below the next requirement, awarding \<open>awarded\<close> ends where the total of the old position
  plus \<open>awarded\<close> resolves to (the callers clear the counter at the cap).
\<close>

lemma advance_loop_unfold:
  "advance_loop cap req level stored awarded gained =
     (if awarded > 0 \<and> level < cap then
        (if awarded < req (Suc level) - stored then (level, sat_add u64_max stored awarded, gained)
         else advance_loop cap req (Suc level) 0 (awarded - (req (Suc level) - stored)) (sat_add cap gained 1))
      else (level, stored, gained))"
  by (subst advance_loop.simps) (auto simp: sat_add_def Let_def min_def)

lemma advance_loop_from_total:
  assumes "advance_loop cap req level stored awarded gained = (level', stored', gained')"
    and pos: "\<And>t. 0 < req (Suc t)" and bound: "\<And>t. req t \<le> u64_max"
    and "level \<le> cap" and "level < cap \<Longrightarrow> stored < req (Suc level)"
    and "gained + (cap - level) \<le> cap"
  shows "from_total cap req level (stored + awarded) = (level', if level' = cap then 0 else stored') \<and>
    gained' = gained + (level' - level) \<and> level \<le> level'"
  using assms(1,4-)
proof (induction "cap - level" arbitrary: level stored awarded gained)
  case 0
  then have "cap = level" by simp
  with 0 show ?case by (simp add: advance_loop_unfold [of level] from_total_cap)
next
  case (Suc d)
  then have lt: "level < cap" and below: "stored < req (Suc level)" by auto
  show ?case
  proof (cases "awarded < req (Suc level) - stored")
    case True
    with bound [of "Suc level"] have "stored + awarded \<le> u64_max" by linarith
    with Suc.prems lt True show ?thesis
      by (cases "awarded = 0")
        (auto simp: advance_loop_unfold [of cap req level] from_total_stop sat_add_exact)
  next
    case False
    have sub: "awarded - (req (Suc level) - stored) = stored + awarded - req (Suc level)"
      using False below by simp
    have "advance_loop cap req (Suc level) 0 (awarded - (req (Suc level) - stored)) (Suc gained) =
        (level', stored', gained')"
    proof -
      have "0 < awarded" using False below by linarith
      moreover have "sat_add cap gained 1 = Suc gained"
        using Suc.prems(4) lt by (simp add: sat_add_exact)
      ultimately show ?thesis
        using Suc.prems(1) False lt by (simp add: advance_loop_unfold [of cap req level])
    qed
    from Suc.hyps(1) [OF _ this] Suc.hyps(2) Suc.prems(4) lt pos
    have "from_total cap req (Suc level) (0 + (awarded - (req (Suc level) - stored))) =
        (level', if level' = cap then 0 else stored') \<and>
      gained' = Suc gained + (level' - Suc level) \<and> Suc level \<le> level'"
      by auto
    then show ?thesis using lt False sub below by (auto simp: from_total_step)
  qed
qed

end
