(* ===== verification/Rules.thy ===== *)
theory Rules
  imports Core_Types
begin

text \<open>
  Validated value types of regeneration, conditions, death loss, combat and spell casts, and
  the pure schedule arithmetic (\<open>RegenerationRule\<close> to \<open>PlayerDeathLossOutcome\<close>,
  \<open>PlayerDamageOutcome\<close> to \<open>PlayerInteractionIntent\<close>, \<open>advance_regeneration_schedule\<close> and
  \<open>regeneration_gain\<close> in \<open>crates/forgotten-core/src/lib.rs\<close>).

  A division or remainder by an interval is a panic when the interval is 0: the fields are
  public, so a caller can build such a rule without the validating constructor.
\<close>

section \<open>Regeneration\<close>

abbreviation max_regeneration_elapsed_seconds :: nat where
  "max_regeneration_elapsed_seconds \<equiv> 60"
abbreviation food_regeneration_interval_seconds :: nat where
  "food_regeneration_interval_seconds \<equiv> 4"
abbreviation food_regeneration_health_per_interval :: nat where
  "food_regeneration_health_per_interval \<equiv> 1"

record food_window =
  until_tick :: nat
  food_elapsed :: nat

record regeneration_rule =
  rr_interval :: nat
  rr_amount :: nat

definition regeneration_rule_new :: "nat \<Rightarrow> nat \<Rightarrow> regeneration_rule result" where
  "regeneration_rule_new interval amount =
     (if interval = 0 then Inl (rule_fault InvalidRegenerationInterval)
      else Ok \<lparr>rr_interval = interval, rr_amount = amount\<rparr>)"

record regeneration_rules =
  health_rule :: regeneration_rule
  mana_rule :: regeneration_rule

record regeneration_schedule =
  health_elapsed :: nat
  mana_elapsed :: nat

definition default_schedule :: regeneration_schedule where
  "default_schedule = \<lparr>health_elapsed = 0, mana_elapsed = 0\<rparr>"

text \<open>The number of due events and the new elapsed counter.\<close>

definition advance_regeneration_schedule :: "nat \<Rightarrow> nat \<Rightarrow> nat \<Rightarrow> (nat \<times> nat) result" where
  "advance_regeneration_schedule elapsed interval delta =
     (let total = sat_add u16_max elapsed delta
      in if interval = 0 then Inl Panic else Ok (total div interval, total mod interval))"

definition regeneration_gain :: "nat \<Rightarrow> nat \<Rightarrow> nat \<Rightarrow> nat \<Rightarrow> nat" where
  "regeneration_gain current maximum amount events =
     (let requested = sat_mul u32_max amount events
      in min (sat_add u16_max current (min requested u16_max)) maximum - current)"

section \<open>Conditions\<close>

abbreviation max_condition_duration_seconds :: nat where "max_condition_duration_seconds \<equiv> 3600"
abbreviation max_speed_bonus_percent :: nat where "max_speed_bonus_percent \<equiv> 100"

record player_condition =
  cond_kind :: condition_kind
  cond_interval :: nat
  cond_damage :: nat
  cond_speed_bonus :: nat
  cond_remaining :: nat
  cond_elapsed :: nat

definition condition_new ::
  "condition_kind \<Rightarrow> nat \<Rightarrow> nat \<Rightarrow> nat \<Rightarrow> player_condition result" where
  "condition_new kind interval damage remaining =
     (if is_damage_over_time kind then
        (if interval = 0 \<or> damage = 0 \<or> remaining = 0
         then Inl (rule_fault InvalidPlayerCondition)
         else if remaining > max_condition_duration_seconds
         then Inl (rule_fault InvalidPlayerCondition)
         else Ok \<lparr>cond_kind = kind, cond_interval = interval, cond_damage = damage,
                  cond_speed_bonus = 0, cond_remaining = remaining, cond_elapsed = 0\<rparr>)
      else Inl (rule_fault InvalidPlayerCondition))"

definition condition_new_haste :: "nat \<Rightarrow> nat \<Rightarrow> player_condition result" where
  "condition_new_haste bonus remaining =
     (if bonus = 0 \<or> bonus > max_speed_bonus_percent
      then Inl (rule_fault InvalidPlayerCondition)
      else if remaining = 0 \<or> remaining > max_condition_duration_seconds
      then Inl (rule_fault InvalidPlayerCondition)
      else Ok \<lparr>cond_kind = Haste, cond_interval = 1, cond_damage = 0,
               cond_speed_bonus = bonus, cond_remaining = remaining, cond_elapsed = 0\<rparr>)"

definition condition_from_persisted ::
  "condition_kind \<Rightarrow> nat \<Rightarrow> nat \<Rightarrow> nat \<Rightarrow> nat \<Rightarrow> nat \<Rightarrow> player_condition result" where
  "condition_from_persisted kind interval damage bonus remaining elapsed =
     rbind
       (if is_damage_over_time kind then
          (if bonus \<noteq> 0 then Inl (rule_fault InvalidPlayerCondition)
           else condition_new kind interval damage remaining)
        else
          (if interval = 0 \<or> damage \<noteq> 0 \<or> bonus = 0
           then Inl (rule_fault InvalidPlayerCondition)
           else condition_new_haste bonus remaining))
       (\<lambda>condition.
          if elapsed \<ge> interval then Inl (rule_fault InvalidPlayerCondition)
          else Ok (condition\<lparr>cond_elapsed := elapsed\<rparr>))"

text \<open>What every constructor guarantees.\<close>

definition condition_wf :: "player_condition \<Rightarrow> bool" where
  "condition_wf c \<longleftrightarrow>
     0 < cond_interval c \<and>
     0 < cond_remaining c \<and> cond_remaining c \<le> max_condition_duration_seconds \<and>
     (if is_damage_over_time (cond_kind c)
      then 0 < cond_damage c \<and> cond_speed_bonus c = 0
      else cond_damage c = 0 \<and> 0 < cond_speed_bonus c \<and>
           cond_speed_bonus c \<le> max_speed_bonus_percent)"

type_synonym condition_set = "(condition_kind, player_condition) btmap"

section \<open>Death\<close>

datatype death_loss_policy = DefaultFormula | NoLoss | FixedPercent nat

definition death_loss_from_config :: "int \<Rightarrow> death_loss_policy result" where
  "death_loss_from_config value =
     (if value = -1 then Ok DefaultFormula
      else if value = 0 then Ok NoLoss
      else if 1 \<le> value \<and> value \<le> 100 then Ok (FixedPercent (nat value))
      else Inl (rule_fault InvalidDeathLossPolicy))"

record respawn_state =
  dead :: bool
  respawn_at :: "position option"
  death_time :: "nat option"
  loss_applied :: bool

definition default_respawn :: respawn_state where
  "default_respawn = \<lparr>dead = False, respawn_at = None, death_time = None, loss_applied = False\<rparr>"

section \<open>Combat and spell casts\<close>

datatype damage_type = Physical | Fire | EnergyDamage | Earth | Ice | Holy | Death

datatype combat_delivery = AdjacentMelee | RangedDistance nat

abbreviation max_distance_weapon_range :: nat where "max_distance_weapon_range \<equiv> 5"
abbreviation max_combat_event_damage :: nat where "max_combat_event_damage \<equiv> 10000"
abbreviation max_combat_interval_ticks :: nat where "max_combat_interval_ticks \<equiv> 60"
abbreviation max_spell_mana_cost :: nat where "max_spell_mana_cost \<equiv> 10000"

text \<open>\<open>PlayerCombatDefense\<close>, \<open>CombatAttackTiming\<close>, \<open>PlayerCombatCooldown\<close> and
  \<open>PlayerSpellCooldown\<close> each wrap one number.\<close>

definition combat_defense_new :: "nat \<Rightarrow> nat result" where
  "combat_defense_new reduction =
     (if reduction > max_combat_event_damage then Inl (rule_fault InvalidCombatDefense)
      else Ok reduction)"

definition mitigate_physical :: "nat \<Rightarrow> nat \<Rightarrow> nat" where
  "mitigate_physical reduction requested = requested - reduction"

definition attack_timing_new :: "nat \<Rightarrow> nat result" where
  "attack_timing_new ticks =
     (if ticks = 0 \<or> ticks > max_combat_interval_ticks then Inl (rule_fault InvalidCombatEvent)
      else Ok ticks)"

datatype fight_mode = AttackMode | BalancedMode | DefenseMode

record fight_mode_state =
  fm_mode :: fight_mode
  fm_chase :: bool
  fm_secure :: bool

definition default_fight_mode :: fight_mode_state where
  "default_fight_mode = \<lparr>fm_mode = AttackMode, fm_chase = False, fm_secure = False\<rparr>"

record combat_event =
  ev_attacker :: nat
  ev_target :: nat
  ev_delivery :: combat_delivery
  ev_damage_type :: damage_type
  ev_damage :: nat
  ev_interval :: nat

definition adjacent_melee ::
  "nat \<Rightarrow> nat \<Rightarrow> damage_type \<Rightarrow> nat \<Rightarrow> nat \<Rightarrow> combat_event result" where
  "adjacent_melee attacker target dtype damage interval =
     (if damage = 0 \<or> damage > max_combat_event_damage then Inl (rule_fault InvalidCombatEvent)
      else Ok \<lparr>ev_attacker = attacker, ev_target = target, ev_delivery = AdjacentMelee,
               ev_damage_type = dtype, ev_damage = damage, ev_interval = interval\<rparr>)"

definition distance_shot ::
  "nat \<Rightarrow> nat \<Rightarrow> damage_type \<Rightarrow> nat \<Rightarrow> nat \<Rightarrow> nat \<Rightarrow> combat_event result" where
  "distance_shot attacker target dtype damage interval max_range =
     (if damage = 0 \<or> damage > max_combat_event_damage \<or> max_range = 0 \<or>
         max_range > max_distance_weapon_range
      then Inl (rule_fault InvalidCombatEvent)
      else Ok \<lparr>ev_attacker = attacker, ev_target = target, ev_delivery = RangedDistance max_range,
               ev_damage_type = dtype, ev_damage = damage, ev_interval = interval\<rparr>)"

record spell_event =
  sc_caster :: nat
  sc_spell :: nat
  sc_mana_cost :: nat
  sc_interval :: nat

definition spell_event_new :: "nat \<Rightarrow> nat \<Rightarrow> nat \<Rightarrow> nat \<Rightarrow> spell_event result" where
  "spell_event_new caster spell cost interval =
     (if spell = 0 \<or> cost = 0 \<or> cost > max_spell_mana_cost
      then Inl (rule_fault InvalidSpellCastEvent)
      else Ok \<lparr>sc_caster = caster, sc_spell = spell, sc_mana_cost = cost, sc_interval = interval\<rparr>)"

record interaction_intent =
  target_player :: "nat option"
  target_static :: "nat option"
  follow_player :: "nat option"

definition default_intent :: interaction_intent where
  "default_intent = \<lparr>target_player = None, target_static = None, follow_player = None\<rparr>"

section \<open>Lemmas\<close>

lemma condition_new_wf: "condition_new k i d r = Ok c \<Longrightarrow> condition_wf c \<and> cond_elapsed c < cond_interval c"
  by (auto simp: condition_new_def condition_wf_def split: if_splits)

lemma condition_new_haste_wf:
  "condition_new_haste b r = Ok c \<Longrightarrow> condition_wf c \<and> cond_elapsed c < cond_interval c"
  by (auto simp: condition_new_haste_def condition_wf_def is_damage_over_time_def split: if_splits)

lemma condition_from_persisted_wf: "condition_from_persisted k i d b r e = Ok c \<Longrightarrow> condition_wf c"
  by (auto simp: condition_from_persisted_def condition_wf_def condition_new_def
      condition_new_haste_def is_damage_over_time_def split: if_splits)

text \<open>What a constructor builds, and every later state of it, is accepted again when it is
  read back.\<close>

lemma condition_persist_roundtrip:
  assumes "condition_wf c" and "cond_elapsed c < cond_interval c"
    and "\<not> is_damage_over_time (cond_kind c) \<longrightarrow> cond_interval c = 1"
  shows "condition_from_persisted (cond_kind c) (cond_interval c) (cond_damage c)
           (cond_speed_bonus c) (cond_remaining c) (cond_elapsed c) = Ok c"
  using assms
  by (cases c; cases "cond_kind c")
    (auto simp: condition_from_persisted_def condition_wf_def condition_new_def
      condition_new_haste_def is_damage_over_time_def)

lemma regeneration_gain_le:
  "current \<le> maximum \<Longrightarrow> current + regeneration_gain current maximum amount events \<le> maximum"
  by (auto simp: regeneration_gain_def Let_def sat_defs)

lemma regeneration_gain_exact:
  assumes "current \<le> maximum" and "maximum \<le> u16_max"
  shows "regeneration_gain current maximum amount events = min (amount * events) (maximum - current)"
  using assms by (auto simp: regeneration_gain_def Let_def sat_defs min_def)

lemma advance_regeneration_schedule_Ok:
  "0 < interval \<Longrightarrow> elapsed + delta \<le> u16_max \<Longrightarrow>
     \<exists>events rest. advance_regeneration_schedule elapsed interval delta = Ok (events, rest) \<and>
       elapsed + delta = events * interval + rest \<and> rest < interval"
  by (auto simp: advance_regeneration_schedule_def sat_add_exact Let_def)

text \<open>Splitting an elapsed period in two steps yields the same events in total.\<close>

lemma advance_regeneration_schedule_split:
  assumes "0 < interval" and "elapsed + d1 + d2 \<le> u16_max" and "interval \<le> u16_max"
    and "advance_regeneration_schedule elapsed interval d1 = Ok (n1, r1)"
    and "advance_regeneration_schedule r1 interval d2 = Ok (n2, r2)"
  shows "advance_regeneration_schedule elapsed interval (d1 + d2) = Ok (n1 + n2, r2)"
proof -
  let ?s = "elapsed + d1"
  have n1: "n1 = ?s div interval" and r1: "r1 = ?s mod interval"
    using assms by (auto simp: advance_regeneration_schedule_def sat_add_exact Let_def)
  have "r1 \<le> ?s" by (simp add: r1)
  then have n2: "n2 = (r1 + d2) div interval" and r2: "r2 = (r1 + d2) mod interval"
    using assms by (auto simp: advance_regeneration_schedule_def sat_add_exact Let_def)
  have eq: "?s + d2 = (r1 + d2) + n1 * interval" by (simp add: n1 r1)
  have "(?s + d2) div interval = n1 + n2" and "(?s + d2) mod interval = r2"
    unfolding eq using assms(1) by (simp_all add: n2 r2)
  then show ?thesis
    using assms by (simp add: advance_regeneration_schedule_def sat_add_exact add.assoc)
qed

lemma mitigate_le: "mitigate_physical reduction requested \<le> requested"
  by (simp add: mitigate_physical_def)

end
