(* ===== verification/Text_Utf8.thy ===== *)
theory Text_Utf8
  imports Core_Types "HOL-Library.List_Lexorder" "HOL-Library.Char_ord"
begin

text \<open>
  The text operations the crate takes from the standard library. A \<open>String\<close> is its UTF-8
  bytes, one \<open>char\<close> per byte, so \<open>length\<close> is \<open>str::len\<close> and the lexicographic order of
  \<open>HOL-Library.List_Lexorder\<close> is the order of \<open>String\<close> keys.
\<close>

section \<open>Blank strings\<close>

text \<open>The code points with the \<open>White_Space\<close> property, by the length of their encoding.\<close>

definition space1 :: "char \<Rightarrow> bool" where
  "space1 a \<longleftrightarrow> (let x = (of_char a :: nat) in (9 \<le> x \<and> x \<le> 13) \<or> x = 32)"

definition space2 :: "char \<Rightarrow> char \<Rightarrow> bool" where
  "space2 a b \<longleftrightarrow> a = CHR 0xC2 \<and> (b = CHR 0x85 \<or> b = CHR 0xA0)"

definition space3 :: "char \<Rightarrow> char \<Rightarrow> char \<Rightarrow> bool" where
  "space3 a b c \<longleftrightarrow>
     (a = CHR 0xE1 \<and> b = CHR 0x9A \<and> c = CHR 0x80) \<or>
     (a = CHR 0xE2 \<and> b = CHR 0x80 \<and>
        (let x = (of_char c :: nat) in (0x80 \<le> x \<and> x \<le> 0x8A) \<or> x = 0xA8 \<or> x = 0xA9 \<or> x = 0xAF)) \<or>
     (a = CHR 0xE2 \<and> b = CHR 0x81 \<and> c = CHR 0x9F) \<or>
     (a = CHR 0xE3 \<and> b = CHR 0x80 \<and> c = CHR 0x80)"

text \<open>\<open>s.trim().is_empty()\<close>: every code point of \<open>s\<close> is white space.\<close>

fun blank :: "string \<Rightarrow> bool" where
  "blank [] \<longleftrightarrow> True"
| "blank [a] \<longleftrightarrow> space1 a"
| "blank [a, b] \<longleftrightarrow> (if space1 a then blank [b] else space2 a b)"
| "blank (a # b # c # s) \<longleftrightarrow>
     (if space1 a then blank (b # c # s)
      else if space2 a b then blank (c # s)
      else space3 a b c \<and> blank s)"

lemma blank_Cons: "space1 a \<Longrightarrow> blank (a # s) \<longleftrightarrow> blank s"
  by (cases "a # s" rule: blank.cases) auto

lemma blank_spaces: "list_all space1 s \<Longrightarrow> blank s"
  by (induction s) (auto simp: blank_Cons)

text \<open>\<open>s.trim()\<close>. A blank suffix starts at a code point boundary: no continuation byte begins a
  white-space encoding.\<close>

fun trim_start :: "string \<Rightarrow> string" where
  "trim_start [] = []"
| "trim_start [a] = (if space1 a then [] else [a])"
| "trim_start [a, b] = (if space1 a then trim_start [b] else if space2 a b then [] else [a, b])"
| "trim_start (a # b # c # s) =
     (if space1 a then trim_start (b # c # s)
      else if space2 a b then trim_start (c # s)
      else if space3 a b c then trim_start s else a # b # c # s)"

fun trim_end :: "string \<Rightarrow> string" where
  "trim_end [] = []"
| "trim_end (a # s) = (if blank (a # s) then [] else a # trim_end s)"

definition trim :: "string \<Rightarrow> string" where
  "trim s = trim_end (trim_start s)"

lemma blank_trim_start: "blank (trim_start s) \<longleftrightarrow> blank s"
  by (induction s rule: trim_start.induct) auto

lemma trim_empty_iff: "trim s = [] \<longleftrightarrow> blank s"
  using blank_trim_start [of s] by (cases "trim_start s") (auto simp: trim_def split: if_splits)

section \<open>Decimal numbers\<close>

text \<open>\<open>format!("{}", n)\<close> for an unsigned integer.\<close>

fun dec :: "nat \<Rightarrow> string" where
  "dec n = (if n < 10 then [char_of (48 + n)] else dec (n div 10) @ [char_of (48 + n mod 10)])"

declare dec.simps [simp del]

text \<open>Reading the digits back.\<close>

definition undec :: "string \<Rightarrow> nat" where
  "undec s = foldl (\<lambda>n c. 10 * n + (of_char c - 48)) 0 s"

lemma undec_dec: "undec (dec n) = n"
proof (induction n rule: dec.induct)
  case (1 n)
  show ?case
  proof (cases "n < 10")
    case True
    then show ?thesis by (subst dec.simps) (simp add: undec_def)
  next
    case False
    then have "undec (dec n) = 10 * undec (dec (n div 10)) + n mod 10"
      by (subst dec.simps) (simp add: undec_def)
    with 1 False show ?thesis by simp
  qed
qed

lemma dec_inject: "dec m = dec n \<longleftrightarrow> m = n"
  by (metis undec_dec)

end
