(* ===== verification/Static_Spawns.thy ===== *)
theory Static_Spawns
  imports Text_Utf8
begin

text \<open>
  Static creature spawn data and its validating builders (\<open>FeTfsStaticEntity\<close> to
  \<open>StaticCreatureRuntime\<close> of \<open>crates/forgotten-core/src/lib.rs\<close>). The chain of
  \<open>FeTfsStaticSpawnCollection\<close> constructors ends in \<open>with_loot_tables\<close>; the two attaching
  builders and \<open>extend_templates\<close> act on a finished collection.

  \<open>str::to_lowercase\<close> is a parameter \<open>lower\<close>: its full Unicode table is not part of the
  model, and no law of it is assumed.
\<close>

abbreviation max_tfs_static_spawns :: nat where "max_tfs_static_spawns \<equiv> 65536"
abbreviation max_static_loot_entries :: nat where "max_static_loot_entries \<equiv> 32"
abbreviation loot_chance_scale :: nat where "loot_chance_scale \<equiv> 100000"

section \<open>Data\<close>

record static_entity =
  se_id :: nat
  se_name :: string
  se_name_description :: string
  se_position :: position
  se_look_type :: nat
  se_head :: nat
  se_body :: nat
  se_legs :: nat
  se_feet :: nat
  se_addons :: nat
  se_speed :: nat
  se_health_percent :: nat
  se_direction :: nat

record melee_damage_range =
  min_damage :: nat
  max_damage :: nat

record melee_condition =
  mc_kind :: condition_kind
  mc_interval :: nat
  mc_damage :: nat
  mc_duration :: nat
  mc_chance :: nat

definition melee_condition_new ::
  "condition_kind \<Rightarrow> nat \<Rightarrow> nat \<Rightarrow> nat \<Rightarrow> nat \<Rightarrow> melee_condition result" where
  "melee_condition_new kind interval damage duration chance =
     (if \<not> is_damage_over_time kind then Inl (rule_fault InvalidPlayerCondition)
      else if interval = 0 \<or> damage = 0 \<or> duration = 0 \<or> duration > 3600
      then Inl (rule_fault InvalidPlayerCondition)
      else if \<not> (1 \<le> chance \<and> chance \<le> 100) then Inl (rule_fault InvalidPlayerCondition)
      else Ok \<lparr>mc_kind = kind, mc_interval = interval, mc_damage = damage,
               mc_duration = duration, mc_chance = chance\<rparr>)"

record loot_entry =
  le_item_id :: nat
  le_chance :: nat
  le_min_count :: nat
  le_max_count :: nat

record spawn_area =
  sa_center :: position
  sa_radius :: nat

definition area_contains :: "spawn_area \<Rightarrow> position \<Rightarrow> bool" where
  "area_contains a p \<longleftrightarrow>
     pos_z p = pos_z (sa_center a) \<and>
     abs_diff (pos_x p) (pos_x (sa_center a)) \<le> sa_radius a \<and>
     abs_diff (pos_y p) (pos_y (sa_center a)) \<le> sa_radius a"

record spawn_collection =
  sc_entities :: "static_entity list"
  sc_respawn_intervals :: "(nat, nat) btmap"
  sc_experience_rewards :: "(nat, nat) btmap"
  sc_melee_intervals :: "(nat, nat) btmap"
  sc_damage_ranges :: "(nat, melee_damage_range) btmap"
  sc_melee_conditions :: "(nat, melee_condition) btmap"
  sc_loot_tables :: "(nat, loot_entry list) btmap"
  sc_npc_ids :: "nat btset"
  sc_spawn_areas :: "(nat, spawn_area) btmap"

section \<open>Builders\<close>

text \<open>The validation loop over the entities, with the set of identifiers seen so far.\<close>

fun check_entities :: "static_entity list \<Rightarrow> nat btset \<Rightarrow> nat btset result" where
  "check_entities [] ids = Ok ids"
| "check_entities (e # es) ids =
     (if blank (se_name e) then Inl (static_fault EmptyStaticSpawnName)
      else if se_health_percent e > 100
      then Inl (static_fault (InvalidStaticCreatureHealthPercent (se_health_percent e)))
      else if bt_mem (se_id e) ids then Inl (static_fault (DuplicateStaticSpawnId (se_id e)))
      else check_entities es (bs_insert (se_id e) ids))"

definition loot_entry_ok :: "loot_entry \<Rightarrow> bool" where
  "loot_entry_ok e \<longleftrightarrow> \<not> (le_item_id e = 0 \<or> le_min_count e = 0 \<or> le_min_count e > le_max_count e)"

definition with_loot_tables ::
  "static_entity list \<Rightarrow> (nat, nat) btmap \<Rightarrow> (nat, nat) btmap \<Rightarrow> (nat, nat) btmap \<Rightarrow>
     (nat, melee_damage_range) btmap \<Rightarrow> nat btset \<Rightarrow> (nat, loot_entry list) btmap \<Rightarrow>
     spawn_collection result" where
  "with_loot_tables es respawns rewards intervals ranges npcs loots =
     (if length es > max_tfs_static_spawns
      then Inl (static_fault (StaticSpawnLimit max_tfs_static_spawns))
      else rbind (check_entities es bt_empty) (\<lambda>ids.
        if list_ex (\<lambda>i. \<not> bt_mem i ids) (bt_keys respawns)
        then Inl (static_fault UnknownStaticCreatureSchedule)
        else if list_ex (\<lambda>i. \<not> bt_mem i ids) (bt_keys rewards)
        then Inl (static_fault UnknownStaticCreatureSchedule)
        else if list_ex (\<lambda>(i, n). \<not> bt_mem i ids \<or> n = 0) (entries intervals)
        then Inl (static_fault UnknownStaticCreatureSchedule)
        else if list_ex (\<lambda>(i, r). \<not> bt_mem i ids \<or> min_damage r > max_damage r) (entries ranges)
        then Inl (static_fault UnknownStaticCreatureSchedule)
        else if list_ex (\<lambda>i. \<not> bt_mem i ids) (bt_keys npcs)
        then Inl (static_fault UnknownStaticCreatureSchedule)
        else if list_ex (\<lambda>(i, loot). \<not> bt_mem i ids \<or> bt_mem i npcs \<or>
               length loot > max_static_loot_entries \<or> list_ex (\<lambda>e. \<not> loot_entry_ok e) loot)
             (entries loots)
        then Inl (static_fault UnknownStaticCreatureSchedule)
        else Ok \<lparr>sc_entities = es, sc_respawn_intervals = respawns,
                 sc_experience_rewards = rewards, sc_melee_intervals = intervals,
                 sc_damage_ranges = ranges, sc_melee_conditions = bt_empty,
                 sc_loot_tables = loots, sc_npc_ids = npcs, sc_spawn_areas = bt_empty\<rparr>))"

definition with_combat_metadata_and_npc_ids where
  "with_combat_metadata_and_npc_ids es respawns rewards intervals ranges npcs =
     with_loot_tables es respawns rewards intervals ranges npcs bt_empty"

definition with_combat_metadata where
  "with_combat_metadata es respawns rewards intervals ranges =
     with_combat_metadata_and_npc_ids es respawns rewards intervals ranges bt_empty"

definition with_runtime_metadata where
  "with_runtime_metadata es respawns rewards intervals =
     with_combat_metadata es respawns rewards intervals bt_empty"

definition with_respawn_intervals_and_rewards where
  "with_respawn_intervals_and_rewards es respawns rewards =
     with_runtime_metadata es respawns rewards bt_empty"

definition with_respawn_intervals where
  "with_respawn_intervals es respawns = with_respawn_intervals_and_rewards es respawns bt_empty"

definition spawns_new :: "static_entity list \<Rightarrow> spawn_collection result" where
  "spawns_new es = with_respawn_intervals es bt_empty"

definition entity_ids :: "spawn_collection \<Rightarrow> nat btset" where
  "entity_ids c = bs_of_list (map se_id (sc_entities c))"

definition with_monster_spawn_areas ::
  "(nat, spawn_area) btmap \<Rightarrow> spawn_collection \<Rightarrow> spawn_collection result" where
  "with_monster_spawn_areas areas c =
     (if list_ex (\<lambda>i. \<not> bt_mem i (entity_ids c) \<or> bt_mem i (sc_npc_ids c)) (bt_keys areas)
      then Inl (static_fault UnknownStaticCreatureSchedule)
      else Ok (c\<lparr>sc_spawn_areas := areas\<rparr>))"

definition with_melee_conditions ::
  "(nat, melee_condition) btmap \<Rightarrow> spawn_collection \<Rightarrow> spawn_collection result" where
  "with_melee_conditions conds c =
     (if list_ex (\<lambda>i. \<not> bt_mem i (entity_ids c) \<or> bt_mem i (sc_npc_ids c)) (bt_keys conds)
      then Inl (static_fault UnknownStaticCreatureSchedule)
      else Ok (c\<lparr>sc_melee_conditions := conds\<rparr>))"

text \<open>Copying one optional entry of a template's map.\<close>

definition copy_entry :: "nat \<Rightarrow> (nat, 'v) btmap \<Rightarrow> (nat, 'v) btmap \<Rightarrow> (nat, 'v) btmap" where
  "copy_entry i src dst = (case bt_get src i of None \<Rightarrow> dst | Some v \<Rightarrow> bt_insert i v dst)"

definition add_template ::
  "spawn_collection \<Rightarrow> static_entity \<Rightarrow> spawn_collection \<Rightarrow> spawn_collection" where
  "add_template ts t c =
     c\<lparr>sc_experience_rewards := copy_entry (se_id t) (sc_experience_rewards ts) (sc_experience_rewards c),
       sc_melee_intervals := copy_entry (se_id t) (sc_melee_intervals ts) (sc_melee_intervals c),
       sc_damage_ranges := copy_entry (se_id t) (sc_damage_ranges ts) (sc_damage_ranges c),
       sc_melee_conditions := copy_entry (se_id t) (sc_melee_conditions ts) (sc_melee_conditions c),
       sc_loot_tables := copy_entry (se_id t) (sc_loot_tables ts) (sc_loot_tables c),
       sc_entities := sc_entities c @ [t]\<rparr>"

definition extend_templates ::
  "(string \<Rightarrow> string) \<Rightarrow> spawn_collection \<Rightarrow> spawn_collection \<Rightarrow> unit result \<times> spawn_collection" where
  "extend_templates lower ts c =
     (let existing_ids = entity_ids c;
          existing_names = bs_of_list (map (\<lambda>e. lower (se_name e)) (sc_entities c))
      in (Ok (), foldl (\<lambda>c t.
            if bt_mem (se_id t) existing_ids \<or> bt_mem (lower (se_name t)) existing_names then c
            else add_template ts t c) c (sc_entities ts)))"

section \<open>Queries\<close>

definition monster_spawn_area :: "spawn_collection \<Rightarrow> nat \<Rightarrow> spawn_area option" where
  "monster_spawn_area c i = bt_get (sc_spawn_areas c) i"

definition respawn_interval_seconds :: "spawn_collection \<Rightarrow> nat \<Rightarrow> nat" where
  "respawn_interval_seconds c i = (case bt_get (sc_respawn_intervals c) i of None \<Rightarrow> 0 | Some n \<Rightarrow> n)"

definition experience_reward :: "spawn_collection \<Rightarrow> nat \<Rightarrow> nat" where
  "experience_reward c i = (case bt_get (sc_experience_rewards c) i of None \<Rightarrow> 0 | Some n \<Rightarrow> n)"

definition loot_table :: "spawn_collection \<Rightarrow> nat \<Rightarrow> loot_entry list" where
  "loot_table c i = (case bt_get (sc_loot_tables c) i of None \<Rightarrow> [] | Some l \<Rightarrow> l)"

definition is_npc :: "spawn_collection \<Rightarrow> nat \<Rightarrow> bool" where
  "is_npc c i = bt_mem i (sc_npc_ids c)"

definition entities_at :: "spawn_collection \<Rightarrow> position \<Rightarrow> static_entity list" where
  "entities_at c p = filter (\<lambda>e. se_position e = p) (sc_entities c)"

section \<open>The runtime of one creature\<close>

record creature_runtime =
  cr_entity :: static_entity
  cr_is_npc :: bool
  cr_experience_reward :: nat
  cr_loot :: "loot_entry list"
  cr_spawn_position :: position
  cr_spawn_area :: "spawn_area option"
  cr_active :: bool
  cr_health_percent :: nat
  cr_activated_at :: nat
  cr_inactive_since :: "nat option"
  cr_reactivation_due :: "nat option"
  cr_respawn_interval :: nat
  cr_melee_cooldown :: "nat option"
  cr_next_melee_due :: nat
  cr_damage_range :: "melee_damage_range option"
  cr_melee_condition :: "melee_condition option"
  cr_damage_sequence :: nat
  cr_target :: "nat option"

section \<open>What the builders guarantee\<close>

definition entity_ok :: "static_entity \<Rightarrow> bool" where
  "entity_ok e \<longleftrightarrow> \<not> blank (se_name e) \<and> se_health_percent e \<le> 100"

text \<open>Every per-creature table speaks about known creatures only, and the monster tables about
  monsters only.\<close>

definition spawns_wf :: "spawn_collection \<Rightarrow> bool" where
  "spawns_wf c \<longleftrightarrow>
     (let ids = set (map se_id (sc_entities c)); npcs = dom (bt_get (sc_npc_ids c)) in
       distinct (map se_id (sc_entities c)) \<and> (\<forall>e \<in> set (sc_entities c). entity_ok e) \<and>
       dom (bt_get (sc_respawn_intervals c)) \<subseteq> ids \<and>
       dom (bt_get (sc_experience_rewards c)) \<subseteq> ids \<and>
       dom (bt_get (sc_melee_intervals c)) \<subseteq> ids \<and>
       dom (bt_get (sc_damage_ranges c)) \<subseteq> ids \<and> npcs \<subseteq> ids \<and>
       dom (bt_get (sc_loot_tables c)) \<subseteq> ids - npcs \<and>
       dom (bt_get (sc_spawn_areas c)) \<subseteq> ids - npcs \<and>
       dom (bt_get (sc_melee_conditions c)) \<subseteq> ids - npcs \<and>
       (\<forall>i n. bt_get (sc_melee_intervals c) i = Some n \<longrightarrow> 0 < n) \<and>
       (\<forall>i r. bt_get (sc_damage_ranges c) i = Some r \<longrightarrow> min_damage r \<le> max_damage r) \<and>
       (\<forall>i l. bt_get (sc_loot_tables c) i = Some l \<longrightarrow>
          length l \<le> max_static_loot_entries \<and> (\<forall>e \<in> set l. loot_entry_ok e)))"

lemma check_entities_Ok:
  "check_entities es ids = Ok ids' \<longleftrightarrow>
     (\<forall>e \<in> set es. entity_ok e) \<and> distinct (map se_id es) \<and>
     (\<forall>e \<in> set es. \<not> bt_mem (se_id e) ids) \<and> ids' = foldl (\<lambda>s k. bs_insert k s) ids (map se_id es)"
  by (induction es arbitrary: ids) (auto simp: entity_ok_def image_iff)

lemma list_ex_keys: "\<not> list_ex P (bt_keys m) \<longleftrightarrow> (\<forall>k v. bt_get m k = Some v \<longrightarrow> \<not> P k)"
  by (auto simp: list_ex_iff)

lemma dom_subset_iff: "dom (bt_get m) \<subseteq> A \<longleftrightarrow> (\<forall>k v. bt_get m k = Some v \<longrightarrow> k \<in> A)"
  by auto

lemma list_ex_entries: "\<not> list_ex P (entries m) \<longleftrightarrow> (\<forall>k v. bt_get m k = Some v \<longrightarrow> \<not> P (k, v))"
  by (auto simp: list_ex_iff in_entries_iff)

lemma with_loot_tables_wf:
  assumes "with_loot_tables es respawns rewards intervals ranges npcs loots = Ok c"
  shows "spawns_wf c \<and> sc_entities c = es \<and> length es \<le> max_tfs_static_spawns"
proof -
  from assms obtain ids where ids: "check_entities es bt_empty = Ok ids"
    by (auto simp: with_loot_tables_def split: if_splits)
  from ids have mem: "bt_mem i ids \<longleftrightarrow> i \<in> se_id ` set es" for i
    by (auto simp: check_entities_Ok bt_mem_bs_fold)
  from ids have ents: "\<forall>e \<in> set es. entity_ok e" "distinct (map se_id es)"
    by (auto simp: check_entities_Ok)
  from assms ids have checks:
    "length es \<le> max_tfs_static_spawns"
    "\<not> list_ex (\<lambda>i. \<not> bt_mem i ids) (bt_keys respawns)"
    "\<not> list_ex (\<lambda>i. \<not> bt_mem i ids) (bt_keys rewards)"
    "\<not> list_ex (\<lambda>(i, n). \<not> bt_mem i ids \<or> n = 0) (entries intervals)"
    "\<not> list_ex (\<lambda>(i, r). \<not> bt_mem i ids \<or> min_damage r > max_damage r) (entries ranges)"
    "\<not> list_ex (\<lambda>i. \<not> bt_mem i ids) (bt_keys npcs)"
    "\<not> list_ex (\<lambda>(i, loot). \<not> bt_mem i ids \<or> bt_mem i npcs \<or>
       length loot > max_static_loot_entries \<or> list_ex (\<lambda>e. \<not> loot_entry_ok e) loot) (entries loots)"
    and c: "c = \<lparr>sc_entities = es, sc_respawn_intervals = respawns,
                 sc_experience_rewards = rewards, sc_melee_intervals = intervals,
                 sc_damage_ranges = ranges, sc_melee_conditions = bt_empty,
                 sc_loot_tables = loots, sc_npc_ids = npcs, sc_spawn_areas = bt_empty\<rparr>"
    by (simp_all add: with_loot_tables_def split: if_splits)
  note k = checks(2-) [unfolded list_ex_keys list_ex_entries mem not_less]
  have "spawns_wf c"
    unfolding spawns_wf_def Let_def c spawn_collection.select_convs set_map dom_subset_iff
    using k ents by (auto simp: list_ex_iff not_less simp flip: bt_mem_iff)
  with c checks(1) show ?thesis by simp
qed

lemma entity_ids_mem [simp]: "bt_mem i (entity_ids c) \<longleftrightarrow> i \<in> se_id ` set (sc_entities c)"
  by (simp add: entity_ids_def)

lemma attach_keys:
  assumes "\<not> list_ex (\<lambda>i. \<not> bt_mem i (entity_ids c) \<or> bt_mem i (sc_npc_ids c)) (bt_keys areas)"
  shows "dom (bt_get areas) \<subseteq> set (map se_id (sc_entities c)) - dom (bt_get (sc_npc_ids c))"
  using assms unfolding list_ex_keys dom_subset_iff by (auto simp flip: bt_mem_iff)

lemma with_monster_spawn_areas_wf:
  assumes "with_monster_spawn_areas areas c = Ok c'" and "spawns_wf c"
  shows "spawns_wf c' \<and> sc_spawn_areas c' = areas"
proof -
  have c': "c' = c\<lparr>sc_spawn_areas := areas\<rparr>"
    and "\<not> list_ex (\<lambda>i. \<not> bt_mem i (entity_ids c) \<or> bt_mem i (sc_npc_ids c)) (bt_keys areas)"
    using assms(1) by (simp_all add: with_monster_spawn_areas_def split: if_splits)
  from attach_keys [OF this(2)] assms(2) show ?thesis
    by (simp add: c' spawns_wf_def Let_def)
qed

lemma with_melee_conditions_wf:
  assumes "with_melee_conditions conds c = Ok c'" and "spawns_wf c"
  shows "spawns_wf c' \<and> sc_melee_conditions c' = conds"
proof -
  have c': "c' = c\<lparr>sc_melee_conditions := conds\<rparr>"
    and "\<not> list_ex (\<lambda>i. \<not> bt_mem i (entity_ids c) \<or> bt_mem i (sc_npc_ids c)) (bt_keys conds)"
    using assms(1) by (simp_all add: with_melee_conditions_def split: if_splits)
  from attach_keys [OF this(2)] assms(2) show ?thesis
    by (simp add: c' spawns_wf_def Let_def)
qed

section \<open>Merging templates\<close>

lemma dom_copy_entry: "dom (bt_get (copy_entry i src dst)) \<subseteq> insert i (dom (bt_get dst))"
  by (auto simp: copy_entry_def split: option.splits)

lemma get_copy_entry:
  "bt_get (copy_entry i src dst) j =
     (if j = i \<and> bt_mem i src then bt_get src i else bt_get dst j)"
  by (auto simp: copy_entry_def bt_mem_def split: option.splits)

lemma copy_entry_dom:
  assumes "dom (bt_get dst) \<subseteq> A - N" and "dom (bt_get src) \<subseteq> M" and "i \<notin> N"
  shows "dom (bt_get (copy_entry i src dst)) \<subseteq> insert i A - N"
  using assms dom_copy_entry [of i src dst] by blast

lemma copy_entry_all:
  assumes "\<forall>j v. bt_get dst j = Some v \<longrightarrow> P v" and "\<forall>j v. bt_get src j = Some v \<longrightarrow> P v"
  shows "\<forall>j v. bt_get (copy_entry i src dst) j = Some v \<longrightarrow> P v"
  using assms by (auto simp: get_copy_entry split: if_splits)

lemma add_template_wf:
  assumes "spawns_wf c" and "spawns_wf ts" and "t \<in> set (sc_entities ts)"
    and "se_id t \<notin> se_id ` set (sc_entities c)"
  shows "spawns_wf (add_template ts t c)"
proof -
  note c = assms(1) [unfolded spawns_wf_def Let_def] and ts = assms(2) [unfolded spawns_wf_def Let_def]
  let ?A = "set (map se_id (sc_entities c))" and ?N = "dom (bt_get (sc_npc_ids c))"
  let ?T = "set (map se_id (sc_entities ts))"
  have i: "se_id t \<notin> ?N" and N: "?N \<subseteq> ?A" using c assms(4) by auto
  have ids: "set (map se_id (sc_entities (add_template ts t c))) = insert (se_id t) ?A"
    by (simp add: add_template_def)
  have npc: "sc_npc_ids (add_template ts t c) = sc_npc_ids c"
    by (simp add: add_template_def)
  have ents: "distinct (map se_id (sc_entities (add_template ts t c)))"
    "\<forall>e \<in> set (sc_entities (add_template ts t c)). entity_ok e"
    using c ts assms(3,4) by (auto simp: add_template_def)
  have vals: "\<forall>i n. bt_get (sc_melee_intervals (add_template ts t c)) i = Some n \<longrightarrow> 0 < n"
    "\<forall>i r. bt_get (sc_damage_ranges (add_template ts t c)) i = Some r \<longrightarrow> min_damage r \<le> max_damage r"
    "\<forall>i l. bt_get (sc_loot_tables (add_template ts t c)) i = Some l \<longrightarrow>
       length l \<le> max_static_loot_entries \<and> (\<forall>e \<in> set l. loot_entry_ok e)"
    unfolding add_template_def using c ts by (simp_all add: get_copy_entry)
  show ?thesis
    unfolding spawns_wf_def Let_def ids npc
    using c [unfolded dom_subset_iff] i N ents vals
    unfolding dom_subset_iff by (simp add: add_template_def get_copy_entry)
qed

text \<open>Imported spawns win: the merged collection is the old one followed by the templates whose
  identifier and name are new.\<close>

lemma extend_templates_spec:
  fixes lower :: "string \<Rightarrow> string"
  assumes "spawns_wf c" and "spawns_wf ts"
  defines "fresh \<equiv> \<lambda>t. se_id t \<notin> se_id ` set (sc_entities c) \<and>
    lower (se_name t) \<notin> (\<lambda>e. lower (se_name e)) ` set (sc_entities c)"
  shows "\<exists>c'. extend_templates lower ts c = (Ok (), c') \<and> spawns_wf c' \<and>
    sc_entities c' = sc_entities c @ filter fresh (sc_entities ts) \<and> sc_npc_ids c' = sc_npc_ids c"
proof -
  let ?step = "\<lambda>c t. if \<not> fresh t then c else add_template ts t c"
  have "spawns_wf (foldl ?step c xs) \<and> sc_entities (foldl ?step c xs) = sc_entities c @ filter fresh xs \<and>
      sc_npc_ids (foldl ?step c xs) = sc_npc_ids c"
    if "distinct (map se_id xs)" and "set xs \<subseteq> set (sc_entities ts)" for xs
    using that
  proof (induction xs rule: rev_induct)
    case Nil
    then show ?case using assms(1) by simp
  next
    case (snoc t xs)
    let ?c = "foldl ?step c xs"
    from snoc have ih: "spawns_wf ?c" "sc_entities ?c = sc_entities c @ filter fresh xs"
      "sc_npc_ids ?c = sc_npc_ids c" by auto
    show ?case
    proof (cases "fresh t")
      case True
      then have "se_id t \<notin> se_id ` set (sc_entities ?c)"
        using snoc.prems(1) unfolding ih(2) by (auto simp: fresh_def)
      with ih snoc.prems True add_template_wf [OF ih(1) assms(2), of t] show ?thesis
        by (simp add: add_template_def)
    next
      case False
      with ih show ?thesis by simp
    qed
  qed
  moreover have "distinct (map se_id (sc_entities ts))"
    using assms(2) by (simp add: spawns_wf_def Let_def)
  ultimately have "spawns_wf (foldl ?step c (sc_entities ts)) \<and>
      sc_entities (foldl ?step c (sc_entities ts)) = sc_entities c @ filter fresh (sc_entities ts) \<and>
      sc_npc_ids (foldl ?step c (sc_entities ts)) = sc_npc_ids c"
    by blast
  moreover have "extend_templates lower ts c = (Ok (), foldl ?step c (sc_entities ts))"
    by (simp add: extend_templates_def Let_def fresh_def image_image)
  ultimately show ?thesis by blast
qed

end
