(* ===== verification/World.thy ===== *)
theory World
  imports Items Progression Rules Static_Spawns
begin

text \<open>
  The authoritative state \<open>WorldState\<close> of \<open>crates/forgotten-core/src/lib.rs\<close>: one field per
  field of the source, its clock and revision, the per-player accessors and replacements, the
  experience award and the interaction intent. A method on \<open>&self\<close> is a function of the world,
  one on \<open>&mut self\<close> returns its result and the world it leaves.

  \<open>world_wf\<close> is the registration invariant the accessors rely on: every per-player table has
  an entry for exactly the registered players.
\<close>

section \<open>State\<close>

record trade_reference =
  tr_container :: nat
  tr_index :: nat

record trade_session =
  ts_initiator :: nat
  ts_counterparty :: nat
  ts_initiator_items :: "trade_reference list"
  ts_counterparty_items :: "trade_reference list"
  ts_initiator_accepted :: bool
  ts_counterparty_accepted :: bool
  ts_tick_opened :: nat

record world_state =
  players :: "(nat, player) btmap"
  w_vitals :: "(nat, player_vitals) btmap"
  w_progressions :: "(nat, player_progression) btmap"
  w_attempts :: "(nat, progression_attempts) btmap"
  w_towns :: "(nat, nat) btmap"
  w_regen :: "(nat, regeneration_schedule) btmap"
  w_food :: "(nat, food_window) btmap"
  w_god :: "nat btset"
  w_invisible :: "nat btset"
  w_conditions :: "(nat, condition_set) btmap"
  w_respawn :: "(nat, respawn_state) btmap"
  w_equipments :: "(nat, player_equipment) btmap"
  w_containers :: "(nat, player_containers) btmap"
  w_defenses :: "(nat, nat) btmap"
  w_fight_modes :: "(nat, fight_mode_state) btmap"
  w_combat_cooldowns :: "(nat, nat) btmap"
  w_spell_cooldowns :: "(nat, nat) btmap"
  w_interactions :: "(nat, interaction_intent) btmap"
  w_frags :: "(nat, nat) btmap"
  party_leaders :: "nat btset"
  party_memberships :: "(nat, nat) btmap"
  party_invitations :: "(nat, nat btset) btmap"
  party_shared_requested :: "nat btset"
  party_activity :: "(nat, nat) btmap"
  creatures :: "(nat, creature_runtime) btmap"
  occupied :: "position btset"
  trades :: "(nat, trade_session) btmap"
  tick :: nat
  revision :: nat

text \<open>\<open>WorldState::default()\<close>.\<close>

definition empty_world :: world_state where
  "empty_world =
     \<lparr>players = bt_empty, w_vitals = bt_empty, w_progressions = bt_empty, w_attempts = bt_empty,
      w_towns = bt_empty, w_regen = bt_empty, w_food = bt_empty, w_god = bt_empty,
      w_invisible = bt_empty, w_conditions = bt_empty, w_respawn = bt_empty,
      w_equipments = bt_empty, w_containers = bt_empty, w_defenses = bt_empty,
      w_fight_modes = bt_empty, w_combat_cooldowns = bt_empty, w_spell_cooldowns = bt_empty,
      w_interactions = bt_empty, w_frags = bt_empty, party_leaders = bt_empty,
      party_memberships = bt_empty, party_invitations = bt_empty,
      party_shared_requested = bt_empty, party_activity = bt_empty, creatures = bt_empty,
      occupied = bt_empty, trades = bt_empty, tick = 0, revision = 0\<rparr>"

text \<open>A method on \<open>&mut self\<close>.\<close>

type_synonym 'a action = "world_state \<Rightarrow> 'a result \<times> world_state"

section \<open>Clock and revision\<close>

definition mark_changed :: "world_state \<Rightarrow> world_state" where
  "mark_changed w = w\<lparr>revision := sat_add u64_max (revision w) 1\<rparr>"

definition advance_ticks :: "nat \<Rightarrow> world_state \<Rightarrow> nat \<times> world_state" where
  "advance_ticks elapsed w =
     (if elapsed = 0 then (tick w, w)
      else (let w1 = mark_changed (w\<lparr>tick := sat_add u64_max (tick w) elapsed\<rparr>) in (tick w1, w1)))"

definition advance_tick :: "world_state \<Rightarrow> nat \<times> world_state" where
  "advance_tick w = advance_ticks 1 w"

section \<open>Accessors\<close>

definition lookup :: "(nat, 'v) btmap \<Rightarrow> nat \<Rightarrow> 'v result" where
  "lookup m p = ok_or (bt_get m p) (unknown_player p)"

definition player_vitals :: "world_state \<Rightarrow> nat \<Rightarrow> player_vitals result" where
  "player_vitals w p = lookup (w_vitals w) p"

definition player_combat_cooldown :: "world_state \<Rightarrow> nat \<Rightarrow> nat result" where
  "player_combat_cooldown w p = lookup (w_combat_cooldowns w) p"

definition player_spell_cooldown :: "world_state \<Rightarrow> nat \<Rightarrow> nat result" where
  "player_spell_cooldown w p = lookup (w_spell_cooldowns w) p"

definition player_combat_defense :: "world_state \<Rightarrow> nat \<Rightarrow> nat result" where
  "player_combat_defense w p = lookup (w_defenses w) p"

definition player_fight_mode_state :: "world_state \<Rightarrow> nat \<Rightarrow> fight_mode_state result" where
  "player_fight_mode_state w p = lookup (w_fight_modes w) p"

definition player_progression :: "world_state \<Rightarrow> nat \<Rightarrow> player_progression result" where
  "player_progression w p = lookup (w_progressions w) p"

definition player_progression_attempts :: "world_state \<Rightarrow> nat \<Rightarrow> progression_attempts result" where
  "player_progression_attempts w p = lookup (w_attempts w) p"

definition player_equipment :: "world_state \<Rightarrow> nat \<Rightarrow> player_equipment result" where
  "player_equipment w p = lookup (w_equipments w) p"

definition player_containers :: "world_state \<Rightarrow> nat \<Rightarrow> player_containers result" where
  "player_containers w p = lookup (w_containers w) p"

definition player_respawn_state :: "world_state \<Rightarrow> nat \<Rightarrow> respawn_state result" where
  "player_respawn_state w p = lookup (w_respawn w) p"

lemmas accessor_defs =
  lookup_def player_vitals_def player_combat_cooldown_def player_spell_cooldown_def
  player_combat_defense_def player_fight_mode_state_def player_progression_def
  player_progression_attempts_def player_equipment_def player_containers_def
  player_respawn_state_def

text \<open>The early return of most methods.\<close>

definition require_player :: "nat \<Rightarrow> world_state \<Rightarrow> unit result" where
  "require_player p w = (if bt_mem p (players w) then Ok () else Inl (unknown_player p))"

lemma require_player_iff [simp]:
  "require_player p w = Ok u \<longleftrightarrow> bt_mem p (players w)"
  "require_player p w = Inl e \<longleftrightarrow> \<not> bt_mem p (players w) \<and> e = unknown_player p"
  by (auto simp: require_player_def)

section \<open>Replacements\<close>

definition replace_player_fight_mode_state :: "nat \<Rightarrow> fight_mode_state \<Rightarrow> bool action" where
  "replace_player_fight_mode_state p st w =
     attempt w (require_player p w) (\<lambda>_.
     attempt w (player_fight_mode_state w p) (\<lambda>old.
       if old = st then (Ok False, w)
       else (Ok True, mark_changed (w\<lparr>w_fight_modes := bt_insert p st (w_fight_modes w)\<rparr>))))"

definition replace_player_combat_defense :: "nat \<Rightarrow> nat \<Rightarrow> bool action" where
  "replace_player_combat_defense p df w =
     attempt w (require_player p w) (\<lambda>_.
       if df > max_combat_event_damage then (Inl (rule_fault InvalidCombatDefense), w)
       else attempt w (player_combat_defense w p) (\<lambda>old.
         if old = df then (Ok False, w)
         else (Ok True, mark_changed (w\<lparr>w_defenses := bt_insert p df (w_defenses w)\<rparr>))))"

text \<open>The arrays of tries are compared element by element.\<close>

definition replace_player_progression_attempts :: "nat \<Rightarrow> progression_attempts \<Rightarrow> bool action" where
  "replace_player_progression_attempts p att w =
     attempt w (require_player p w) (\<lambda>_.
     attempt w (player_progression_attempts w p) (\<lambda>old.
       if old = att then (Ok False, w)
       else (Ok True, mark_changed (w\<lparr>w_attempts := bt_insert p att (w_attempts w)\<rparr>))))"

definition replace_player_equipment :: "nat \<Rightarrow> player_equipment \<Rightarrow> bool action" where
  "replace_player_equipment p eq w =
     attempt w (require_player p w) (\<lambda>_.
     attempt w (player_equipment w p) (\<lambda>old.
       if old = eq then (Ok False, w)
       else (Ok True, mark_changed (w\<lparr>w_equipments := bt_insert p eq (w_equipments w)\<rparr>))))"

definition replace_player_containers :: "nat \<Rightarrow> player_containers \<Rightarrow> bool action" where
  "replace_player_containers p cs w =
     attempt w (require_player p w) (\<lambda>_.
     attempt w (player_containers w p) (\<lambda>old.
       if old = cs then (Ok False, w)
       else (Ok True, mark_changed (w\<lparr>w_containers := bt_insert p cs (w_containers w)\<rparr>))))"

definition replace_player_containers_quiet :: "nat \<Rightarrow> player_containers \<Rightarrow> bool action" where
  "replace_player_containers_quiet p cs w =
     attempt w (require_player p w) (\<lambda>_.
     attempt w (player_containers w p) (\<lambda>old.
       if old = cs then (Ok False, w)
       else (Ok True, w\<lparr>w_containers := bt_insert p cs (w_containers w)\<rparr>)))"

section \<open>Experience awards\<close>

record award_outcome =
  ao_player :: nat
  ao_raw :: nat
  ao_awarded :: nat
  ao_experience :: nat
  ao_level :: nat
  ao_gained_levels :: nat
  ao_vitals :: player_vitals

definition award_player_experience_with_vocation_gains ::
  "nat \<Rightarrow> nat \<Rightarrow> award_policy \<Rightarrow> level_up_gains \<Rightarrow> award_outcome action" where
  "award_player_experience_with_vocation_gains p raw pol gains w =
     attempt w (player_vitals w p) (\<lambda>cur.
     attempt w (lookup (players w) p) (\<lambda>pl.
       let awarded = award_for pol (pl_level pl) raw;
           pl1 = (if awarded > 0 then add_experience awarded pl else pl);
           gained = pl_level pl1 - pl_level pl;
           vit = apply_gains gains cur gained;
           w1 = w\<lparr>players := bt_insert p pl1 (players w)\<rparr>;
           w2 = (if gained > 0 then w1\<lparr>w_vitals := bt_insert p vit (w_vitals w1)\<rparr> else w1);
           w3 = (if awarded > 0 then mark_changed w2 else w2)
       in (Ok \<lparr>ao_player = p, ao_raw = raw, ao_awarded = awarded, ao_experience = pl_experience pl1,
               ao_level = pl_level pl1, ao_gained_levels = gained, ao_vitals = vit\<rparr>, w3)))"

definition no_gains :: level_up_gains where
  "no_gains = \<lparr>gain_health = 0, gain_mana = 0, gain_capacity = 0\<rparr>"

definition award_player_experience :: "nat \<Rightarrow> nat \<Rightarrow> award_policy \<Rightarrow> award_outcome action" where
  "award_player_experience p raw pol w =
     award_player_experience_with_vocation_gains p raw pol no_gains w"

section \<open>Interaction intent\<close>

definition player_interaction_intent :: "world_state \<Rightarrow> nat \<Rightarrow> interaction_intent result" where
  "player_interaction_intent w p =
     rbind (require_player p w) (\<lambda>_.
       Ok (case bt_get (w_interactions w) p of None \<Rightarrow> default_intent | Some i \<Rightarrow> i))"

text \<open>The end of both setters: a default intent is not stored, and an unchanged one does not
  count as a change.\<close>

definition store_intent ::
  "nat \<Rightarrow> interaction_intent \<Rightarrow> interaction_intent \<Rightarrow> interaction_intent action" where
  "store_intent p previous intent w =
     (let w1 = w\<lparr>w_interactions := bt_insert p intent (w_interactions w)\<rparr>;
          w2 = (if intent = default_intent
                then w1\<lparr>w_interactions := bt_remove p (w_interactions w1)\<rparr> else w1)
      in (Ok intent, if previous \<noteq> intent then mark_changed w2 else w2))"

definition set_player_interaction ::
  "nat \<Rightarrow> nat option \<Rightarrow> nat option \<Rightarrow> bool \<Rightarrow> interaction_intent action" where
  "set_player_interaction p target follow replace_target w =
     attempt w (require_player p w) (\<lambda>_.
     attempt w (player_interaction_intent w p) (\<lambda>previous.
       let selected = (if replace_target then target else follow)
       in attempt w
            (case selected of
               None \<Rightarrow> Ok ()
             | Some q \<Rightarrow>
                 rbind (player_respawn_state w p) (\<lambda>rs.
                   if dead rs then Inl (player_fault (PlayerIsDead p))
                   else if q = p then Inl (player_fault (SelfInteractionNotAllowed p))
                   else rbind (require_player q w) (\<lambda>_.
                     rbind (player_respawn_state w q) (\<lambda>rq.
                       if dead rq then Inl (player_fault (SelectedPlayerIsDead q)) else Ok ()))))
            (\<lambda>_. store_intent p previous
               (if replace_target
                then previous\<lparr>target_player := target, target_static := None\<rparr>
                else previous\<lparr>follow_player := follow, target_static := None\<rparr>) w)))"

definition set_player_target :: "nat \<Rightarrow> nat option \<Rightarrow> interaction_intent action" where
  "set_player_target p target = set_player_interaction p target None True"

definition set_player_follow :: "nat \<Rightarrow> nat option \<Rightarrow> interaction_intent action" where
  "set_player_follow p follow = set_player_interaction p None follow False"

definition unknown_creature :: "nat \<Rightarrow> fault" where
  "unknown_creature c = static_fault (UnknownStaticCreature c)"

definition set_player_static_target :: "nat \<Rightarrow> nat option \<Rightarrow> interaction_intent action" where
  "set_player_static_target p target w =
     attempt w (require_player p w) (\<lambda>_.
     attempt w
       (case target of
          None \<Rightarrow> Ok ()
        | Some c \<Rightarrow>
            rbind (player_respawn_state w p) (\<lambda>rs.
              if dead rs then Inl (player_fault (PlayerIsDead p))
              else rbind (ok_or (bt_get (creatures w) c) (unknown_creature c)) (\<lambda>rt.
                if \<not> cr_active rt then Inl (static_fault (InactiveStaticCreature c)) else Ok ())))
       (\<lambda>_. attempt w (player_interaction_intent w p) (\<lambda>previous.
          store_intent p previous
            \<lparr>target_player = None, target_static = target, follow_player = None\<rparr> w)))"

section \<open>The world invariant\<close>

text \<open>A per-player table has an entry for exactly the registered players.\<close>

definition tracks :: "nat set \<Rightarrow> (nat, 'v) btmap \<Rightarrow> bool" where
  "tracks D m \<longleftrightarrow> dom (bt_get m) = D"

definition vitals_ok :: "player_vitals \<Rightarrow> bool" where
  "vitals_ok v \<longleftrightarrow> vitals_is_valid v \<and> max_health v \<le> u16_max \<and> max_mana v \<le> u16_max"

definition all_vals :: "('v \<Rightarrow> bool) \<Rightarrow> (nat, 'v) btmap \<Rightarrow> bool" where
  "all_vals P m \<longleftrightarrow> (\<forall>p v. bt_get m p = Some v \<longrightarrow> P v)"

text \<open>A living player has the empty lifecycle state, a dead one knows where and since when.\<close>

definition respawn_ok :: "respawn_state \<Rightarrow> bool" where
  "respawn_ok rs \<longleftrightarrow>
     (if dead rs then respawn_at rs \<noteq> None \<and> death_time rs \<noteq> None else rs = default_respawn)"

definition players_wf :: "(nat, player) btmap \<Rightarrow> bool" where
  "players_wf m \<longleftrightarrow> (\<forall>p pl. bt_get m p = Some pl \<longrightarrow> pl_id pl = p)"

text \<open>A stored intent is not the default one, and every player it names is registered and is
  somebody else.\<close>

definition intent_ok :: "nat set \<Rightarrow> nat \<Rightarrow> interaction_intent \<Rightarrow> bool" where
  "intent_ok D p i \<longleftrightarrow> p \<in> D \<and> i \<noteq> default_intent \<and>
     (\<forall>q. target_player i = Some q \<or> follow_player i = Some q \<longrightarrow> q \<in> D \<and> q \<noteq> p)"

definition intents_wf :: "nat set \<Rightarrow> (nat, interaction_intent) btmap \<Rightarrow> bool" where
  "intents_wf D m \<longleftrightarrow> (\<forall>p i. bt_get m p = Some i \<longrightarrow> intent_ok D p i)"

definition condition_set_wf :: "condition_set \<Rightarrow> bool" where
  "condition_set_wf cs \<longleftrightarrow> (\<forall>k c. bt_get cs k = Some c \<longrightarrow> cond_kind c = k \<and> condition_wf c)"

definition party_wf ::
  "nat set \<Rightarrow> nat btset \<Rightarrow> (nat, nat) btmap \<Rightarrow> (nat, nat btset) btmap \<Rightarrow> nat btset \<Rightarrow>
     (nat, nat) btmap \<Rightarrow> bool" where
  "party_wf D L M I R A \<longleftrightarrow>
     (\<forall>p. bt_mem p L \<longrightarrow> p \<in> D) \<and>
     (\<forall>p l. bt_get M p = Some l \<longrightarrow> p \<in> D \<and> bt_mem l L \<and> \<not> bt_mem p L) \<and>
     (\<forall>p S. bt_get I p = Some S \<longrightarrow> p \<in> D \<and> S \<noteq> bt_empty \<and> (\<forall>l. bt_mem l S \<longrightarrow> bt_mem l L)) \<and>
     (\<forall>p. bt_mem p R \<longrightarrow> bt_mem p L) \<and>
     (\<forall>p. bt_mem p A \<longrightarrow> p \<in> D)"

text \<open>An active creature waits for nothing, an inactive one has no target, a target is a
  registered player.\<close>

definition creature_ok :: "nat set \<Rightarrow> nat \<Rightarrow> creature_runtime \<Rightarrow> bool" where
  "creature_ok D c rt \<longleftrightarrow>
     se_id (cr_entity rt) = c \<and> cr_health_percent rt \<le> 100 \<and>
     se_health_percent (cr_entity rt) \<le> 100 \<and>
     (\<forall>r. cr_damage_range rt = Some r \<longrightarrow> min_damage r \<le> max_damage r) \<and>
     (\<forall>e \<in> set (cr_loot rt). loot_entry_ok e) \<and>
     (if cr_active rt then cr_inactive_since rt = None \<and> cr_reactivation_due rt = None
      else cr_target rt = None) \<and>
     (\<forall>q. cr_target rt = Some q \<longrightarrow> q \<in> D)"

definition all_creatures_ok :: "nat set \<Rightarrow> (nat, creature_runtime) btmap \<Rightarrow> bool" where
  "all_creatures_ok D m \<longleftrightarrow> (\<forall>c rt. bt_get m c = Some rt \<longrightarrow> creature_ok D c rt)"

text \<open>The occupancy index holds the positions of the active creatures.\<close>

definition active_at :: "(nat, creature_runtime) btmap \<Rightarrow> position \<Rightarrow> bool" where
  "active_at m q \<longleftrightarrow>
     (\<exists>c rt. bt_get m c = Some rt \<and> cr_active rt \<and> se_position (cr_entity rt) = q)"

definition occupancy_wf :: "(nat, creature_runtime) btmap \<Rightarrow> position btset \<Rightarrow> bool" where
  "occupancy_wf m occ \<longleftrightarrow> (\<forall>q. bt_mem q occ \<longleftrightarrow> active_at m q)"

abbreviation registered :: "world_state \<Rightarrow> nat set" where
  "registered w \<equiv> dom (bt_get (players w))"

definition world_wf :: "world_state \<Rightarrow> bool" where
  "world_wf w \<longleftrightarrow>
     players_wf (players w) \<and>
     tracks (registered w) (w_vitals w) \<and> tracks (registered w) (w_progressions w) \<and>
     tracks (registered w) (w_attempts w) \<and> tracks (registered w) (w_towns w) \<and>
     tracks (registered w) (w_regen w) \<and> tracks (registered w) (w_conditions w) \<and>
     tracks (registered w) (w_respawn w) \<and> tracks (registered w) (w_equipments w) \<and>
     tracks (registered w) (w_containers w) \<and> tracks (registered w) (w_defenses w) \<and>
     tracks (registered w) (w_fight_modes w) \<and> tracks (registered w) (w_combat_cooldowns w) \<and>
     tracks (registered w) (w_spell_cooldowns w) \<and>
     all_vals respawn_ok (w_respawn w) \<and>
     all_vals vitals_ok (w_vitals w) \<and> all_vals condition_set_wf (w_conditions w) \<and>
     all_vals equipment_wf (w_equipments w) \<and> all_vals containers_wf (w_containers w) \<and>
     intents_wf (registered w) (w_interactions w) \<and>
     party_wf (registered w) (party_leaders w) (party_memberships w) (party_invitations w)
       (party_shared_requested w) (party_activity w) \<and>
     all_creatures_ok (registered w) (creatures w) \<and> occupancy_wf (creatures w) (occupied w)"

lemma dom_bt_get_empty [simp]: "dom (bt_get bt_empty) = {}"
  by (simp add: dom_def)

lemma world_wf_empty: "world_wf empty_world"
  by (simp add: world_wf_def empty_world_def players_wf_def tracks_def all_vals_def intents_wf_def
      party_wf_def all_creatures_ok_def occupancy_wf_def active_at_def)

section \<open>What the invariant gives and what keeps it\<close>

lemma tracks_get: "tracks D m \<Longrightarrow> p \<in> D \<Longrightarrow> \<exists>v. bt_get m p = Some v"
  by (auto simp: tracks_def)

lemma tracks_insert [simp]: "tracks D m \<Longrightarrow> p \<in> D \<Longrightarrow> tracks D (bt_insert p v m)"
  by (auto simp: tracks_def insert_absorb)

lemma all_vals_insert [simp]: "all_vals P m \<Longrightarrow> P v \<Longrightarrow> all_vals P (bt_insert p v m)"
  by (auto simp: all_vals_def bt_get_insert)

lemma all_vals_get: "all_vals P m \<Longrightarrow> bt_get m p = Some v \<Longrightarrow> P v"
  by (auto simp: all_vals_def)

text \<open>Updates of single fields; the conditional rules are collected in \<open>world_simps\<close>.\<close>

named_theorems world_simps

lemma world_wf_mark [simp]: "world_wf (mark_changed w) \<longleftrightarrow> world_wf w"
  by (simp add: world_wf_def mark_changed_def)

lemma world_wf_tick [simp]: "world_wf (w\<lparr>tick := t\<rparr>) \<longleftrightarrow> world_wf w"
  by (simp add: world_wf_def)

lemma world_wf_tables [world_simps]:
  assumes "world_wf w"
  shows "tracks (registered w) (w_vitals w)" "tracks (registered w) (w_progressions w)"
    "tracks (registered w) (w_attempts w)" "tracks (registered w) (w_towns w)"
    "tracks (registered w) (w_regen w)" "tracks (registered w) (w_conditions w)"
    "tracks (registered w) (w_respawn w)" "tracks (registered w) (w_equipments w)"
    "tracks (registered w) (w_containers w)" "tracks (registered w) (w_defenses w)"
    "tracks (registered w) (w_fight_modes w)" "tracks (registered w) (w_combat_cooldowns w)"
    "tracks (registered w) (w_spell_cooldowns w)"
    "all_vals vitals_ok (w_vitals w)" "all_vals condition_set_wf (w_conditions w)"
    "all_vals respawn_ok (w_respawn w)" "all_vals equipment_wf (w_equipments w)"
    "all_vals containers_wf (w_containers w)" "intents_wf (registered w) (w_interactions w)"
  using assms unfolding world_wf_def by simp_all

lemma world_wf_update [world_simps]:
  assumes "world_wf w"
  shows "tracks (registered w) a \<Longrightarrow> world_wf (w\<lparr>w_progressions := a\<rparr>)"
    and "tracks (registered w) b \<Longrightarrow> world_wf (w\<lparr>w_attempts := b\<rparr>)"
    and "tracks (registered w) c \<Longrightarrow> world_wf (w\<lparr>w_towns := c\<rparr>)"
    and "tracks (registered w) d \<Longrightarrow> world_wf (w\<lparr>w_regen := d\<rparr>)"
    and "tracks (registered w) f \<Longrightarrow> world_wf (w\<lparr>w_defenses := f\<rparr>)"
    and "tracks (registered w) g \<Longrightarrow> world_wf (w\<lparr>w_fight_modes := g\<rparr>)"
    and "tracks (registered w) h \<Longrightarrow> world_wf (w\<lparr>w_combat_cooldowns := h\<rparr>)"
    and "tracks (registered w) i \<Longrightarrow> world_wf (w\<lparr>w_spell_cooldowns := i\<rparr>)"
    and "tracks (registered w) e \<Longrightarrow> all_vals respawn_ok e \<Longrightarrow> world_wf (w\<lparr>w_respawn := e\<rparr>)"
    and "tracks (registered w) v \<Longrightarrow> all_vals vitals_ok v \<Longrightarrow> world_wf (w\<lparr>w_vitals := v\<rparr>)"
    and "tracks (registered w) eq \<Longrightarrow> all_vals equipment_wf eq \<Longrightarrow> world_wf (w\<lparr>w_equipments := eq\<rparr>)"
    and "tracks (registered w) cs \<Longrightarrow> all_vals containers_wf cs \<Longrightarrow> world_wf (w\<lparr>w_containers := cs\<rparr>)"
    and "tracks (registered w) cd \<Longrightarrow> all_vals condition_set_wf cd \<Longrightarrow> world_wf (w\<lparr>w_conditions := cd\<rparr>)"
    and "intents_wf (registered w) m \<Longrightarrow> world_wf (w\<lparr>w_interactions := m\<rparr>)"
  using assms unfolding world_wf_def by simp_all

lemma world_wf_vitals:
  "world_wf w \<Longrightarrow> p \<in> registered w \<Longrightarrow> vitals_ok v \<Longrightarrow> world_wf (w\<lparr>w_vitals := bt_insert p v (w_vitals w)\<rparr>)"
  by (simp add: world_simps)

lemma world_wf_free [simp]:
  "world_wf (w\<lparr>w_food := a\<rparr>) \<longleftrightarrow> world_wf w"
  "world_wf (w\<lparr>w_god := b\<rparr>) \<longleftrightarrow> world_wf w"
  "world_wf (w\<lparr>w_invisible := c\<rparr>) \<longleftrightarrow> world_wf w"
  "world_wf (w\<lparr>w_frags := d\<rparr>) \<longleftrightarrow> world_wf w"
  "world_wf (w\<lparr>trades := e\<rparr>) \<longleftrightarrow> world_wf w"
  by (simp_all add: world_wf_def)

lemma world_wf_player:
  assumes "world_wf w" and "p \<in> registered w" and "pl_id pl = p"
  shows "world_wf (w\<lparr>players := bt_insert p pl (players w)\<rparr>)"
  using assms by (simp add: world_wf_def insert_absorb players_wf_def bt_get_insert)

lemma world_wf_party:
  "world_wf w \<Longrightarrow> party_wf (registered w) L M I R A \<Longrightarrow>
     world_wf (w\<lparr>party_leaders := L, party_memberships := M, party_invitations := I,
       party_shared_requested := R, party_activity := A\<rparr>)"
  by (simp add: world_wf_def)

lemma world_wf_creatures:
  "world_wf w \<Longrightarrow> all_creatures_ok (registered w) m \<Longrightarrow> occupancy_wf m occ \<Longrightarrow>
     world_wf (w\<lparr>creatures := m, occupied := occ\<rparr>)"
  by (simp add: world_wf_def)

text \<open>Lookups under the invariant.\<close>

lemma bt_mem_registered [simp]: "bt_mem p (players w) \<longleftrightarrow> p \<in> registered w"
  by (simp add: bt_mem_iff)

lemma lookup_eq [simp]:
  "lookup m p = Ok v \<longleftrightarrow> bt_get m p = Some v"
  "lookup m p = Inl e \<longleftrightarrow> bt_get m p = None \<and> e = unknown_player p"
  by (auto simp: lookup_def)

lemma world_wf_dom:
  assumes "world_wf w"
  shows "dom (bt_get (w_vitals w)) = registered w" "dom (bt_get (w_progressions w)) = registered w"
    "dom (bt_get (w_attempts w)) = registered w" "dom (bt_get (w_towns w)) = registered w"
    "dom (bt_get (w_regen w)) = registered w" "dom (bt_get (w_conditions w)) = registered w"
    "dom (bt_get (w_respawn w)) = registered w" "dom (bt_get (w_equipments w)) = registered w"
    "dom (bt_get (w_containers w)) = registered w" "dom (bt_get (w_defenses w)) = registered w"
    "dom (bt_get (w_fight_modes w)) = registered w"
    "dom (bt_get (w_combat_cooldowns w)) = registered w"
    "dom (bt_get (w_spell_cooldowns w)) = registered w"
  using assms by (simp_all add: world_wf_def tracks_def)

lemma world_wf_get:
  assumes "world_wf w"
  shows "bt_get (w_vitals w) p = Some v \<Longrightarrow> p \<in> registered w \<and> vitals_ok v"
    and "bt_get (w_conditions w) p = Some cd \<Longrightarrow> p \<in> registered w \<and> condition_set_wf cd"
    and "bt_get (w_equipments w) p = Some eq \<Longrightarrow> p \<in> registered w \<and> equipment_wf eq"
    and "bt_get (w_containers w) p = Some cs \<Longrightarrow> p \<in> registered w \<and> containers_wf cs"
    and "bt_get (players w) p = Some pl \<Longrightarrow> p \<in> registered w \<and> pl_id pl = p"
    and "bt_get (w_interactions w) p = Some i \<Longrightarrow> intent_ok (registered w) p i"
    and "bt_get (creatures w) c = Some rt \<Longrightarrow> creature_ok (registered w) c rt"
    and "bt_get (w_respawn w) p = Some rs \<Longrightarrow> p \<in> registered w \<and> respawn_ok rs"
  using assms world_wf_dom [OF assms]
  by (auto simp: world_wf_def players_wf_def intents_wf_def all_creatures_ok_def dest: all_vals_get)

section \<open>The operations of this theory keep the invariant\<close>

lemma replacements_wf:
  assumes "world_wf w"
  shows "world_wf (snd (replace_player_fight_mode_state p fm w))"
    and "world_wf (snd (replace_player_combat_defense p df w))"
    and "world_wf (snd (replace_player_progression_attempts p att w))"
    and "equipment_wf eq \<Longrightarrow> world_wf (snd (replace_player_equipment p eq w))"
    and "containers_wf cs \<Longrightarrow> world_wf (snd (replace_player_containers p cs w))"
    and "containers_wf cs \<Longrightarrow> world_wf (snd (replace_player_containers_quiet p cs w))"
  unfolding replace_player_fight_mode_state_def replace_player_combat_defense_def
    replace_player_progression_attempts_def replace_player_equipment_def
    replace_player_containers_def replace_player_containers_quiet_def
  by (rule keepsI, intro keeps_intros; use assms in \<open>simp add: world_simps\<close>)+

lemma add_experience_id [simp]: "pl_id (add_experience n pl) = pl_id pl"
  by (simp add: add_experience_def Let_def)

lemma apply_gains_ok: "vitals_ok v \<Longrightarrow> vitals_ok (apply_gains g v n)"
  by (simp add: vitals_ok_def apply_gains_valid apply_gains_bounds)

lemma award_wf:
  assumes "world_wf w"
  shows "world_wf (snd (award_player_experience_with_vocation_gains p raw pol gains w))"
  unfolding award_player_experience_with_vocation_gains_def Let_def player_vitals_def
proof (rule keepsI, intro keeps_intros)
  fix v pl
  assume v: "lookup (w_vitals w) p = Ok v" and pl: "lookup (players w) p = Ok pl"
  let ?pl = "if 0 < award_for pol (pl_level pl) raw then add_experience (award_for pol (pl_level pl) raw) pl else pl"
  let ?w1 = "w\<lparr>players := bt_insert p ?pl (players w)\<rparr>"
  have p: "p \<in> registered w" and id: "pl_id ?pl = p" and ok: "vitals_ok v"
    using assms v pl world_wf_get [OF assms] by auto
  have w1: "world_wf ?w1" by (rule world_wf_player [OF assms p id])
  have "p \<in> registered ?w1" by simp
  note w2 = world_wf_vitals [OF w1 this apply_gains_ok [OF ok], of gains "pl_level ?pl - pl_level pl"]
  let ?w2 = "if 0 < pl_level ?pl - pl_level pl
    then ?w1\<lparr>w_vitals := bt_insert p (apply_gains gains v (pl_level ?pl - pl_level pl)) (w_vitals ?w1)\<rparr> else ?w1"
  have "world_wf ?w2" using w1 w2 by simp
  then show "world_wf (if 0 < award_for pol (pl_level pl) raw then mark_changed ?w2 else ?w2)"
    by (simp only: world_wf_mark split: if_split) simp
qed (use assms in simp_all)

text \<open>What an award does to the player: nothing for a zero award; otherwise the experience
  grows by the award, saturating, and the level is the level of the new total.\<close>

lemma award_Ok:
  assumes "award_player_experience_with_vocation_gains p raw pol gains w = (Ok out, w')"
  obtains pl v where "bt_get (players w) p = Some pl" and "bt_get (w_vitals w) p = Some v"
    and "ao_awarded out = award_for pol (pl_level pl) raw"
    and "bt_get (players w') p =
      Some (if ao_awarded out > 0 then add_experience (ao_awarded out) pl else pl)"
    and "ao_gained_levels out = ao_level out - pl_level pl"
    and "ao_vitals out = apply_gains gains v (ao_gained_levels out)"
    and "bt_get (w_vitals w') p = Some (if ao_gained_levels out > 0 then ao_vitals out else v)"
    and "ao_awarded out = 0 \<Longrightarrow> revision w' = revision w"
  using assms
  by (auto simp: award_player_experience_with_vocation_gains_def Let_def player_vitals_def
      mark_changed_def bt_get_insert)

lemma store_intent_wf:
  assumes "world_wf w" and "i = default_intent \<or> intent_ok (registered w) p i"
  shows "keeps world_wf (store_intent p prev i w)"
  using assms
  by (auto simp: keeps_def store_intent_def Let_def world_wf_def mark_changed_def intents_wf_def bt_get_insert
      bt_get_remove split: if_splits)

lemma interaction_wf:
  assumes "world_wf w"
  shows "world_wf (snd (set_player_interaction p target follow rt w))"
  unfolding set_player_interaction_def Let_def
proof (rule keepsI, intro keeps_intros assms, goal_cases)
  case (1 u prev u')
  then have p: "p \<in> registered w"
    and prev: "prev = default_intent \<or> intent_ok (registered w) p prev"
    using world_wf_get [OF assms] by (auto simp: player_interaction_intent_def split: option.splits)
  have sel: "q \<in> registered w \<and> q \<noteq> p" if "(if rt then target else follow) = Some q" for q
    using 1(3) that by (auto split: option.splits if_splits)
  show ?case
    by (rule store_intent_wf [OF assms])
      (use p prev sel in \<open>auto simp: intent_ok_def default_intent_def split: if_splits\<close>)
qed

lemma set_player_static_target_wf:
  assumes "world_wf w"
  shows "world_wf (snd (set_player_static_target p target w))"
  unfolding set_player_static_target_def
proof (rule keepsI, intro keeps_intros assms, goal_cases)
  case (1 u u' prev)
  show ?case
    by (rule store_intent_wf [OF assms])
      (use 1 in \<open>auto simp: intent_ok_def default_intent_def\<close>)
qed

end
