(* ===== verification/Vitals_Ops.thy ===== *)
theory Vitals_Ops
  imports World
begin

text \<open>
  Vitals, operator flags, food windows, regeneration and skill or magic advancement on the
  world (\<open>crates/forgotten-core/src/world_vitals.rs\<close>). A panic is reported with the world as
  it was before the call.
\<close>

section \<open>Operations\<close>

definition update_player_vitals :: "nat \<Rightarrow> player_vitals \<Rightarrow> unit action" where
  "update_player_vitals p v w =
     (if \<not> vitals_is_valid v then (Inl (player_fault (InvalidPlayerVitals p)), w)
      else attempt w (require_player p w) (\<lambda>_.
        attempt w (player_vitals w p) (\<lambda>old.
          if old = v then (Ok (), w)
          else (Ok (), mark_changed (w\<lparr>w_vitals := bt_insert p v (w_vitals w)\<rparr>)))))"

definition grant_player_food_window :: "nat \<Rightarrow> nat \<Rightarrow> bool action" where
  "grant_player_food_window p seconds w =
     (if seconds = 0 then (Inl (rule_fault InvalidRegenerationInterval), w)
      else attempt w (require_player p w) (\<lambda>_.
        if (case bt_get (w_food w) p of None \<Rightarrow> False | Some fw \<Rightarrow> until_tick fw > tick w)
        then (Ok False, w)
        else (Ok True, mark_changed (w\<lparr>w_food := bt_insert p
               \<lparr>until_tick = sat_add u64_max (tick w) seconds, food_elapsed = 0\<rparr> (w_food w)\<rparr>))))"

definition set_player_god_mode :: "nat \<Rightarrow> bool \<Rightarrow> bool action" where
  "set_player_god_mode p enabled w =
     attempt w (require_player p w) (\<lambda>_.
       (Ok enabled, mark_changed (w\<lparr>w_god :=
          (if enabled then bs_insert p (w_god w) else bt_remove p (w_god w))\<rparr>)))"

definition set_player_invisible :: "nat \<Rightarrow> bool \<Rightarrow> bool action" where
  "set_player_invisible p enabled w =
     attempt w (require_player p w) (\<lambda>_.
       (Ok enabled, mark_changed (w\<lparr>w_invisible :=
          (if enabled then bs_insert p (w_invisible w) else bt_remove p (w_invisible w))\<rparr>)))"

definition player_food_window_remaining_ticks :: "world_state \<Rightarrow> nat \<Rightarrow> nat option" where
  "player_food_window_remaining_ticks w p =
     (case bt_get (w_food w) p of
        None \<Rightarrow> None
      | Some fw \<Rightarrow>
          (case checked_sub (until_tick fw) (tick w) of
             None \<Rightarrow> None
           | Some r \<Rightarrow> if r > 0 then Some r else None))"

record regeneration_outcome =
  ro_player :: nat
  ro_health_gained :: nat
  ro_mana_gained :: nat
  ro_vitals :: player_vitals

text \<open>The fed state: the window after the elapsed period and the health it restores.\<close>

definition feed :: "nat \<Rightarrow> nat \<Rightarrow> nat \<Rightarrow> nat \<Rightarrow> food_window \<Rightarrow> nat \<times> food_window" where
  "feed now elapsed hp max_hp fw =
     (if until_tick fw > now then
        (let total = sat_add u16_max (food_elapsed fw) elapsed;
             intervals = total div food_regeneration_interval_seconds
         in if intervals > 0
            then (min (sat_mul u16_max food_regeneration_health_per_interval intervals) (max_hp - hp),
                  fw\<lparr>food_elapsed := total mod food_regeneration_interval_seconds\<rparr>)
            else (0, fw\<lparr>food_elapsed := total\<rparr>))
      else (0, fw))"

definition feed_player ::
  "nat \<Rightarrow> nat \<Rightarrow> nat \<Rightarrow> nat \<Rightarrow> nat \<Rightarrow> (nat, food_window) btmap \<Rightarrow> nat \<times> (nat, food_window) btmap" where
  "feed_player p now elapsed hp max_hp food =
     (case bt_get food p of
        None \<Rightarrow> (0, food)
      | Some fw \<Rightarrow>
          (let (gained, fw') = feed now elapsed hp max_hp fw in (gained, bt_insert p fw' food)))"

definition apply_player_regeneration ::
  "nat \<Rightarrow> regeneration_rules \<Rightarrow> nat \<Rightarrow> regeneration_outcome action" where
  "apply_player_regeneration p rules elapsed w =
     attempt w (player_vitals w p) (\<lambda>cur.
     attempt w (player_respawn_state w p) (\<lambda>rs.
       if dead rs \<or> elapsed = 0
       then (Ok \<lparr>ro_player = p, ro_health_gained = 0, ro_mana_gained = 0, ro_vitals = cur\<rparr>, w)
       else
         let elapsed = min elapsed max_regeneration_elapsed_seconds
         in attempt w (lookup (w_regen w) p) (\<lambda>sch.
            attempt w (advance_regeneration_schedule (health_elapsed sch)
              (rr_interval (health_rule rules)) elapsed) (\<lambda>(health_events, h_rest).
            attempt w (advance_regeneration_schedule (mana_elapsed sch)
              (rr_interval (mana_rule rules)) elapsed) (\<lambda>(mana_events, m_rest).
              let hg = regeneration_gain (health cur) (max_health cur) (rr_amount (health_rule rules)) health_events;
                  mg = regeneration_gain (mana cur) (max_mana cur) (rr_amount (mana_rule rules)) mana_events;
                  health1 = sat_add u16_max (health cur) hg;
                  (fg, food) = feed_player p (tick w) elapsed health1 (max_health cur) (w_food w);
                  vit = cur\<lparr>health := sat_add u16_max health1 fg, mana := sat_add u16_max (mana cur) mg\<rparr>;
                  w1 = w\<lparr>w_regen := bt_insert p \<lparr>health_elapsed = h_rest, mana_elapsed = m_rest\<rparr> (w_regen w),
                         w_food := food\<rparr>;
                  w2 = (if hg > 0 \<or> mg > 0 \<or> fg > 0
                        then mark_changed (w1\<lparr>w_vitals := bt_insert p vit (w_vitals w1)\<rparr>) else w1)
              in (Ok \<lparr>ro_player = p, ro_health_gained = hg + fg, ro_mana_gained = mg, ro_vitals = vit\<rparr>, w2))))))"

definition replace_player_progression :: "nat \<Rightarrow> player_progression \<Rightarrow> bool action" where
  "replace_player_progression p pr w =
     attempt w (require_player p w) (\<lambda>_.
     attempt w (player_progression w p) (\<lambda>old.
       if old = pr then (Ok False, w)
       else (Ok True, mark_changed (w\<lparr>w_progressions := bt_insert p pr (w_progressions w)\<rparr>))))"

record skill_try_outcome =
  st_player :: nat
  st_skill :: player_skill
  st_gained_levels :: nat
  st_progress :: skill_progress
  st_stored_tries :: nat

definition apply_player_skill_tries ::
  "float_scale \<Rightarrow> nat \<Rightarrow> player_skill \<Rightarrow> nat \<Rightarrow> progression_rules \<Rightarrow> skill_try_outcome action" where
  "apply_player_skill_tries fs p s awarded rules w =
     attempt w (player_progression w p) (\<lambda>pr.
     attempt w (player_progression_attempts w p) (\<lambda>att.
       let (progress, stored, gained) =
             advance_skill_tries fs (skills pr s) (skill_tries att s) awarded rules s;
           pr' = pr\<lparr>skills := snd (skills_set s progress (skills pr))\<rparr>;
           att' = att\<lparr>skill_tries := (skill_tries att)(s := stored)\<rparr>
       in (Ok \<lparr>st_player = p, st_skill = s, st_gained_levels = gained, st_progress = progress,
               st_stored_tries = stored\<rparr>,
           if pr' \<noteq> pr \<or> att' \<noteq> att
           then mark_changed (w\<lparr>w_progressions := bt_insert p pr' (w_progressions w),
                                w_attempts := bt_insert p att' (w_attempts w)\<rparr>)
           else w)))"

record magic_advance_outcome =
  mo_player :: nat
  mo_gained_levels :: nat
  mo_magic_level :: nat
  mo_stored_mana :: nat

definition apply_player_magic_mana ::
  "float_scale \<Rightarrow> nat \<Rightarrow> nat \<Rightarrow> progression_rules \<Rightarrow> magic_advance_outcome action" where
  "apply_player_magic_mana fs p awarded rules w =
     attempt w (player_progression_attempts w p) (\<lambda>att.
     attempt w (player_vitals w p) (\<lambda>vit.
       let (level, stored, gained) =
             advance_magic_mana fs (magic_level vit) (magic_mana att) awarded rules;
           vit' = vit\<lparr>magic_level := level\<rparr>;
           att' = att\<lparr>magic_mana := stored\<rparr>
       in (Ok \<lparr>mo_player = p, mo_gained_levels = gained, mo_magic_level = level,
               mo_stored_mana = stored\<rparr>,
           if vit' \<noteq> vit \<or> att' \<noteq> att
           then mark_changed (w\<lparr>w_vitals := bt_insert p vit' (w_vitals w),
                                w_attempts := bt_insert p att' (w_attempts w)\<rparr>)
           else w)))"

section \<open>The invariant\<close>

lemma vitals_flags_wf:
  assumes "world_wf w"
  shows "max_health v \<le> u16_max \<Longrightarrow> max_mana v \<le> u16_max \<Longrightarrow>
      world_wf (snd (update_player_vitals p v w))"
    and "world_wf (snd (grant_player_food_window p n w))"
    and "world_wf (snd (set_player_god_mode p b w))"
    and "world_wf (snd (set_player_invisible p b w))"
    and "world_wf (snd (replace_player_progression p pr w))"
  unfolding update_player_vitals_def grant_player_food_window_def set_player_god_mode_def
    set_player_invisible_def replace_player_progression_def
  by (rule keepsI, intro keeps_intros;
      use assms in \<open>simp add: world_simps vitals_ok_def\<close>)+

lemma feed_le:
  assumes "feed now elapsed hp max_hp fw = (fg, fw')" and "hp \<le> max_hp"
  shows "hp + fg \<le> max_hp"
  using assms by (auto simp: feed_def Let_def split: if_splits)

lemma feed_player_le:
  assumes "feed_player p now elapsed hp max_hp food = (fg, food')" and "hp \<le> max_hp"
  shows "hp + fg \<le> max_hp"
  using assms feed_le by (auto simp: feed_player_def split: option.splits prod.splits)

text \<open>The values a regeneration computes, as functions of the old vitals.\<close>

lemma apply_player_regeneration_Ok:
  assumes "apply_player_regeneration p rules elapsed w = (Ok out, w')" and "world_wf w"
  obtains cur where "bt_get (w_vitals w) p = Some cur" and "vitals_ok cur" and "p \<in> registered w"
    and "ro_vitals out = cur\<lparr>health := health cur + ro_health_gained out,
       mana := mana cur + ro_mana_gained out\<rparr>"
    and "health cur + ro_health_gained out \<le> max_health cur"
    and "mana cur + ro_mana_gained out \<le> max_mana cur"
    and "bt_get (w_vitals w') p = Some (ro_vitals out)"
    and "world_wf w'"
proof -
  from assms(1) obtain cur rs where cur: "bt_get (w_vitals w) p = Some cur"
    and rs: "bt_get (w_respawn w) p = Some rs"
    by (auto simp: apply_player_regeneration_def player_vitals_def player_respawn_state_def)
  from world_wf_get(1) [OF assms(2) cur] have p: "p \<in> registered w" and ok: "vitals_ok cur" by auto
  have valid: "health cur \<le> max_health cur" "mana cur \<le> max_mana cur"
    "max_health cur \<le> u16_max" "max_mana cur \<le> u16_max"
    using ok by (auto simp: vitals_ok_def vitals_is_valid_def)
  show ?thesis
  proof (cases "dead rs \<or> elapsed = 0")
    case True
    with assms cur rs show ?thesis
      by (intro that [OF cur ok p]) (use valid in \<open>auto simp: apply_player_regeneration_def
        player_vitals_def player_respawn_state_def\<close>)
  next
    case False
    let ?el = "min elapsed max_regeneration_elapsed_seconds"
    from assms(1) False cur rs obtain sch he hr me mr where
      sch: "bt_get (w_regen w) p = Some sch"
      and h: "advance_regeneration_schedule (health_elapsed sch) (rr_interval (health_rule rules)) ?el = Ok (he, hr)"
      and m: "advance_regeneration_schedule (mana_elapsed sch) (rr_interval (mana_rule rules)) ?el = Ok (me, mr)"
      by (auto simp: apply_player_regeneration_def player_vitals_def player_respawn_state_def Let_def)
    let ?hg = "regeneration_gain (health cur) (max_health cur) (rr_amount (health_rule rules)) he"
    let ?mg = "regeneration_gain (mana cur) (max_mana cur) (rr_amount (mana_rule rules)) me"
    have hg: "health cur + ?hg \<le> max_health cur" and mg: "mana cur + ?mg \<le> max_mana cur"
      using regeneration_gain_le valid by auto
    have sat: "sat_add u16_max (health cur) ?hg = health cur + ?hg"
      "sat_add u16_max (mana cur) ?mg = mana cur + ?mg"
      using hg mg valid by (simp_all add: sat_add_exact)
    obtain fg food where ff:
      "feed_player p (tick w) ?el (health cur + ?hg) (max_health cur) (w_food w) = (fg, food)"
      by (rule prod.exhaust)
    have fg: "health cur + ?hg + fg \<le> max_health cur" by (rule feed_player_le [OF ff hg])
    have satf: "sat_add u16_max (health cur + ?hg) fg = health cur + ?hg + fg"
      using fg valid by (simp add: sat_add_exact)
    let ?vit = "cur\<lparr>health := health cur + ?hg + fg, mana := mana cur + ?mg\<rparr>"
    let ?w1 = "w\<lparr>w_regen := bt_insert p \<lparr>health_elapsed = hr, mana_elapsed = mr\<rparr> (w_regen w), w_food := food\<rparr>"
    from assms(1) False cur rs sch h m ff
    have out: "out = \<lparr>ro_player = p, ro_health_gained = ?hg + fg, ro_mana_gained = ?mg, ro_vitals = ?vit\<rparr>"
      and w': "w' = (if 0 < ?hg \<or> 0 < ?mg \<or> 0 < fg
         then mark_changed (?w1\<lparr>w_vitals := bt_insert p ?vit (w_vitals ?w1)\<rparr>) else ?w1)"
      by (simp_all add: apply_player_regeneration_def player_vitals_def player_respawn_state_def
          Let_def sat satf cong: if_cong split del: if_split)
    have w1: "world_wf ?w1" using assms(2) p by (simp add: world_simps)
    have okv: "vitals_ok ?vit" using ok fg mg by (simp add: vitals_ok_def vitals_is_valid_def)
    have "world_wf w'"
      unfolding w' using w1 world_wf_vitals [OF w1 _ okv, of p] p by simp
    moreover have "bt_get (w_vitals w') p = Some ?vit"
      unfolding w' using cur by (auto simp: mark_changed_def)
    ultimately show ?thesis
      by (intro that [OF cur ok p]) (use out fg mg in simp_all)
  qed
qed

lemma apply_player_regeneration_wf:
  assumes "world_wf w"
  shows "world_wf (snd (apply_player_regeneration p rules elapsed w))"
proof (cases "apply_player_regeneration p rules elapsed w")
  case (Pair r w')
  show ?thesis
  proof (cases r)
    case (Inr out)
    with Pair have "apply_player_regeneration p rules elapsed w = (Ok out, w')" by simp
    from apply_player_regeneration_Ok [OF this assms] have "world_wf w'" by blast
    with Pair show ?thesis by simp
  next
    case (Inl e)
    with Pair have "w' = w"
      by (auto simp: apply_player_regeneration_def Let_def split: if_splits prod.splits option.splits)
    with Pair assms show ?thesis by simp
  qed
qed

lemma apply_player_skill_tries_wf:
  assumes "world_wf w"
  shows "world_wf (snd (apply_player_skill_tries fs p s n rules w))"
proof -
  have p: "p \<in> registered w" if "player_progression w p = Ok pr" for pr
    using that world_wf_dom [OF assms] by (auto simp: player_progression_def)
  show ?thesis
    unfolding apply_player_skill_tries_def Let_def
    by (rule keepsI, intro keeps_intros) (use assms p in \<open>simp_all add: world_simps keeps_def split: prod.split\<close>)
qed

lemma apply_player_magic_mana_wf:
  assumes "world_wf w"
  shows "world_wf (snd (apply_player_magic_mana fs p n rules w))"
proof -
  have p: "p \<in> registered w \<and> vitals_ok (v\<lparr>magic_level := l\<rparr>)" if "player_vitals w p = Ok v" for v l
    using that world_wf_get(1) [OF assms] by (auto simp: player_vitals_def vitals_ok_def vitals_is_valid_def)
  show ?thesis
    unfolding apply_player_magic_mana_def Let_def
    by (rule keepsI, intro keeps_intros)
      (use assms p in \<open>simp_all add: world_simps keeps_def split: prod.split\<close>)
qed

text \<open>The per-event advancement agrees with recomputing the skill from its lifetime total.\<close>

lemma advance_skill_tries_from_total:
  assumes "advance_skill_tries fs pr stored awarded rules s = (pr', stored', gained)"
    and "10 \<le> sp_level pr" and "sp_level pr \<le> u16_max"
    and "sp_level pr < u16_max \<Longrightarrow> stored < required_skill_tries fs rules s (Suc (sp_level pr))"
  shows "from_total u16_max (required_skill_tries fs rules s) 10
      (exact_total (required_skill_tries fs rules s) 10 (sp_level pr) (stored + awarded)) =
    (sp_level pr', stored') \<and> gained = sp_level pr' - sp_level pr"
proof -
  obtain l st g where loop: "advance_loop u16_max (required_skill_tries fs rules s) (sp_level pr) stored awarded 0 = (l, st, g)"
    by (rule prod_cases3)
  with assms(1) have pr': "sp_level pr' = l" "stored' = (if l = u16_max then 0 else st)" "gained = g"
    by (auto simp: advance_skill_tries_def Let_def)
  have pos: "0 < required_skill_tries fs rules s (Suc t)" for t
    using required_skill_tries_pos [of fs rules s "Suc t"] by simp
  have bound: "required_skill_tries fs rules s t \<le> u64_max" for t
    unfolding required_skill_tries_def using scale_progression_requirement_bounds by blast
  from advance_loop_from_total [OF loop pos bound assms(3)] assms(4)
  have "from_total u16_max (required_skill_tries fs rules s) (sp_level pr) (stored + awarded) =
      (l, if l = u16_max then 0 else st) \<and> g = l - sp_level pr"
    by simp
  with from_total_exact_total [OF assms(2,3)] pr' show ?thesis by simp
qed

end
