(* ===== verification/Party.thy ===== *)
theory Party
  imports World
begin

text \<open>
  Parties (\<open>crates/forgotten-core/src/world_party.rs\<close>): invitations, membership, leadership,
  shared-experience eligibility and display relations. A player leads a party, belongs to one,
  or neither; the invariant is \<open>party_wf\<close> of theory \<open>World\<close>.
\<close>

section \<open>Private helpers\<close>

definition bt_is_empty :: "('k::linorder, 'v) btmap \<Rightarrow> bool" where
  "bt_is_empty m \<longleftrightarrow> entries m = []"

definition party_member_ids :: "world_state \<Rightarrow> nat \<Rightarrow> nat list" where
  "party_member_ids w leader =
     map fst (filter (\<lambda>(m, l). l = leader) (entries (party_memberships w)))"

definition party_has_invitations :: "world_state \<Rightarrow> nat \<Rightarrow> bool" where
  "party_has_invitations w leader = list_ex (bt_mem leader) (bt_vals (party_invitations w))"

definition disband_party :: "nat \<Rightarrow> world_state \<Rightarrow> world_state" where
  "disband_party leader w =
     w\<lparr>party_leaders := bt_remove leader (party_leaders w),
       party_shared_requested := bt_remove leader (party_shared_requested w),
       party_activity := foldl (\<lambda>A m. bt_remove m A) (bt_remove leader (party_activity w))
         (party_member_ids w leader),
       party_memberships := bt_retain (\<lambda>_ l. l \<noteq> leader) (party_memberships w),
       party_invitations := bt_retain (\<lambda>_ S. \<not> bt_is_empty S)
         (bt_map (\<lambda>_ S. bt_remove leader S) (party_invitations w))\<rparr>"

definition disband_party_if_empty :: "nat \<Rightarrow> world_state \<Rightarrow> world_state" where
  "disband_party_if_empty leader w =
     (if bt_mem leader (party_leaders w) \<and> party_member_ids w leader = [] \<and>
         \<not> party_has_invitations w leader
      then disband_party leader w else w)"

text \<open>The two passes that both changes of leadership make: the shared-experience request and
  the pending invitations move to the new leader.\<close>

definition move_request :: "nat \<Rightarrow> nat \<Rightarrow> nat btset \<Rightarrow> nat btset" where
  "move_request old new R = (if bt_mem old R then bs_insert new (bt_remove old R) else R)"

definition move_invitations :: "nat \<Rightarrow> nat \<Rightarrow> (nat, nat btset) btmap \<Rightarrow> (nat, nat btset) btmap" where
  "move_invitations old new =
     bt_map (\<lambda>_ S. if bt_mem old S then bs_insert new (bt_remove old S) else S)"

definition remove_party_leader :: "nat \<Rightarrow> world_state \<Rightarrow> world_state" where
  "remove_party_leader leader w =
     (case party_member_ids w leader of
        [] \<Rightarrow> disband_party leader w
      | new # rest \<Rightarrow>
          w\<lparr>party_leaders := bs_insert new (bt_remove leader (party_leaders w)),
            party_shared_requested := move_request leader new (party_shared_requested w),
            party_memberships :=
              foldl (\<lambda>M m. if m \<noteq> new then bt_insert m new M else M)
                (bt_remove new (party_memberships w)) (new # rest),
            party_invitations := move_invitations leader new (party_invitations w)\<rparr>)"

definition unwrap_or_empty :: "'k::linorder btset option \<Rightarrow> 'k btset" where
  "unwrap_or_empty v = (case v of None \<Rightarrow> bt_empty | Some s \<Rightarrow> s)"

definition clear_player_party_state :: "nat \<Rightarrow> world_state \<Rightarrow> world_state" where
  "clear_player_party_state p w =
     (let w1 = w\<lparr>party_activity := bt_remove p (party_activity w)\<rparr>;
          w2 = (if bt_mem p (party_leaders w1) then remove_party_leader p w1
                else case bt_get (party_memberships w1) p of
                  Some leader \<Rightarrow> disband_party_if_empty leader
                    (w1\<lparr>party_memberships := bt_remove p (party_memberships w1)\<rparr>)
                | None \<Rightarrow> w1);
          inviting = unwrap_or_empty (bt_get (party_invitations w2) p);
          w3 = w2\<lparr>party_invitations := bt_remove p (party_invitations w2)\<rparr>
      in foldl (\<lambda>w l. disband_party_if_empty l w) w3 (bt_keys inviting))"

text \<open>One pass of \<open>retain\<close> over the intents, which also edits them.\<close>

definition drop_player_refs :: "nat \<Rightarrow> interaction_intent \<Rightarrow> interaction_intent" where
  "drop_player_refs q i =
     i\<lparr>target_player := (if target_player i = Some q then None else target_player i),
       follow_player := (if follow_player i = Some q then None else follow_player i)\<rparr>"

definition intent_some :: "interaction_intent \<Rightarrow> bool" where
  "intent_some i \<longleftrightarrow> target_player i \<noteq> None \<or> target_static i \<noteq> None \<or> follow_player i \<noteq> None"

definition clear_player_interaction_references :: "nat \<Rightarrow> world_state \<Rightarrow> world_state" where
  "clear_player_interaction_references q w =
     w\<lparr>w_interactions := bt_retain (\<lambda>_. intent_some)
         (bt_map (\<lambda>_. drop_player_refs q) (w_interactions w))\<rparr>"

section \<open>Invitations and membership\<close>

definition in_party :: "nat \<Rightarrow> world_state \<Rightarrow> bool" where
  "in_party p w \<longleftrightarrow> bt_mem p (party_leaders w) \<or> bt_mem p (party_memberships w)"

definition invite_to_party :: "nat \<Rightarrow> nat \<Rightarrow> unit action" where
  "invite_to_party leader invitee w =
     attempt w (require_player leader w) (\<lambda>_.
     attempt w (require_player invitee w) (\<lambda>_.
       if leader = invitee then (Inl (player_fault (SelfInteractionNotAllowed leader)), w)
       else if bt_mem leader (party_memberships w)
       then (Inl (social_fault (PlayerAlreadyInParty leader)), w)
       else if in_party invitee w then (Inl (social_fault (PlayerAlreadyInParty invitee)), w)
       else
         let invitations = unwrap_or_empty (bt_get (party_invitations w) invitee)
         in if bt_mem leader invitations
            then (Inl (social_fault (DuplicatePartyInvitation leader invitee)), w)
            else (Ok (), mark_changed
              (w\<lparr>party_invitations :=
                   bt_insert invitee (bs_insert leader invitations) (party_invitations w),
                 party_leaders := bs_insert leader (party_leaders w)\<rparr>))))"

definition accept_party_invitation :: "nat \<Rightarrow> nat \<Rightarrow> unit action" where
  "accept_party_invitation invitee leader w =
     attempt w (require_player invitee w) (\<lambda>_.
     attempt w (require_player leader w) (\<lambda>_.
       if \<not> (case bt_get (party_invitations w) invitee of
               None \<Rightarrow> False | Some S \<Rightarrow> bt_mem leader S)
       then (Inl (social_fault (PartyInvitationNotFound leader invitee)), w)
       else if in_party invitee w then (Inl (social_fault (PlayerAlreadyInParty invitee)), w)
       else if \<not> bt_mem leader (party_leaders w)
       then (Inl (social_fault (PlayerNotInParty leader)), w)
       else
         let inviting = unwrap_or_empty (bt_get (party_invitations w) invitee);
             w1 = w\<lparr>party_invitations := bt_remove invitee (party_invitations w),
                    party_memberships := bt_insert invitee leader (party_memberships w)\<rparr>
         in (Ok (), mark_changed
              (foldl (\<lambda>w l. if l \<noteq> leader then disband_party_if_empty l w else w)
                 w1 (bt_keys inviting)))))"

definition leave_party :: "nat \<Rightarrow> unit action" where
  "leave_party p w =
     attempt w (require_player p w) (\<lambda>_.
       if bt_mem p (party_leaders w) then (Ok (), mark_changed (remove_party_leader p w))
       else case bt_get (party_memberships w) p of
         Some leader \<Rightarrow> (Ok (), mark_changed (disband_party_if_empty leader
           (w\<lparr>party_memberships := bt_remove p (party_memberships w)\<rparr>)))
       | None \<Rightarrow> (Inl (social_fault (PlayerNotInParty p)), w))"

definition transfer_party_leadership :: "nat \<Rightarrow> nat \<Rightarrow> unit action" where
  "transfer_party_leadership leader new w =
     attempt w (require_player leader w) (\<lambda>_.
     attempt w (require_player new w) (\<lambda>_.
       if leader = new then (Inl (player_fault (SelfInteractionNotAllowed leader)), w)
       else if \<not> bt_mem leader (party_leaders w)
       then (Inl (social_fault (PlayerNotInParty leader)), w)
       else if bt_get (party_memberships w) new \<noteq> Some leader
       then (Inl (social_fault (PartyLeadershipTargetNotMember leader new)), w)
       else (Ok (), mark_changed
         (w\<lparr>party_leaders := bs_insert new (bt_remove leader (party_leaders w)),
            party_shared_requested := move_request leader new (party_shared_requested w),
            party_memberships := bt_insert leader new
              (bt_map (\<lambda>_ l. if l = leader then new else l)
                 (bt_remove new (party_memberships w))),
            party_invitations := move_invitations leader new (party_invitations w)\<rparr>))))"

definition revoke_party_invitation :: "nat \<Rightarrow> nat \<Rightarrow> unit action" where
  "revoke_party_invitation leader invitee w =
     attempt w (require_player leader w) (\<lambda>_.
     attempt w (require_player invitee w) (\<lambda>_.
       if \<not> bt_mem leader (party_leaders w)
       then (Inl (social_fault (PlayerNotInParty leader)), w)
       else
         attempt w (ok_or (bt_get (party_invitations w) invitee)
           (social_fault (PartyInvitationNotFound leader invitee))) (\<lambda>S.
           if \<not> bt_mem leader S
           then (Inl (social_fault (PartyInvitationNotFound leader invitee)), w)
           else
             let S' = bt_remove leader S;
                 w1 = w\<lparr>party_invitations := bt_insert invitee S' (party_invitations w)\<rparr>;
                 w2 = (if bt_is_empty S'
                       then w1\<lparr>party_invitations := bt_remove invitee (party_invitations w1)\<rparr>
                       else w1)
             in (Ok (), mark_changed (disband_party_if_empty leader w2)))))"

definition player_party_leader :: "world_state \<Rightarrow> nat \<Rightarrow> nat option result" where
  "player_party_leader w p =
     rbind (require_player p w) (\<lambda>_.
       if bt_mem p (party_leaders w) then Ok (Some p)
       else Ok (bt_get (party_memberships w) p))"

definition player_party_members :: "world_state \<Rightarrow> nat \<Rightarrow> nat list result" where
  "player_party_members w leader =
     rbind (require_player leader w) (\<lambda>_.
       if \<not> bt_mem leader (party_leaders w) then Inl (social_fault (PlayerNotInParty leader))
       else Ok (party_member_ids w leader))"

section \<open>Snapshots\<close>

definition party_snapshots :: "world_state \<Rightarrow> (nat \<times> nat list) list" where
  "party_snapshots w = map (\<lambda>l. (l, party_member_ids w l)) (bt_keys (party_leaders w))"

definition invalid_snapshot :: "string \<Rightarrow> fault" where
  "invalid_snapshot msg = social_fault (InvalidPartySnapshot msg)"

fun check_members :: "nat list \<Rightarrow> world_state \<Rightarrow> unit result" where
  "check_members [] w = Ok ()"
| "check_members (m # ms) w =
     rbind (require_player m w) (\<lambda>_.
       if in_party m w then Inl (invalid_snapshot ''member already holds live party state'')
       else check_members ms w)"

definition restore_party_snapshot :: "nat \<Rightarrow> nat list \<Rightarrow> unit action" where
  "restore_party_snapshot leader members w =
     (let unique = remdups_adj (sort members) in
      if length unique \<noteq> length members
      then (Inl (invalid_snapshot ''party snapshot contains duplicate members''), w)
      else if leader \<in> set unique
      then (Inl (invalid_snapshot ''party snapshot members must not list the leader''), w)
      else
        attempt w (require_player leader w) (\<lambda>_.
          if in_party leader w
          then (Inl (invalid_snapshot ''leader already holds live party state''), w)
          else attempt w (check_members unique w) (\<lambda>_.
            (Ok (),
             w\<lparr>party_memberships := foldl (\<lambda>M m. bt_insert m leader M) (party_memberships w) unique,
               party_leaders := bs_insert leader (party_leaders w)\<rparr>))))"

definition add_existing_party_member :: "nat \<Rightarrow> nat \<Rightarrow> unit action" where
  "add_existing_party_member leader p w =
     (if p = leader
      then (Inl (invalid_snapshot ''leader cannot be added as a member of itself''), w)
      else
        attempt w (require_player leader w) (\<lambda>_.
        attempt w (require_player p w) (\<lambda>_.
          if \<not> bt_mem leader (party_leaders w)
          then (Inl (social_fault (PlayerNotInParty leader)), w)
          else if in_party p w then (Inl (social_fault (PlayerNotInPartyFree p)), w)
          else (Ok (), w\<lparr>party_memberships := bt_insert p leader (party_memberships w)\<rparr>))))"

section \<open>Shared experience\<close>

record shared_rules =
  sr_range :: nat
  sr_floor_delta :: nat
  sr_window :: nat

definition default_shared_rules :: shared_rules where
  "default_shared_rules = \<lparr>sr_range = 30, sr_floor_delta = 1, sr_window = 60\<rparr>"

datatype eligibility =
  NotRequested | Eligible | EmptyParty | LevelSpreadTooLarge | TooFarAway | MemberInactive

record shared_state =
  ss_requested :: bool
  ss_eligibility :: eligibility

definition position_range :: "position \<Rightarrow> position \<Rightarrow> nat" where
  "position_range p q = max (abs_diff (pos_x p) (pos_x q)) (abs_diff (pos_y p) (pos_y q))"

definition recently_active :: "shared_rules \<Rightarrow> world_state \<Rightarrow> nat \<Rightarrow> bool" where
  "recently_active rules w p =
     (case bt_get (party_activity w) p of
        None \<Rightarrow> False
      | Some t \<Rightarrow> tick w - t \<le> sr_window rules)"

fun check_participants ::
  "shared_rules \<Rightarrow> world_state \<Rightarrow> player \<Rightarrow> nat \<Rightarrow> nat list \<Rightarrow> eligibility" where
  "check_participants rules w leader min_lv [] = Eligible"
| "check_participants rules w leader min_lv (p # ps) =
     (case bt_get (players w) p of
        None \<Rightarrow> LevelSpreadTooLarge
      | Some pl \<Rightarrow>
          if pl_level pl < min_lv then LevelSpreadTooLarge
          else if position_range (pl_position pl) (pl_position leader) > sr_range rules \<or>
             abs_diff (pos_z (pl_position pl)) (pos_z (pl_position leader)) > sr_floor_delta rules
          then TooFarAway
          else if \<not> recently_active rules w p then MemberInactive
          else check_participants rules w leader min_lv ps)"

definition highest_level :: "world_state \<Rightarrow> nat list \<Rightarrow> nat" where
  "highest_level w ps =
     foldl max 0 (map (\<lambda>p. case bt_get (players w) p of None \<Rightarrow> 0 | Some pl \<Rightarrow> pl_level pl) ps)"

definition minimum_shared_level :: "nat \<Rightarrow> nat" where
  "minimum_shared_level highest = sat_add u32_max (sat_mul u32_max highest 2) 2 div 3"

definition party_shared_experience_state ::
  "world_state \<Rightarrow> nat \<Rightarrow> shared_rules \<Rightarrow> shared_state result" where
  "party_shared_experience_state w leader rules =
     rbind (require_player leader w) (\<lambda>_.
       if \<not> bt_mem leader (party_leaders w) then Inl (social_fault (PlayerNotInParty leader))
       else
         let requested = bt_mem leader (party_shared_requested w);
             members = party_member_ids w leader;
             participants = leader # members
         in Ok \<lparr>ss_requested = requested,
              ss_eligibility =
                (if \<not> requested then NotRequested
                 else if members = [] then EmptyParty
                 else case bt_get (players w) leader of
                   None \<Rightarrow> LevelSpreadTooLarge
                 | Some lead \<Rightarrow>
                     check_participants rules w lead
                       (minimum_shared_level (highest_level w participants)) participants)\<rparr>)"

definition set_party_shared_experience_requested ::
  "nat \<Rightarrow> bool \<Rightarrow> shared_rules \<Rightarrow> shared_state action" where
  "set_party_shared_experience_requested leader requested rules w =
     attempt w (require_player leader w) (\<lambda>_.
       if \<not> bt_mem leader (party_leaders w)
       then (Inl (social_fault (PlayerNotInParty leader)), w)
       else
         let changed = (bt_mem leader (party_shared_requested w) \<noteq> requested);
             w1 = w\<lparr>party_shared_requested :=
                      (if requested then bs_insert leader (party_shared_requested w)
                       else bt_remove leader (party_shared_requested w))\<rparr>;
             w2 = (if changed then mark_changed w1 else w1)
         in (party_shared_experience_state w2 leader rules, w2))"

definition record_party_shared_experience_activity :: "nat \<Rightarrow> unit action" where
  "record_party_shared_experience_activity p w =
     attempt w (require_player p w) (\<lambda>_.
     attempt w (player_party_leader w p) (\<lambda>l.
       if l = None then (Inl (social_fault (PlayerNotInParty p)), w)
       else
         let w1 = w\<lparr>party_activity := bt_insert p (tick w) (party_activity w)\<rparr>
         in (Ok (), if bt_get (party_activity w) p \<noteq> Some (tick w) then mark_changed w1 else w1)))"

definition party_shared_experience_recipients ::
  "world_state \<Rightarrow> nat \<Rightarrow> shared_rules \<Rightarrow> nat list option result" where
  "party_shared_experience_recipients w p rules =
     rbind (player_party_leader w p) (\<lambda>l. case l of
       None \<Rightarrow> Ok None
     | Some leader \<Rightarrow>
         rbind (party_shared_experience_state w leader rules) (\<lambda>st.
           if ss_eligibility st \<noteq> Eligible then Ok None
           else Ok (Some (sort (party_member_ids w leader @ [leader])))))"

section \<open>Display relations\<close>

datatype display_relation =
  NoRelation | InvitationFromLeader | InvitationToLeader | Member | Leader

definition invited_by :: "world_state \<Rightarrow> nat \<Rightarrow> nat \<Rightarrow> bool" where
  "invited_by w p leader =
     (case bt_get (party_invitations w) p of None \<Rightarrow> False | Some S \<Rightarrow> bt_mem leader S)"

definition party_display_relation :: "world_state \<Rightarrow> nat \<Rightarrow> nat \<Rightarrow> display_relation result" where
  "party_display_relation w observer target =
     rbind (require_player observer w) (\<lambda>_.
     rbind (require_player target w) (\<lambda>_.
     rbind (player_party_leader w observer) (\<lambda>ol.
     rbind (player_party_leader w target) (\<lambda>tl.
       let fallback = (if invited_by w observer target then InvitationFromLeader else NoRelation)
       in Ok (case ol of
            None \<Rightarrow> fallback
          | Some l \<Rightarrow>
              if target = l then Leader
              else if tl = Some l then Member
              else if invited_by w target l then InvitationToLeader
              else fallback)))))"

definition party_display_relations :: "world_state \<Rightarrow> nat \<Rightarrow> (nat \<times> display_relation) list result" where
  "party_display_relations w observer =
     rbind (require_player observer w) (\<lambda>_.
       traverse (\<lambda>t. rbind (party_display_relation w observer t) (\<lambda>r. Ok (t, r)))
         (bt_keys (players w)))"

section \<open>Reading the helpers\<close>

lemma bt_is_empty_iff [simp]: "bt_is_empty m \<longleftrightarrow> m = bt_empty"
  unfolding bt_is_empty_def by (metis entries_bt_empty entries_inject)

lemma btset_nonempty: "S \<noteq> bt_empty \<longleftrightarrow> (\<exists>k. bt_mem k (S :: 'k::linorder btset))"
  by (metis bs_eqI bt_mem_empty)

lemma set_party_member_ids [simp]:
  "set (party_member_ids w l) = {m. bt_get (party_memberships w) m = Some l}"
  by (force simp: party_member_ids_def in_entries_iff)

lemma sorted_map_fst_filter:
  "sorted_wrt (<) (map fst xs) \<Longrightarrow> sorted_wrt (<) (map fst (filter P xs))"
  by (rule sorted_wrt_fst_filter)

lemma sorted_party_member_ids: "sorted_wrt (<) (party_member_ids w l)"
  unfolding party_member_ids_def by (rule sorted_map_fst_filter) simp

lemma distinct_party_member_ids [simp]: "distinct (party_member_ids w l)"
  using sorted_party_member_ids strict_sorted_iff by blast

lemma party_member_ids_Nil: "party_member_ids w l = [] \<longleftrightarrow> (\<forall>m. bt_get (party_memberships w) m \<noteq> Some l)"
  using set_party_member_ids [of w l] by (auto simp flip: set_empty)

lemma party_has_invitations_iff:
  "party_has_invitations w l \<longleftrightarrow> (\<exists>p S. bt_get (party_invitations w) p = Some S \<and> bt_mem l S)"
  unfolding party_has_invitations_def list_ex_iff by (metis in_bt_vals_iff)

lemma unwrap_or_empty_simps [simp]:
  "unwrap_or_empty None = bt_empty" "unwrap_or_empty (Some S) = S"
  by (simp_all add: unwrap_or_empty_def)

lemma bt_mem_retain_get: "bt_get (bt_retain P m) k = Some v \<longleftrightarrow> bt_get m k = Some v \<and> P k v"
  by (auto simp: bt_get_retain split: option.splits)

lemma bt_mem_foldl_remove: "bt_mem k (foldl (\<lambda>A m. bt_remove m A) A ms) \<longleftrightarrow> bt_mem k A \<and> k \<notin> set ms"
  by (induction ms arbitrary: A) auto

lemma get_follow_leader:
  "bt_get (foldl (\<lambda>M m. if m \<noteq> new then bt_insert m new M else M) M ms) p =
     (if p \<in> set ms \<and> p \<noteq> new then Some new else bt_get M p)"
  by (induction ms arbitrary: M) (auto simp: bt_get_insert)

lemma get_foldl_insert:
  "bt_get (foldl (\<lambda>M m. bt_insert m v M) M ms) p = (if p \<in> set ms then Some v else bt_get M p)"
  by (induction ms arbitrary: M) (auto simp: bt_get_insert)

section \<open>The helpers keep the party invariant\<close>

definition party_ok :: "nat set \<Rightarrow> world_state \<Rightarrow> bool" where
  "party_ok D w \<longleftrightarrow> party_wf D (party_leaders w) (party_memberships w) (party_invitations w)
     (party_shared_requested w) (party_activity w)"

lemmas party_ok_iff = party_ok_def party_wf_def

lemma party_okI:
  assumes "\<And>p. bt_mem p (party_leaders w) \<Longrightarrow> p \<in> D"
    and "\<And>p l. bt_get (party_memberships w) p = Some l \<Longrightarrow>
      p \<in> D \<and> bt_mem l (party_leaders w) \<and> \<not> bt_mem p (party_leaders w)"
    and "\<And>p S. bt_get (party_invitations w) p = Some S \<Longrightarrow>
      p \<in> D \<and> S \<noteq> bt_empty \<and> (\<forall>l. bt_mem l S \<longrightarrow> bt_mem l (party_leaders w))"
    and "\<And>p. bt_mem p (party_shared_requested w) \<Longrightarrow> bt_mem p (party_leaders w)"
    and "\<And>p. bt_mem p (party_activity w) \<Longrightarrow> p \<in> D"
  shows "party_ok D w"
  using assms unfolding party_ok_iff by blast

lemma party_okD:
  assumes "party_ok D w"
  shows "bt_mem p (party_leaders w) \<Longrightarrow> p \<in> D"
    and "bt_get (party_memberships w) p = Some l \<Longrightarrow>
      p \<in> D \<and> bt_mem l (party_leaders w) \<and> \<not> bt_mem p (party_leaders w)"
    and "bt_get (party_invitations w) p = Some S \<Longrightarrow>
      p \<in> D \<and> S \<noteq> bt_empty \<and> (\<forall>l. bt_mem l S \<longrightarrow> bt_mem l (party_leaders w))"
    and "bt_mem p (party_shared_requested w) \<Longrightarrow> bt_mem p (party_leaders w)"
    and "bt_mem p (party_activity w) \<Longrightarrow> p \<in> D"
  using assms unfolding party_ok_iff by blast+

lemma disband_party_ok:
  assumes "party_ok D w"
  shows "party_ok D (disband_party l w)"
  by (rule party_okI)
    (use party_okD [OF assms] in \<open>auto simp: disband_party_def bt_mem_retain_get bt_mem_foldl_remove\<close>)

lemma disband_if_empty_ok: "party_ok D w \<Longrightarrow> party_ok D (disband_party_if_empty l w)"
  by (simp add: disband_party_if_empty_def disband_party_ok)

lemma get_move_invitations:
  "bt_get (move_invitations old new I) p = Some S' \<longleftrightarrow>
     (\<exists>S. bt_get I p = Some S \<and>
       S' = (if bt_mem old S then bs_insert new (bt_remove old S) else S))"
  unfolding move_invitations_def bt_get_map map_option_eq_Some by (simp only: eq_commute [of S'])

lemma bt_mem_move_request:
  "bt_mem p (move_request old new R) \<longleftrightarrow>
     (if bt_mem old R then p = new \<or> (p \<noteq> old \<and> bt_mem p R) else bt_mem p R)"
  by (simp add: move_request_def)

lemma bs_insert_nonempty [simp]: "bs_insert k S \<noteq> bt_empty"
proof
  assume "bs_insert k S = bt_empty"
  then have "bt_mem k (bt_empty :: 'a btset)" by (metis bt_mem_insert)
  then show False by simp
qed

text \<open>Handing a party from \<open>l\<close> to a member \<open>new\<close>: what both changes of leadership share.\<close>

lemma hand_over_ok:
  assumes ok: "party_ok D w" and new: "bt_get (party_memberships w) new = Some l"
    and M: "\<And>p. bt_get M p = (if p = new then None else if p = l then lv
      else if bt_get (party_memberships w) p = Some l then Some new
      else bt_get (party_memberships w) p)"
    and lv: "lv = None \<or> lv = Some new"
  shows "party_ok D (w\<lparr>party_leaders := bs_insert new (bt_remove l (party_leaders w)),
      party_shared_requested := move_request l new (party_shared_requested w),
      party_memberships := M,
      party_invitations := move_invitations l new (party_invitations w)\<rparr>)"
proof -
  note d = party_okD [OF ok]
  have l: "bt_mem l (party_leaders w)" "l \<noteq> new" "l \<in> D" "new \<in> D" using d(2) [OF new] d(1) by auto
  show ?thesis
  proof (rule party_okI, goal_cases)
    case (2 p l')
    then have get: "bt_get M p = Some l'" by simp
    show ?case
    proof (cases "p = l")
      case True
      with get M [of p] l lv show ?thesis by (auto split: if_splits)
    next
      case False
      with get M [of p] d(2) [of p] l show ?thesis by (auto split: if_splits)
    qed
  next
    case (3 p S')
    then obtain S where S: "bt_get (party_invitations w) p = Some S"
      and S': "S' = (if bt_mem l S then bs_insert new (bt_remove l S) else S)"
      by (auto simp: get_move_invitations)
    from d(3) [OF S] show ?case unfolding S' using l by auto
  qed (use d l in \<open>auto simp: bt_mem_move_request split: if_splits\<close>)
qed

lemma remove_party_leader_ok:
  assumes "party_ok D w"
  shows "party_ok D (remove_party_leader l w)"
proof (cases "party_member_ids w l")
  case Nil
  then show ?thesis using assms by (simp add: remove_party_leader_def disband_party_ok)
next
  case (Cons new rest)
  have ms: "set (new # rest) = {m. bt_get (party_memberships w) m = Some l}"
    using Cons set_party_member_ids [of w l] by simp
  then have new: "bt_get (party_memberships w) new = Some l" by auto
  have "bt_get (party_memberships w) l = None"
    using party_okD(2) [OF assms] new by (metis not_None_eq)
  then have M: "bt_get (foldl (\<lambda>M m. if m \<noteq> new then bt_insert m new M else M)
      (bt_remove new (party_memberships w)) (new # rest)) p =
    (if p = new then None else if p = l then None
     else if bt_get (party_memberships w) p = Some l then Some new
     else bt_get (party_memberships w) p)" for p
    unfolding get_follow_leader ms by (auto simp: bt_get_remove)
  from hand_over_ok [OF assms new M] show ?thesis
    unfolding remove_party_leader_def Cons by simp
qed

section \<open>Only the party tables change\<close>

text \<open>The world with its party tables and its revision blanked out: what the operations of this
  theory do not touch.\<close>

definition strip_party :: "world_state \<Rightarrow> world_state" where
  "strip_party w =
     w\<lparr>party_leaders := bt_empty, party_memberships := bt_empty, party_invitations := bt_empty,
       party_shared_requested := bt_empty, party_activity := bt_empty, revision := 0\<rparr>"

lemma strip_party_updates [simp]:
  "strip_party (w\<lparr>party_leaders := L\<rparr>) = strip_party w"
  "strip_party (w\<lparr>party_memberships := M\<rparr>) = strip_party w"
  "strip_party (w\<lparr>party_invitations := I\<rparr>) = strip_party w"
  "strip_party (w\<lparr>party_shared_requested := R\<rparr>) = strip_party w"
  "strip_party (w\<lparr>party_activity := A\<rparr>) = strip_party w"
  "strip_party (mark_changed w) = strip_party w"
  by (simp_all add: strip_party_def mark_changed_def)

lemma strip_party_disband [simp]:
  "strip_party (disband_party l w) = strip_party w"
  "strip_party (disband_party_if_empty l w) = strip_party w"
  "strip_party (remove_party_leader l w) = strip_party w"
  by (simp_all add: disband_party_def disband_party_if_empty_def remove_party_leader_def split: list.split)

lemma strip_party_fold [simp]:
  "strip_party (foldl (\<lambda>w l. disband_party_if_empty l w) w ls) = strip_party w"
  "strip_party (foldl (\<lambda>w l. if l \<noteq> leader then disband_party_if_empty l w else w) w ls) = strip_party w"
  by (induction ls arbitrary: w) simp_all

lemma strip_party_clear [simp]: "strip_party (clear_player_party_state p w) = strip_party w"
  by (simp add: clear_player_party_state_def Let_def split: option.split)

lemma strip_party_fields:
  assumes "strip_party w' = strip_party w"
  shows "players w' = players w" "w_vitals w' = w_vitals w" "w_progressions w' = w_progressions w"
    "w_attempts w' = w_attempts w" "w_towns w' = w_towns w" "w_regen w' = w_regen w"
    "w_conditions w' = w_conditions w" "w_respawn w' = w_respawn w"
    "w_equipments w' = w_equipments w" "w_containers w' = w_containers w"
    "w_defenses w' = w_defenses w" "w_fight_modes w' = w_fight_modes w"
    "w_combat_cooldowns w' = w_combat_cooldowns w" "w_spell_cooldowns w' = w_spell_cooldowns w"
    "w_interactions w' = w_interactions w" "creatures w' = creatures w" "occupied w' = occupied w"
    "w_food w' = w_food w" "trades w' = trades w" "tick w' = tick w"
  using arg_cong [OF assms, of players] arg_cong [OF assms, of w_vitals]
      arg_cong [OF assms, of w_progressions] arg_cong [OF assms, of w_attempts]
      arg_cong [OF assms, of w_towns] arg_cong [OF assms, of w_regen]
      arg_cong [OF assms, of w_conditions] arg_cong [OF assms, of w_respawn]
      arg_cong [OF assms, of w_equipments] arg_cong [OF assms, of w_containers]
      arg_cong [OF assms, of w_defenses] arg_cong [OF assms, of w_fight_modes]
      arg_cong [OF assms, of w_combat_cooldowns] arg_cong [OF assms, of w_spell_cooldowns]
      arg_cong [OF assms, of w_interactions] arg_cong [OF assms, of creatures]
      arg_cong [OF assms, of occupied] arg_cong [OF assms, of w_food]
      arg_cong [OF assms, of trades] arg_cong [OF assms, of tick]
  by (simp_all add: strip_party_def)

lemma world_wf_strip:
  assumes "strip_party w' = strip_party w" and "world_wf w" and "party_ok (registered w) w'"
  shows "world_wf w'"
  using assms(2,3) strip_party_fields [OF assms(1)] by (simp add: world_wf_def party_ok_def)

lemma party_ok_world: "world_wf w \<Longrightarrow> party_ok (registered w) w"
  by (simp add: world_wf_def party_ok_def)

lemma party_ok_mark [simp]: "party_ok D (mark_changed w) \<longleftrightarrow> party_ok D w"
  by (simp add: party_ok_def mark_changed_def)

lemma fold_disband_ok:
  "party_ok D w \<Longrightarrow> party_ok D (foldl (\<lambda>w l. disband_party_if_empty l w) w ls)"
  "party_ok D w \<Longrightarrow>
     party_ok D (foldl (\<lambda>w l. if l \<noteq> leader then disband_party_if_empty l w else w) w ls)"
  by (induction ls arbitrary: w) (simp_all add: disband_if_empty_ok)

section \<open>Every operation keeps the invariant\<close>

lemma not_in_party:
  "\<not> in_party p w \<longleftrightarrow> \<not> bt_mem p (party_leaders w) \<and> bt_get (party_memberships w) p = None"
  by (auto simp: in_party_def bt_mem_def)

lemma drop_member_ok:
  "party_ok D w \<Longrightarrow> party_ok D (w\<lparr>party_memberships := bt_remove p (party_memberships w)\<rparr>)"
  by (auto simp: party_ok_iff bt_get_remove)

lemma drop_invitation_ok:
  "party_ok D w \<Longrightarrow> party_ok D (w\<lparr>party_invitations := bt_remove p (party_invitations w)\<rparr>)"
  by (auto simp: party_ok_iff bt_get_remove)

lemma add_member_ok:
  "party_ok D w \<Longrightarrow> p \<in> D \<Longrightarrow> bt_mem l (party_leaders w) \<Longrightarrow> \<not> bt_mem p (party_leaders w) \<Longrightarrow>
     party_ok D (w\<lparr>party_memberships := bt_insert p l (party_memberships w)\<rparr>)"
  by (auto simp: party_ok_iff bt_get_insert)

lemma invite_ok:
  assumes "party_ok D w" and "l \<in> D" and "p \<in> D" and "l \<noteq> p" and "\<not> bt_mem l (party_memberships w)"
  shows "party_ok D (w\<lparr>party_invitations := bt_insert p (bs_insert l (unwrap_or_empty
       (bt_get (party_invitations w) p))) (party_invitations w),
     party_leaders := bs_insert l (party_leaders w)\<rparr>)"
  by (rule party_okI)
    (use assms party_okD [OF assms(1)] in \<open>auto simp: bt_get_insert bt_mem_def [of l "party_memberships w"]
       unwrap_or_empty_def split: if_splits option.splits\<close>)

lemma party_wfI:
  "world_wf w \<Longrightarrow> strip_party w' = strip_party w \<Longrightarrow> party_ok (registered w) w' \<Longrightarrow> world_wf w'"
  by (rule world_wf_strip)

lemma invite_to_party_wf: "world_wf w \<Longrightarrow> world_wf (snd (invite_to_party l p w))"
  unfolding invite_to_party_def Let_def
proof (rule keepsI, intro keeps_intros, goal_cases)
  case (7 u u')
  then have "party_ok (registered w) (w\<lparr>party_invitations := bt_insert p (bs_insert l (unwrap_or_empty
       (bt_get (party_invitations w) p))) (party_invitations w),
     party_leaders := bs_insert l (party_leaders w)\<rparr>)"
    by (intro invite_ok party_ok_world) simp_all
  then show ?case by (intro party_wfI [OF 7(1)]) simp_all
qed assumption+

lemma accept_party_invitation_wf: "world_wf w \<Longrightarrow> world_wf (snd (accept_party_invitation p l w))"
  unfolding accept_party_invitation_def Let_def
proof (rule keepsI, intro keeps_intros, goal_cases)
  case (6 u u')
  have "party_ok (registered w) (w\<lparr>party_invitations := bt_remove p (party_invitations w)\<rparr>)"
    by (rule drop_invitation_ok) (rule party_ok_world [OF 6(1)])
  from add_member_ok [OF this, of p l] 6 not_in_party [of p w]
  have "party_ok (registered w) (w\<lparr>party_invitations := bt_remove p (party_invitations w),
      party_memberships := bt_insert p l (party_memberships w)\<rparr>)"
    by simp
  from fold_disband_ok(2) [OF this] show ?case
    by (intro party_wfI [OF 6(1)]) simp_all
qed assumption+

lemma leave_party_wf: "world_wf w \<Longrightarrow> world_wf (snd (leave_party p w))"
  unfolding leave_party_def
proof (rule keepsI, intro keeps_intros, goal_cases)
  case (2 u)
  from remove_party_leader_ok [OF party_ok_world [OF 2(1)]] show ?case
    by (intro party_wfI [OF 2(1)]) simp_all
next
  case (4 u l)
  from disband_if_empty_ok [OF drop_member_ok [OF party_ok_world [OF 4(1)]]] show ?case
    by (intro party_wfI [OF 4(1)]) simp_all
qed assumption+

lemma transfer_M:
  assumes "new \<noteq> l" and "bt_get M l = None"
  shows "bt_get (bt_insert l new (bt_map (\<lambda>_ k. if k = l then new else k) (bt_remove new M))) p =
    (if p = new then None else if p = l then Some new else if bt_get M p = Some l then Some new
     else bt_get M p)"
  using assms by (cases "bt_get M p") (auto simp: bt_get_insert bt_get_remove)

lemma transfer_party_leadership_wf: "world_wf w \<Longrightarrow> world_wf (snd (transfer_party_leadership l new w))"
  unfolding transfer_party_leadership_def
proof (rule keepsI, intro keeps_intros, goal_cases)
  case (6 u u')
  then have new: "bt_get (party_memberships w) new = Some l" and ne: "new \<noteq> l" by auto
  have "bt_get (party_memberships w) l = None"
    using party_okD(2) [OF party_ok_world [OF 6(1)]] new by (metis not_None_eq)
  from hand_over_ok [OF party_ok_world [OF 6(1)] new transfer_M [OF ne this]] show ?case
    by (intro party_wfI [OF 6(1)]) simp_all
qed assumption+

lemma revoked_ok:
  assumes "party_ok D w" and "bt_get (party_invitations w) p = Some S"
    and "I = (if bt_is_empty (bt_remove l S) then bt_remove p (party_invitations w)
      else bt_insert p (bt_remove l S) (party_invitations w))"
  shows "party_ok D (w\<lparr>party_invitations := I\<rparr>)"
proof (rule party_okI, goal_cases)
  case (3 q S')
  then have "bt_get I q = Some S'" by simp
  then have "q \<noteq> p \<and> bt_get (party_invitations w) q = Some S' \<or>
      q = p \<and> S' = bt_remove l S \<and> bt_remove l S \<noteq> bt_empty"
    unfolding assms(3) by (auto simp: bt_get_insert bt_get_remove split: if_splits)
  then show ?case
    using party_okD(3) [OF assms(1)] assms(2) by auto
qed (use party_okD [OF assms(1)] in simp_all)

lemma revoke_party_invitation_wf: "world_wf w \<Longrightarrow> world_wf (snd (revoke_party_invitation l p w))"
  unfolding revoke_party_invitation_def Let_def
proof (rule keepsI, intro keeps_intros, goal_cases)
  case (6 u u' S)
  let ?w = "w\<lparr>party_invitations := if bt_is_empty (bt_remove l S) then bt_remove p (party_invitations w)
      else bt_insert p (bt_remove l S) (party_invitations w)\<rparr>"
  have eq: "(if bt_is_empty (bt_remove l S)
      then w\<lparr>party_invitations := bt_insert p (bt_remove l S) (party_invitations w)\<rparr>
        \<lparr>party_invitations := bt_remove p (party_invitations
          (w\<lparr>party_invitations := bt_insert p (bt_remove l S) (party_invitations w)\<rparr>))\<rparr>
      else w\<lparr>party_invitations := bt_insert p (bt_remove l S) (party_invitations w)\<rparr>) = ?w"
    by simp
  have "party_ok (registered w) ?w"
    by (rule revoked_ok [OF party_ok_world [OF 6(1)] _ refl]) (use 6 in simp)
  from disband_if_empty_ok [OF this] show ?case
    unfolding eq by (intro party_wfI [OF 6(1)]) simp_all
qed assumption+

lemma check_members_Ok:
  "check_members ms w = Ok u \<longleftrightarrow> (\<forall>m \<in> set ms. m \<in> registered w \<and> \<not> in_party m w)"
  by (induction ms) auto

lemma sorted_distinct_adj: "sorted xs \<Longrightarrow> distinct_adj xs \<longleftrightarrow> distinct (xs :: nat list)"
proof (induction xs)
  case (Cons x xs)
  then show ?case by (cases xs) (auto simp: distinct_adj_Cons)
qed simp

lemma remdups_adj_sort: "length (remdups_adj (sort xs)) = length xs \<longleftrightarrow> distinct (xs :: nat list)"
  using distinct_adj_conv_length_remdups_adj [of "sort xs"] sorted_distinct_adj [of "sort xs"] by simp

lemma restored_ok:
  assumes "party_ok D w" and "l \<in> D" and "\<not> in_party l w" and "l \<notin> set ms"
    and "\<And>m. m \<in> set ms \<Longrightarrow> m \<in> D \<and> \<not> in_party m w"
  shows "party_ok D (w\<lparr>party_memberships := foldl (\<lambda>M m. bt_insert m l M) (party_memberships w) ms,
     party_leaders := bs_insert l (party_leaders w)\<rparr>)"
  by (rule party_okI)
    (use assms party_okD [OF assms(1)] in \<open>auto simp: get_foldl_insert not_in_party split: if_splits\<close>)

lemma restore_party_snapshot_wf: "world_wf w \<Longrightarrow> world_wf (snd (restore_party_snapshot l ms w))"
  unfolding restore_party_snapshot_def Let_def
proof (rule keepsI, intro keeps_intros, goal_cases)
  case (6 u u')
  let ?ms = "remdups_adj (sort ms)"
  have "party_ok (registered w) (w\<lparr>party_memberships :=
      foldl (\<lambda>M m. bt_insert m l M) (party_memberships w) ?ms,
     party_leaders := bs_insert l (party_leaders w)\<rparr>)"
    by (rule restored_ok [OF party_ok_world [OF 6(1)]])
      (use 6 in \<open>auto simp: check_members_Ok \<close>)
  then show ?case by (intro party_wfI [OF 6(1)]) simp_all
qed assumption+

lemma add_existing_party_member_wf: "world_wf w \<Longrightarrow> world_wf (snd (add_existing_party_member l p w))"
  unfolding add_existing_party_member_def
proof (rule keepsI, intro keeps_intros, goal_cases)
  case (6 u u')
  from add_member_ok [OF party_ok_world [OF 6(1)], of p l] 6 not_in_party [of p w] show ?case
    by (intro party_wfI [OF 6(1)]) simp_all
qed assumption+

lemma set_shared_wf: "world_wf w \<Longrightarrow> world_wf (snd (set_party_shared_experience_requested l b r w))"
  unfolding set_party_shared_experience_requested_def Let_def
proof (rule keepsI, intro keeps_intros, goal_cases)
  case (3 u)
  have "party_ok (registered w) (w\<lparr>party_shared_requested :=
      if b then bs_insert l (party_shared_requested w) else bt_remove l (party_shared_requested w)\<rparr>)"
    by (rule party_okI) (use 3 party_okD [OF party_ok_world [OF 3(1)]] in \<open>auto split: if_splits\<close>)
  from party_wfI [OF 3(1) _ this] show ?case by simp
qed assumption+

lemma activity_ok:
  "party_ok D w \<Longrightarrow> p \<in> D \<Longrightarrow> party_ok D (w\<lparr>party_activity := bt_insert p t (party_activity w)\<rparr>)"
  by (auto simp: party_ok_iff)

lemma record_activity_wf: "world_wf w \<Longrightarrow> world_wf (snd (record_party_shared_experience_activity p w))"
  unfolding record_party_shared_experience_activity_def Let_def
proof (rule keepsI, intro keeps_intros, goal_cases)
  case (4 u l)
  have "party_ok (registered w) (w\<lparr>party_activity := bt_insert p (tick w) (party_activity w)\<rparr>)"
    by (rule activity_ok [OF party_ok_world [OF 4(1)]]) (use 4 in simp)
  from party_wfI [OF 4(1) _ this] show ?case by simp
qed assumption+

section \<open>Removing a player\<close>

lemma disband_party_gone:
  "bt_get (party_memberships (disband_party l w)) p = Some k \<Longrightarrow> bt_get (party_memberships w) p = Some k"
  "bt_mem p (party_leaders (disband_party l w)) \<Longrightarrow> bt_mem p (party_leaders w)"
  "bt_mem p (party_activity (disband_party l w)) \<Longrightarrow> bt_mem p (party_activity w)"
  "bt_get (party_invitations w) p = None \<Longrightarrow> bt_get (party_invitations (disband_party l w)) p = None"
  by (auto simp: disband_party_def bt_mem_retain_get bt_mem_foldl_remove bt_get_retain
      split: option.splits if_splits)

text \<open>No table of the party component mentions the player any more.\<close>

definition party_free :: "nat \<Rightarrow> world_state \<Rightarrow> bool" where
  "party_free p w \<longleftrightarrow> \<not> bt_mem p (party_leaders w) \<and> bt_get (party_memberships w) p = None \<and>
     bt_get (party_invitations w) p = None \<and> \<not> bt_mem p (party_activity w)"

lemma party_free_disband: "party_free p w \<Longrightarrow> party_free p (disband_party_if_empty l w)"
  using disband_party_gone(1) [of l w p] disband_party_gone(2,3) [of p l w] disband_party_gone(4) [of w p l]
  by (cases "bt_get (party_memberships (disband_party l w)) p")
    (auto simp: party_free_def disband_party_if_empty_def)

lemma party_free_fold:
  "party_free p w \<Longrightarrow> party_free p (foldl (\<lambda>w l. disband_party_if_empty l w) w ls)"
  by (induction ls arbitrary: w) (simp_all add: party_free_disband)

lemma party_ok_shrink: "party_ok D w \<Longrightarrow> party_free p w \<Longrightarrow> party_ok (D - {p}) w"
  by (rule party_okI) (auto simp: party_free_def dest: party_okD)

lemma remove_party_leader_gone:
  assumes "party_ok D w" and "bt_mem p (party_leaders w)"
  shows "\<not> bt_mem p (party_leaders (remove_party_leader p w)) \<and>
    bt_get (party_memberships (remove_party_leader p w)) p = None \<and>
    (bt_mem p (party_activity (remove_party_leader p w)) \<longrightarrow> bt_mem p (party_activity w))"
proof -
  have none: "bt_get (party_memberships w) p = None"
    using party_okD(2) [OF assms(1)] assms(2) by (metis not_None_eq)
  show ?thesis
  proof (cases "party_member_ids w p")
    case Nil
    then show ?thesis
      using none by (auto simp: remove_party_leader_def disband_party_def bt_get_retain bt_mem_foldl_remove)
  next
    case (Cons new rest)
    then have ms: "set (new # rest) = {m. bt_get (party_memberships w) m = Some p}"
      using set_party_member_ids [of w p] by simp
    with none have "p \<notin> set (new # rest)" by simp
    with Cons none show ?thesis
      by (auto simp: remove_party_leader_def get_follow_leader bt_get_remove
          simp del: foldl_Cons)
  qed
qed

lemma clear_player_party_state_ok:
  assumes "party_ok D w"
  shows "party_ok (D - {p}) (clear_player_party_state p w) \<and> party_free p (clear_player_party_state p w)"
proof -
  let ?w1 = "w\<lparr>party_activity := bt_remove p (party_activity w)\<rparr>"
  let ?w2 = "if bt_mem p (party_leaders ?w1) then remove_party_leader p ?w1
    else case bt_get (party_memberships ?w1) p of
      Some leader \<Rightarrow> disband_party_if_empty leader
        (?w1\<lparr>party_memberships := bt_remove p (party_memberships ?w1)\<rparr>)
    | None \<Rightarrow> ?w1"
  let ?w3 = "?w2\<lparr>party_invitations := bt_remove p (party_invitations ?w2)\<rparr>"
  have ok1: "party_ok D ?w1"
    by (rule party_okI) (use party_okD [OF assms] in auto)
  have act1: "\<not> bt_mem p (party_activity ?w1)" by simp
  have "party_ok D ?w2 \<and> \<not> bt_mem p (party_leaders ?w2) \<and>
      bt_get (party_memberships ?w2) p = None \<and> \<not> bt_mem p (party_activity ?w2)"
  proof (cases "bt_mem p (party_leaders ?w1)")
    case True
    with remove_party_leader_ok [OF ok1, of p] remove_party_leader_gone [OF ok1 True] act1
    show ?thesis by auto
  next
    case False
    note nl = False
    show ?thesis
    proof (cases "bt_get (party_memberships ?w1) p")
      case None
      with nl ok1 act1 show ?thesis by simp
    next
      case (Some l)
      let ?v = "?w1\<lparr>party_memberships := bt_remove p (party_memberships ?w1)\<rparr>"
      from disband_if_empty_ok [OF drop_member_ok [OF ok1]]
      have "party_ok D (disband_party_if_empty l ?v)" .
      moreover have "\<not> bt_mem p (party_leaders (disband_party_if_empty l ?v))"
        using nl disband_party_gone(2) [of p l ?v] by (auto simp: disband_party_if_empty_def)
      moreover have "bt_get (party_memberships (disband_party_if_empty l ?v)) p = None"
        using disband_party_gone(1) [of l ?v p] by (auto simp: disband_party_if_empty_def) (metis not_None_eq bt_get_remove_same)
      moreover have "\<not> bt_mem p (party_activity (disband_party_if_empty l ?v))"
        using disband_party_gone(3) [of p l ?v] by (auto simp: disband_party_if_empty_def)
      ultimately show ?thesis using nl Some by simp
    qed
  qed
  then have "party_ok D ?w3" and free: "party_free p ?w3"
    using drop_invitation_ok [of D ?w2 p] by (auto simp: party_free_def)
  then have "party_ok (D - {p}) ?w3" by (rule party_ok_shrink)
  from fold_disband_ok(1) [OF this] party_free_fold [OF free] show ?thesis
    unfolding clear_player_party_state_def Let_def by blast
qed

lemma drop_player_refs_ok:
  assumes "intent_ok D p i" and "intent_some (drop_player_refs q i)"
  shows "intent_ok D p (drop_player_refs q i)" and "p \<noteq> q \<Longrightarrow> intent_ok (D - {q}) p (drop_player_refs q i)"
proof -
  have "drop_player_refs q i \<noteq> default_intent"
    using assms(2) by (auto simp: intent_some_def default_intent_def)
  then show "intent_ok D p (drop_player_refs q i)"
    and "p \<noteq> q \<Longrightarrow> intent_ok (D - {q}) p (drop_player_refs q i)"
    using assms(1) by (simp_all add: intent_ok_def) (auto simp: drop_player_refs_def)
qed

lemma clear_refs_get:
  "bt_get (bt_retain (\<lambda>_. intent_some) (bt_map (\<lambda>_. drop_player_refs q) m)) p = Some i \<longleftrightarrow>
     (\<exists>i0. bt_get m p = Some i0 \<and> i = drop_player_refs q i0 \<and> intent_some i)"
  by (auto simp: bt_mem_retain_get)

lemma clear_refs_intents:
  assumes "intents_wf D m"
  shows "intents_wf D (bt_retain (\<lambda>_. intent_some) (bt_map (\<lambda>_. drop_player_refs q) m))"
    and "bt_get m q = None \<Longrightarrow>
      intents_wf (D - {q}) (bt_retain (\<lambda>_. intent_some) (bt_map (\<lambda>_. drop_player_refs q) m))"
proof -
  show "intents_wf D (bt_retain (\<lambda>_. intent_some) (bt_map (\<lambda>_. drop_player_refs q) m))"
    unfolding intents_wf_def clear_refs_get
    using assms drop_player_refs_ok(1) by (auto simp: intents_wf_def)
  assume none: "bt_get m q = None"
  show "intents_wf (D - {q}) (bt_retain (\<lambda>_. intent_some) (bt_map (\<lambda>_. drop_player_refs q) m))"
    unfolding intents_wf_def clear_refs_get
  proof (intro allI impI, elim exE conjE)
    fix p i i0
    assume i0: "bt_get m p = Some i0" "i = drop_player_refs q i0" "intent_some i"
    with none have "p \<noteq> q" by auto
    with i0 assms drop_player_refs_ok(2) [of D p i0 q] show "intent_ok (D - {q}) p i"
      by (simp add: intents_wf_def)
  qed
qed

lemma clear_refs_wf:
  assumes "world_wf w"
  shows "world_wf (clear_player_interaction_references q w)"
proof -
  have "intents_wf (registered w) (w_interactions w)" using assms by (simp add: world_wf_def)
  from clear_refs_intents(1) [OF this] assms show ?thesis
    by (simp add: clear_player_interaction_references_def world_simps)
qed

section \<open>The party machine\<close>

datatype party_command =
  Invite nat nat
| AcceptInvitation nat nat
| Leave nat
| TransferLeadership nat nat
| Revoke nat nat
| RestoreSnapshot nat "nat list"
| AddMember nat nat
| RequestShared nat bool shared_rules
| RecordActivity nat

definition discard :: "'a result \<times> world_state \<Rightarrow> unit result \<times> world_state" where
  "discard p = (map_sum id (\<lambda>_. ()) (fst p), snd p)"

lemma snd_discard [simp]: "snd (discard p) = snd p"
  by (simp add: discard_def)

lemma discard_Inl [simp]: "discard p = (Inl e, w) \<longleftrightarrow> p = (Inl e, w)"
  by (cases p; cases "fst p") (auto simp: discard_def)

fun exec_party :: "party_command \<Rightarrow> unit action" where
  "exec_party (Invite l p) w = invite_to_party l p w"
| "exec_party (AcceptInvitation p l) w = accept_party_invitation p l w"
| "exec_party (Leave p) w = leave_party p w"
| "exec_party (TransferLeadership l p) w = transfer_party_leadership l p w"
| "exec_party (Revoke l p) w = revoke_party_invitation l p w"
| "exec_party (RestoreSnapshot l ms) w = restore_party_snapshot l ms w"
| "exec_party (AddMember l p) w = add_existing_party_member l p w"
| "exec_party (RequestShared l b r) w = discard (set_party_shared_experience_requested l b r w)"
| "exec_party (RecordActivity p) w = record_party_shared_experience_activity p w"

lemmas party_op_defs =
  invite_to_party_def accept_party_invitation_def leave_party_def transfer_party_leadership_def
  revoke_party_invitation_def restore_party_snapshot_def add_existing_party_member_def
  record_party_shared_experience_activity_def

lemma set_shared_atomic:
  "set_party_shared_experience_requested l b r w = (Inl e, w') \<Longrightarrow> w' = w"
  by (auto simp: set_party_shared_experience_requested_def party_shared_experience_state_def Let_def
      mark_changed_def split: if_splits)

interpretation party: atomic_machine exec_party world_wf "\<lambda>_. True"
proof
  show "world_wf (snd (exec_party c w))" if "world_wf w" for c w
    using that
    by (cases c)
      (simp_all add: invite_to_party_wf accept_party_invitation_wf leave_party_wf
        transfer_party_leadership_wf revoke_party_invitation_wf restore_party_snapshot_wf
        add_existing_party_member_wf set_shared_wf record_activity_wf)
  show "w' = w" if "exec_party c w = (Inl e, w')" for c w e w'
    using that
    by (cases c)
      (auto simp: party_op_defs Let_def dest: set_shared_atomic split: if_splits option.splits)
qed

section \<open>What leaving and handing over do\<close>

definition party_participants :: "world_state \<Rightarrow> nat \<Rightarrow> nat set" where
  "party_participants w l = insert l (set (party_member_ids w l))"

lemma player_party_leader_Ok:
  "player_party_leader w p = Ok l \<longleftrightarrow> p \<in> registered w \<and>
     l = (if bt_mem p (party_leaders w) then Some p else bt_get (party_memberships w) p)"
  by (auto simp: player_party_leader_def)

lemma player_party_leader_participant:
  assumes "world_wf w"
  shows "player_party_leader w p = Ok (Some l) \<longleftrightarrow> bt_mem l (party_leaders w) \<and> p \<in> party_participants w l"
  using party_okD [OF party_ok_world [OF assms]]
  by (auto simp: player_party_leader_Ok party_participants_def)

lemma mark_party [simp]:
  "party_leaders (mark_changed w) = party_leaders w"
  "party_memberships (mark_changed w) = party_memberships w"
  "party_invitations (mark_changed w) = party_invitations w"
  "party_shared_requested (mark_changed w) = party_shared_requested w"
  "party_activity (mark_changed w) = party_activity w"
  "players (mark_changed w) = players w"
  "party_member_ids (mark_changed w) l = party_member_ids w l"
  by (simp_all add: mark_changed_def party_member_ids_def)

lemma strip_players: "strip_party w' = strip_party w \<Longrightarrow> players w' = players w"
  by (drule arg_cong [of _ _ players]) (simp add: strip_party_def)

lemma leave_party_strip:
  "leave_party p w = (r, w') \<Longrightarrow> strip_party w' = strip_party w"
  by (auto simp: leave_party_def attempt_def split: sum.splits if_splits option.splits)

text \<open>After leaving, the player is in no party.\<close>

lemma leave_party_free:
  assumes "world_wf w" and "leave_party p w = (Ok (), w')"
  shows "player_party_leader w' p = Ok None \<and> \<not> in_party p w'"
proof -
  have p: "p \<in> registered w'"
    using assms(2) strip_players [OF leave_party_strip [OF assms(2)]] by (auto simp: leave_party_def)
  have "\<not> bt_mem p (party_leaders w') \<and> bt_get (party_memberships w') p = None"
  proof (cases "bt_mem p (party_leaders w)")
    case True
    then show ?thesis
      using assms remove_party_leader_gone [OF party_ok_world [OF assms(1)] True]
      by (auto simp: leave_party_def)
  next
    case False
    with assms(2) obtain l where w': "w' = mark_changed (disband_party_if_empty l
        (w\<lparr>party_memberships := bt_remove p (party_memberships w)\<rparr>))"
      by (auto simp: leave_party_def split: option.splits)
    show ?thesis
      unfolding w' using False disband_party_gone(1) [of l "w\<lparr>party_memberships := bt_remove p (party_memberships w)\<rparr>" p]
        disband_party_gone(2) [of p l "w\<lparr>party_memberships := bt_remove p (party_memberships w)\<rparr>"]
      by (auto simp: disband_party_if_empty_def) (metis not_None_eq bt_get_remove_same)
  qed
  with p show ?thesis by (simp add: player_party_leader_Ok not_in_party)
qed

text \<open>When a leader with members leaves, the member with the least identifier leads the rest.\<close>

lemma leave_party_succession:
  assumes "world_wf w" and "leave_party p w = (Ok (), w')" and "bt_mem p (party_leaders w)"
    and "party_member_ids w p = new # rest"
  shows "party_participants w' new = party_participants w p - {p}"
    and "bt_mem new (party_leaders w')" and "\<forall>q \<in> set rest. new < q"
    and "\<And>q. q \<notin> party_participants w p \<Longrightarrow> player_party_leader w' q = player_party_leader w q"
proof -
  let ?M = "party_memberships w"
  have ms: "set (new # rest) = {m. bt_get ?M m = Some p}"
    using assms(4) set_party_member_ids [of w p] by simp
  note d = party_okD [OF party_ok_world [OF assms(1)]]
  have none: "bt_get ?M p = None" using d(2) assms(3) by (metis not_None_eq)
  have new: "bt_get ?M new = Some p" using ms by auto
  from assms(2,3) have w': "w' = mark_changed (remove_party_leader p w)"
    by (auto simp: leave_party_def)
  have L: "party_leaders w' = bs_insert new (bt_remove p (party_leaders w))"
    by (simp add: w' remove_party_leader_def assms(4))
  have M: "bt_get (party_memberships w') q = (if q = new then None
      else if bt_get ?M q = Some p then Some new else bt_get ?M q)" for q
    unfolding w' remove_party_leader_def assms(4) using ms
    by (auto simp: get_follow_leader bt_get_remove simp del: foldl_Cons)
  show "bt_mem new (party_leaders w')" by (simp add: L)
  have "bt_get ?M q \<noteq> Some new" for q using d(2) [of q new] d(2) [OF new] by auto
  then show "party_participants w' new = party_participants w p - {p}"
    using none new by (auto simp: party_participants_def M)
  show "\<forall>q \<in> set rest. new < q"
    using sorted_party_member_ids [of w p] assms(4) by simp
  fix q assume q: "q \<notin> party_participants w p"
  then have "q \<noteq> p" "bt_get ?M q \<noteq> Some p" "q \<noteq> new" using new by (auto simp: party_participants_def)
  then show "player_party_leader w' q = player_party_leader w q"
    using strip_players [OF leave_party_strip [OF assms(2)]]
    by (simp add: player_party_leader_def require_player_def L M)
qed

text \<open>A transfer keeps the participants of the party; only the leader changes.\<close>

lemma transfer_participants:
  assumes "world_wf w" and "transfer_party_leadership l new w = (Ok (), w')"
  shows "party_participants w' new = party_participants w l \<and> bt_mem new (party_leaders w') \<and>
    \<not> bt_mem l (party_leaders w') \<and>
    (\<forall>k. k \<noteq> l \<and> bt_mem k (party_leaders w) \<longrightarrow> party_participants w' k = party_participants w k)"
proof -
  from assms(2) have ne: "l \<noteq> new" and new: "bt_get (party_memberships w) new = Some l"
    and L: "party_leaders w' = bs_insert new (bt_remove l (party_leaders w))"
    and M': "party_memberships w' = bt_insert l new
              (bt_map (\<lambda>_ k. if k = l then new else k) (bt_remove new (party_memberships w)))"
    by (auto simp: transfer_party_leadership_def split: if_splits)
  note d = party_okD [OF party_ok_world [OF assms(1)]]
  have none: "bt_get (party_memberships w) l = None"
    using d(2) new by (metis not_None_eq)
  note M = transfer_M [OF ne [symmetric] none, folded M']
  have nl: "bt_get (party_memberships w) q \<noteq> Some new" for q using d(2) [of q new] d(2) [OF new] by auto
  show ?thesis
    using none new ne nl L d(2) [OF new] by (auto simp: party_participants_def M split: if_splits)
qed

section \<open>Shared experience recipients\<close>

lemma check_participants_Eligible:
  "check_participants rules w leader lv ps = Eligible \<longleftrightarrow>
     (\<forall>p \<in> set ps. \<exists>pl. bt_get (players w) p = Some pl \<and> lv \<le> pl_level pl \<and>
        position_range (pl_position pl) (pl_position leader) \<le> sr_range rules \<and>
        abs_diff (pos_z (pl_position pl)) (pos_z (pl_position leader)) \<le> sr_floor_delta rules \<and>
        recently_active rules w p)"
  by (induction ps) (auto split: option.splits)

lemma foldl_max_ge: "x \<in> set xs \<Longrightarrow> x \<le> foldl max (a :: nat) xs" and foldl_max_init: "a \<le> foldl max (a :: nat) xs"
  by (induction xs arbitrary: a) (auto intro: le_trans [OF max.cobounded1] le_trans [OF max.cobounded2])

lemma highest_level_ge:
  "p \<in> set ps \<Longrightarrow> bt_get (players w) p = Some pl \<Longrightarrow> pl_level pl \<le> highest_level w ps"
  unfolding highest_level_def by (rule foldl_max_ge) force

lemma minimum_shared_level_ge: "2 * h \<le> u32_max - 2 \<Longrightarrow> 2 * h \<le> 3 * minimum_shared_level h"
  by (simp add: minimum_shared_level_def sat_defs min_def)

text \<open>When shared experience has recipients, they are the whole party in ascending order; no two
  of them are more than a third apart in level, and each one is near the leader and was
  recently active.\<close>

lemma recipients_Some:
  assumes "world_wf w" and "party_shared_experience_recipients w p rules = Ok (Some rs)"
  obtains l lead where "bt_mem l (party_leaders w)" and "p \<in> set rs"
    and "set rs = party_participants w l" and "sorted_wrt (<) rs" and "2 \<le> length rs"
    and "bt_get (players w) l = Some lead"
    and "\<forall>q \<in> set rs. \<exists>pl. bt_get (players w) q = Some pl \<and>
        minimum_shared_level (highest_level w (l # party_member_ids w l)) \<le> pl_level pl \<and>
        position_range (pl_position pl) (pl_position lead) \<le> sr_range rules \<and>
        abs_diff (pos_z (pl_position pl)) (pos_z (pl_position lead)) \<le> sr_floor_delta rules \<and>
        recently_active rules w q"
proof -
  from assms(2) obtain l st where pl: "player_party_leader w p = Ok (Some l)"
    and st: "party_shared_experience_state w l rules = Ok st" and el: "ss_eligibility st = Eligible"
    and rs: "rs = sort (party_member_ids w l @ [l])"
    by (auto simp: party_shared_experience_recipients_def split: option.splits if_splits)
  from pl have l: "bt_mem l (party_leaders w)" and p: "p \<in> party_participants w l"
    by (simp_all add: player_party_leader_participant [OF assms(1)])
  from st el obtain lead where lead: "bt_get (players w) l = Some lead"
    and ms: "party_member_ids w l \<noteq> []"
    and chk: "check_participants rules w lead
        (minimum_shared_level (highest_level w (l # party_member_ids w l))) (l # party_member_ids w l) = Eligible"
    by (auto simp: party_shared_experience_state_def Let_def simp del: check_participants.simps
        split: if_splits option.splits)
  have none: "bt_get (party_memberships w) l = None"
    using party_okD(2) [OF party_ok_world [OF assms(1)]] l by (metis not_None_eq)
  have set: "set rs = party_participants w l" by (auto simp: rs party_participants_def)
  have "sorted_wrt (<) rs"
    unfolding rs strict_sorted_iff using none by auto
  moreover have "2 \<le> length rs" using ms by (cases "party_member_ids w l") (simp_all add: rs)
  ultimately show ?thesis
    using that [OF l _ set _ _ lead] p chk set
    by (auto simp: check_participants_Eligible party_participants_def simp del: check_participants.simps)
qed

section \<open>Snapshots round trip\<close>

text \<open>Restoring a list of exported parties one after the other.\<close>

fun restore_all :: "(nat \<times> nat list) list \<Rightarrow> unit action" where
  "restore_all [] w = (Ok (), w)"
| "restore_all ((l, ms) # ss) w = chain (restore_party_snapshot l ms w) (\<lambda>_. restore_all ss)"

lemma restore_sorted:
  assumes "sorted_wrt (<) ms" and "l \<in> registered w" and "\<not> in_party l w" and "l \<notin> set ms"
    and "\<forall>m \<in> set ms. m \<in> registered w \<and> \<not> in_party m w"
  shows "restore_party_snapshot l ms w =
    (Ok (), w\<lparr>party_memberships := foldl (\<lambda>M m. bt_insert m l M) (party_memberships w) ms,
       party_leaders := bs_insert l (party_leaders w)\<rparr>)"
proof -
  have "sorted ms" and "distinct ms" using assms(1) by (simp_all add: strict_sorted_iff)
  then have "remdups_adj (sort ms) = ms" by (simp add: sorted_sort_id remdups_adj_distinct)
  moreover have "check_members ms w = Ok ()" using assms(5) by (simp add: check_members_Ok)
  ultimately show ?thesis
    using assms(2-4) by (simp add: restore_party_snapshot_def Let_def require_player_def)
qed

lemma restore_all_snapshots:
  assumes "party_ok (registered w) w" and "registered v = registered w"
    and "distinct ls" and "set ls \<subseteq> {l. bt_mem l (party_leaders w)}"
    and "\<forall>p. bt_mem p (party_leaders v) \<longleftrightarrow> p \<in> done"
    and "\<forall>p k. bt_get (party_memberships v) p = Some k \<longleftrightarrow>
      bt_get (party_memberships w) p = Some k \<and> k \<in> done"
    and "set ls \<inter> done = {}" and "done \<subseteq> {l. bt_mem l (party_leaders w)}"
  shows "\<exists>L M. restore_all (map (\<lambda>l. (l, party_member_ids w l)) ls) v =
      (Ok (), v\<lparr>party_memberships := M, party_leaders := L\<rparr>) \<and>
    (\<forall>p. bt_mem p L \<longleftrightarrow> p \<in> done \<union> set ls) \<and>
    (\<forall>p k. bt_get M p = Some k \<longleftrightarrow> bt_get (party_memberships w) p = Some k \<and> k \<in> done \<union> set ls)"
  using assms(2-)
proof (induction ls arbitrary: v "done")
  case Nil
  then show ?case
    by (intro exI [of _ "party_leaders v"] exI [of _ "party_memberships v"]) simp
next
  case (Cons l ls)
  note d = party_okD [OF assms(1)]
  let ?ms = "party_member_ids w l"
  let ?v = "v\<lparr>party_memberships := foldl (\<lambda>M m. bt_insert m l M) (party_memberships v) ?ms,
      party_leaders := bs_insert l (party_leaders v)\<rparr>"
  have l: "bt_mem l (party_leaders w)" and nd: "l \<notin> done" using Cons.prems by auto
  have none: "bt_get (party_memberships w) l = None" using d(2) l by (metis not_None_eq)
  have step: "restore_party_snapshot l ?ms v = (Ok (), ?v)"
  proof (rule restore_sorted [OF sorted_party_member_ids])
    show "l \<in> registered v" using d(1) [OF l] Cons.prems(1) by simp
    show "\<not> in_party l v" using Cons.prems nd none
      by (cases "bt_get (party_memberships v) l") (auto simp: not_in_party)
    show "l \<notin> set ?ms" using none by simp
    show "\<forall>m \<in> set ?ms. m \<in> registered v \<and> \<not> in_party m v"
    proof
      fix m assume "m \<in> set ?ms"
      then have m: "bt_get (party_memberships w) m = Some l" by simp
      with d(2) [OF m] Cons.prems nd show "m \<in> registered v \<and> \<not> in_party m v"
        by (cases "bt_get (party_memberships v) m") (auto simp: not_in_party)
    qed
  qed
  have M: "bt_get (party_memberships ?v) p = Some k \<longleftrightarrow>
      bt_get (party_memberships w) p = Some k \<and> k \<in> insert l done" for p k
    using Cons.prems(5) nd by (auto simp: get_foldl_insert)
  have "\<exists>L M. restore_all (map (\<lambda>l. (l, party_member_ids w l)) ls) ?v =
      (Ok (), ?v\<lparr>party_memberships := M, party_leaders := L\<rparr>) \<and>
    (\<forall>p. bt_mem p L \<longleftrightarrow> p \<in> insert l done \<union> set ls) \<and>
    (\<forall>p k. bt_get M p = Some k \<longleftrightarrow>
       bt_get (party_memberships w) p = Some k \<and> k \<in> insert l done \<union> set ls)"
    by (rule Cons.IH) (use Cons.prems l M in auto)
  then show ?case using step by auto
qed

lemma party_snapshots_restore:
  assumes "world_wf w" and "registered v = registered w"
    and "party_leaders v = bt_empty" and "party_memberships v = bt_empty"
  shows "restore_all (party_snapshots w) v =
    (Ok (), v\<lparr>party_memberships := party_memberships w, party_leaders := party_leaders w\<rparr>)"
proof -
  let ?ls = "bt_keys (party_leaders w)"
  note ok = party_ok_world [OF assms(1)]
  have ls: "l \<in> set ?ls \<longleftrightarrow> bt_mem l (party_leaders w)" for l by (simp only: set_bt_keys bt_mem_iff)
  have "\<exists>L M. restore_all (map (\<lambda>l. (l, party_member_ids w l)) ?ls) v =
      (Ok (), v\<lparr>party_memberships := M, party_leaders := L\<rparr>) \<and>
    (\<forall>p. bt_mem p L \<longleftrightarrow> p \<in> {} \<union> set ?ls) \<and>
    (\<forall>p k. bt_get M p = Some k \<longleftrightarrow> bt_get (party_memberships w) p = Some k \<and> k \<in> {} \<union> set ?ls)"
    by (rule restore_all_snapshots [OF ok assms(2)])
      (use assms ls in \<open>auto simp del: set_bt_keys\<close>)
  then obtain L M where run: "restore_all (party_snapshots w) v =
      (Ok (), v\<lparr>party_memberships := M, party_leaders := L\<rparr>)"
    and L: "\<And>p. bt_mem p L \<longleftrightarrow> bt_mem p (party_leaders w)"
    and M: "\<And>p k. bt_get M p = Some k \<longleftrightarrow>
      bt_get (party_memberships w) p = Some k \<and> bt_mem k (party_leaders w)"
    unfolding party_snapshots_def Un_iff ls empty_iff by blast
  have "L = party_leaders w" using L by (rule bs_eqI)
  moreover have "M = party_memberships w"
  proof (rule bt_eqI)
    fix p
    have "bt_get M p = Some k \<longleftrightarrow> bt_get (party_memberships w) p = Some k" for k
      using party_okD(2) [OF ok] by (auto simp: M)
    then show "bt_get M p = bt_get (party_memberships w) p" by (metis not_None_eq)
  qed
  ultimately show ?thesis using run by simp
qed

end
