(* ===== verification/World_Map.thy ===== *)
theory World_Map
  imports Text_Utf8 "HOL-Library.Word"
begin

unbundle bit_operations_syntax

text \<open>
  The imported world map (\<open>WorldMapTile\<close> to \<open>WorldMap::validate\<close> of
  \<open>crates/forgotten-core/src/lib.rs\<close>): tiles, ordered tile items, flags, houses, towns and
  waypoints; the FNV-1a revision of the complete content; and the revision-bound removal
  journal. The hasher is a \<open>64 word\<close>, so its multiplication wraps as the source's
  \<open>wrapping_mul\<close> does.
\<close>

abbreviation max_world_map_tiles :: nat where "max_world_map_tiles \<equiv> 16000000"
abbreviation max_world_map_items_per_tile :: nat where "max_world_map_items_per_tile \<equiv> 64"
abbreviation max_world_map_towns :: nat where "max_world_map_towns \<equiv> 8192"
abbreviation max_world_map_waypoints :: nat where "max_world_map_waypoints \<equiv> 8192"

section \<open>Data\<close>

record world_map_tile =
  ground_thing_id :: nat
  walkable :: bool

datatype world_map_item =
  World_Map_Item (wi_server_id: nat) (wi_client_thing_id: "nat option") (wi_count: nat)
    (wi_action_id: "nat option") (wi_unique_id: "nat option") (wi_text: "string option")
    (wi_description: "string option") (wi_teleport: "position option")
    (wi_duration: "nat option") (wi_charges: "nat option") (wi_children: "world_map_item list")

record otbm_header =
  oh_version :: nat
  oh_width :: nat
  oh_height :: nat
  oh_item_major :: nat
  oh_item_minor :: nat
  oh_description :: "string option"
  oh_spawn_file :: "string option"
  oh_house_file :: "string option"

datatype map_source = FeMapV1 | Otbm otbm_header

record map_town =
  town_id :: nat
  town_name :: string
  temple_position :: position

record item_source_identity =
  isi_revision :: "64 word"
  isi_position :: position
  isi_index :: nat

record world_map =
  wm_identifier :: string
  wm_spawn :: position
  wm_tiles :: "(position, world_map_tile) btmap"
  wm_source :: map_source
  wm_tile_items :: "(position, world_map_item list) btmap"
  wm_tile_flags :: "(position, nat) btmap"
  wm_house_tiles :: "(position, nat) btmap"
  wm_towns :: "(nat, map_town) btmap"
  wm_waypoints :: "(string, position) btmap"

section \<open>The revision hash\<close>

abbreviation fnv_offset_basis :: "64 word" where "fnv_offset_basis \<equiv> 0xcbf29ce484222325"
abbreviation fnv_prime :: "64 word" where "fnv_prime \<equiv> 0x00000100000001b3"

definition hash_byte :: "nat \<Rightarrow> 64 word \<Rightarrow> 64 word" where
  "hash_byte v h = (h XOR of_nat v) * fnv_prime"

definition hash_bytes :: "nat list \<Rightarrow> 64 word \<Rightarrow> 64 word" where
  "hash_bytes vs h = fold hash_byte vs h"

fun to_le_bytes :: "nat \<Rightarrow> nat \<Rightarrow> nat list" where
  "to_le_bytes 0 v = []"
| "to_le_bytes (Suc n) v = v mod 256 # to_le_bytes n (v div 256)"

definition hash_bool :: "bool \<Rightarrow> 64 word \<Rightarrow> 64 word" where
  "hash_bool b = hash_byte (if b then 1 else 0)"

definition hash_u16 :: "nat \<Rightarrow> 64 word \<Rightarrow> 64 word" where
  "hash_u16 v = hash_bytes (to_le_bytes 2 v)"

definition hash_u32 :: "nat \<Rightarrow> 64 word \<Rightarrow> 64 word" where
  "hash_u32 v = hash_bytes (to_le_bytes 4 v)"

definition hash_len :: "'a list \<Rightarrow> 64 word \<Rightarrow> 64 word" where
  "hash_len xs = hash_u32 (if length xs \<le> u32_max then length xs else u32_max)"

definition hash_string :: "string \<Rightarrow> 64 word \<Rightarrow> 64 word" where
  "hash_string s = hash_bytes (map of_char s) \<circ> hash_len s"

definition hash_position :: "position \<Rightarrow> 64 word \<Rightarrow> 64 word" where
  "hash_position p = hash_byte (pos_z p) \<circ> hash_u16 (pos_y p) \<circ> hash_u16 (pos_x p)"

definition hash_optional :: "('a \<Rightarrow> 64 word \<Rightarrow> 64 word) \<Rightarrow> 'a option \<Rightarrow> 64 word \<Rightarrow> 64 word" where
  "hash_optional hash v h =
     (let h' = hash_bool (v \<noteq> None) h in case v of None \<Rightarrow> h' | Some x \<Rightarrow> hash x h')"

fun hash_item :: "world_map_item \<Rightarrow> 64 word \<Rightarrow> 64 word" where
  "hash_item (World_Map_Item sid ctid cnt aid uid tx desc tele dur chg children) h =
     (let h = hash_u16 sid h;
          h = hash_optional hash_u16 ctid h;
          h = hash_byte cnt h;
          h = hash_optional hash_u16 aid h;
          h = hash_optional hash_u16 uid h;
          h = hash_optional hash_string tx h;
          h = hash_optional hash_string desc h;
          h = hash_optional hash_position tele h;
          h = hash_optional hash_u32 dur h;
          h = hash_optional hash_u16 chg h;
          h = hash_len children h
      in fold hash_item children h)"

definition hash_source :: "map_source \<Rightarrow> 64 word \<Rightarrow> 64 word" where
  "hash_source src h =
     (case src of
        FeMapV1 \<Rightarrow> hash_byte 0 h
      | Otbm hdr \<Rightarrow>
          (let h = hash_byte 1 h;
               h = hash_u32 (oh_version hdr) h;
               h = hash_u16 (oh_width hdr) h;
               h = hash_u16 (oh_height hdr) h;
               h = hash_u32 (oh_item_major hdr) h;
               h = hash_u32 (oh_item_minor hdr) h;
               h = hash_optional hash_string (oh_description hdr) h;
               h = hash_optional hash_string (oh_spawn_file hdr) h
           in hash_optional hash_string (oh_house_file hdr) h))"

text \<open>A length and the entries of an ordered map.\<close>

definition hash_entries ::
  "(('k::linorder \<times> 'v) \<Rightarrow> 64 word \<Rightarrow> 64 word) \<Rightarrow> ('k, 'v) btmap \<Rightarrow> 64 word \<Rightarrow> 64 word" where
  "hash_entries hash m h = fold hash (entries m) (hash_len (entries m) h)"

definition source_revision :: "world_map \<Rightarrow> 64 word" where
  "source_revision m =
     (let h = hash_string (wm_identifier m) fnv_offset_basis;
          h = hash_position (wm_spawn m) h;
          h = hash_source (wm_source m) h;
          h = hash_entries (\<lambda>(p, t). hash_bool (walkable t) \<circ> hash_u16 (ground_thing_id t) \<circ>
                hash_position p) (wm_tiles m) h;
          h = hash_entries (\<lambda>(p, its). fold hash_item its \<circ> hash_len its \<circ> hash_position p)
                (wm_tile_items m) h;
          h = hash_entries (\<lambda>(p, fl). hash_u32 fl \<circ> hash_position p) (wm_tile_flags m) h;
          h = hash_entries (\<lambda>(p, hid). hash_u32 hid \<circ> hash_position p) (wm_house_tiles m) h;
          h = hash_entries (\<lambda>(tid, t). hash_position (temple_position t) \<circ>
                hash_string (town_name t) \<circ> hash_u32 tid) (wm_towns m) h
      in hash_entries (\<lambda>(nm, p). hash_position p \<circ> hash_string nm) (wm_waypoints m) h)"

section \<open>Operations\<close>

definition map_new :: "string \<Rightarrow> position \<Rightarrow> world_map" where
  "map_new ident sp =
     \<lparr>wm_identifier = ident, wm_spawn = sp, wm_tiles = bt_empty, wm_source = FeMapV1,
      wm_tile_items = bt_empty, wm_tile_flags = bt_empty, wm_house_tiles = bt_empty,
      wm_towns = bt_empty, wm_waypoints = bt_empty\<rparr>"

definition source_item_identity :: "world_map \<Rightarrow> position \<Rightarrow> nat \<Rightarrow> item_source_identity option" where
  "source_item_identity m p i =
     (case bt_get (wm_tile_items m) p of
        None \<Rightarrow> None
      | Some its \<Rightarrow>
          if length its \<le> i then None
          else if i \<le> u8_max
          then Some \<lparr>isi_revision = source_revision m, isi_position = p, isi_index = i\<rparr>
          else None)"

definition is_walkable :: "world_map \<Rightarrow> position \<Rightarrow> bool" where
  "is_walkable m p = (case bt_get (wm_tiles m) p of None \<Rightarrow> False | Some t \<Rightarrow> walkable t)"

definition first_walkable_position :: "world_map \<Rightarrow> position option" where
  "first_walkable_position m = map_option fst (find (\<lambda>(p, t). walkable t) (entries (wm_tiles m)))"

definition set_tile :: "world_map \<Rightarrow> position \<Rightarrow> world_map_tile \<Rightarrow> world_map result" where
  "set_tile m p t =
     (if \<not> bt_mem p (wm_tiles m) \<and> bt_len (wm_tiles m) \<ge> max_world_map_tiles
      then Inl (map_fault (MapTileLimit max_world_map_tiles))
      else Ok (m\<lparr>wm_tiles := bt_insert p t (wm_tiles m)\<rparr>))"

definition set_tile_items :: "world_map \<Rightarrow> position \<Rightarrow> world_map_item list \<Rightarrow> world_map result" where
  "set_tile_items m p its =
     (if length its > max_world_map_items_per_tile
      then Inl (map_fault (MapTileItemLimit max_world_map_items_per_tile))
      else Ok (m\<lparr>wm_tile_items := bt_insert p its (wm_tile_items m)\<rparr>))"

text \<open>The first pass of \<open>apply_source_item_removals\<close>: the journal grouped by position.\<close>

fun collect_removals ::
  "64 word \<Rightarrow> world_map \<Rightarrow> item_source_identity list \<Rightarrow> (position, nat list) btmap \<Rightarrow>
     (position, nat list) btmap result" where
  "collect_removals rv m [] groups = Ok groups"
| "collect_removals rv m (r # rs) groups =
     (if isi_revision r \<noteq> rv
      then Inl (map_fault (InvalidMap
             ''map-item journal source revision does not match the loaded map''))
      else case bt_get (wm_tile_items m) (isi_position r) of
        None \<Rightarrow> Inl (map_fault (InvalidMap
             ''map-item journal references a missing tile item list''))
      | Some its \<Rightarrow>
          if length its \<le> isi_index r
          then Inl (map_fault (InvalidMap
                 ''map-item journal references a missing ordered source item''))
          else
            let idx = (case bt_get groups (isi_position r) of None \<Rightarrow> [] | Some is \<Rightarrow> is)
            in if isi_index r \<in> set idx
               then Inl (map_fault (InvalidMap
                      ''map-item journal repeats one source item identity''))
               else collect_removals rv m rs
                      (bt_insert (isi_position r) (idx @ [isi_index r]) groups))"

text \<open>\<open>Vec::remove\<close> panics out of range.\<close>

fun remove_each :: "nat list \<Rightarrow> 'a list \<Rightarrow> 'a list result" where
  "remove_each [] xs = Ok xs"
| "remove_each (i # is) xs =
     (if length xs \<le> i then Inl Panic else remove_each is (remove_at i xs))"

fun remove_groups :: "(position \<times> nat list) list \<Rightarrow> world_map \<Rightarrow> unit result \<times> world_map" where
  "remove_groups [] m = (Ok (), m)"
| "remove_groups ((p, idx) # gs) m =
     (case bt_get (wm_tile_items m) p of
        None \<Rightarrow> (Inl (map_fault (InvalidMap
             ''map-item journal references a missing tile item list'')), m)
      | Some its \<Rightarrow>
          attempt m (remove_each (rev (sort idx)) its) (\<lambda>its'.
            remove_groups gs (m\<lparr>wm_tile_items := bt_insert p its' (wm_tile_items m)\<rparr>)))"

definition apply_source_item_removals ::
  "item_source_identity list \<Rightarrow> world_map \<Rightarrow> unit result \<times> world_map" where
  "apply_source_item_removals rs m =
     attempt m (collect_removals (source_revision m) m rs bt_empty) (\<lambda>groups.
       remove_groups (entries groups) m)"

definition tile_flags :: "world_map \<Rightarrow> position \<Rightarrow> nat" where
  "tile_flags m p = (case bt_get (wm_tile_flags m) p of None \<Rightarrow> 0 | Some fl \<Rightarrow> fl)"

definition is_protection_zone :: "world_map \<Rightarrow> position \<Rightarrow> bool" where
  "is_protection_zone m p =
     (case bt_get (wm_tile_flags m) p of None \<Rightarrow> False | Some fl \<Rightarrow> fl AND 1 \<noteq> 0)"

definition set_tile_flags :: "world_map \<Rightarrow> position \<Rightarrow> nat \<Rightarrow> world_map" where
  "set_tile_flags m p fl =
     (if fl = 0 then m\<lparr>wm_tile_flags := bt_remove p (wm_tile_flags m)\<rparr>
      else m\<lparr>wm_tile_flags := bt_insert p fl (wm_tile_flags m)\<rparr>)"

definition set_house_tile :: "world_map \<Rightarrow> position \<Rightarrow> nat \<Rightarrow> world_map result" where
  "set_house_tile m p hid =
     (if hid = 0 then Inl (map_fault (InvalidMap ''house IDs must be nonzero''))
      else Ok (m\<lparr>wm_house_tiles := bt_insert p hid (wm_house_tiles m)\<rparr>))"

definition temple_position_for_town :: "world_map \<Rightarrow> nat \<Rightarrow> position option" where
  "temple_position_for_town m tid = map_option temple_position (bt_get (wm_towns m) tid)"

definition set_town :: "world_map \<Rightarrow> map_town \<Rightarrow> world_map result" where
  "set_town m t =
     (if town_id t = 0 \<or> blank (town_name t)
      then Inl (map_fault (InvalidMap
             ''town IDs must be nonzero and town names cannot be empty''))
      else if \<not> bt_mem (town_id t) (wm_towns m) \<and> bt_len (wm_towns m) \<ge> max_world_map_towns
      then Inl (map_fault (MapTownLimit max_world_map_towns))
      else Ok (m\<lparr>wm_towns := bt_insert (town_id t) t (wm_towns m)\<rparr>))"

definition set_waypoint :: "world_map \<Rightarrow> string \<Rightarrow> position \<Rightarrow> world_map result" where
  "set_waypoint m nm p =
     (if blank nm then Inl (map_fault (InvalidMap ''waypoint names cannot be empty''))
      else if \<not> bt_mem nm (wm_waypoints m) \<and> bt_len (wm_waypoints m) \<ge> max_world_map_waypoints
      then Inl (map_fault (MapWaypointLimit max_world_map_waypoints))
      else Ok (m\<lparr>wm_waypoints := bt_insert nm p (wm_waypoints m)\<rparr>))"

text \<open>The first key of an index that has no tile, reported with its coordinates.\<close>

definition require_tiles :: "string \<Rightarrow> world_map \<Rightarrow> (position, 'v) btmap \<Rightarrow> unit result" where
  "require_tiles what m index =
     (case find (\<lambda>p. \<not> bt_mem p (wm_tiles m)) (bt_keys index) of
        None \<Rightarrow> Ok ()
      | Some p \<Rightarrow> Inl (map_fault (InvalidMap
          (what @ dec (pos_x p) @ '','' @ dec (pos_y p) @ '','' @ dec (pos_z p)))))"

definition map_validate :: "world_map \<Rightarrow> unit result" where
  "map_validate m =
     (if blank (wm_identifier m)
      then Inl (map_fault (InvalidMap ''map identifier cannot be empty''))
      else if bt_len (wm_tiles m) = 0
      then Inl (map_fault (InvalidMap ''map must contain at least one tile''))
      else if \<not> is_walkable m (wm_spawn m)
      then Inl (map_fault (InvalidMap ''map spawn must reference a walkable tile''))
      else
        rbind (require_tiles ''tile item stack references missing tile at '' m (wm_tile_items m)) (\<lambda>_.
        rbind (require_tiles ''tile flags reference missing tile at '' m (wm_tile_flags m)) (\<lambda>_.
        rbind (require_tiles ''house tile references missing tile at '' m (wm_house_tiles m)) (\<lambda>_.
          case wm_source m of
            FeMapV1 \<Rightarrow> Ok ()
          | Otbm hdr \<Rightarrow>
              if \<not> (1 \<le> oh_version hdr \<and> oh_version hdr \<le> 2) \<or> oh_width hdr = 0 \<or> oh_height hdr = 0
              then Inl (map_fault (InvalidMap
                ''OTBM source metadata has an unsupported version or empty dimensions''))
              else Ok ()))))"

section \<open>Validation\<close>

definition source_ok :: "map_source \<Rightarrow> bool" where
  "source_ok src \<longleftrightarrow>
     (case src of FeMapV1 \<Rightarrow> True
      | Otbm hdr \<Rightarrow> 1 \<le> oh_version hdr \<and> oh_version hdr \<le> 2 \<and> 0 < oh_width hdr \<and> 0 < oh_height hdr)"

definition map_wf :: "world_map \<Rightarrow> bool" where
  "map_wf m \<longleftrightarrow>
     \<not> blank (wm_identifier m) \<and> is_walkable m (wm_spawn m) \<and>
     dom (bt_get (wm_tile_items m)) \<subseteq> dom (bt_get (wm_tiles m)) \<and>
     dom (bt_get (wm_tile_flags m)) \<subseteq> dom (bt_get (wm_tiles m)) \<and>
     dom (bt_get (wm_house_tiles m)) \<subseteq> dom (bt_get (wm_tiles m)) \<and>
     source_ok (wm_source m)"

lemma require_tiles_Ok [simp]:
  "require_tiles what m index = Ok u \<longleftrightarrow> dom (bt_get index) \<subseteq> dom (bt_get (wm_tiles m))"
proof -
  have "find (\<lambda>p. \<not> bt_mem p (wm_tiles m)) (bt_keys index) = None \<longleftrightarrow>
      dom (bt_get index) \<subseteq> dom (bt_get (wm_tiles m))"
    by (auto simp: find_None_iff bt_mem_iff)
  then show ?thesis
    by (auto simp: require_tiles_def split: option.splits)
qed

lemma is_walkable_has_tile: "is_walkable m p \<Longrightarrow> bt_len (wm_tiles m) \<noteq> 0"
  by (auto simp: is_walkable_def bt_len_eq_card domIff split: option.splits)

lemma map_validate_iff: "map_validate m = Ok () \<longleftrightarrow> map_wf m"
  by (auto simp: map_validate_def map_wf_def source_ok_def is_walkable_has_tile
      split: map_source.splits)

lemma first_walkable_Some:
  assumes "first_walkable_position m = Some p"
  shows "is_walkable m p \<and> (\<forall>q. is_walkable m q \<longrightarrow> p \<le> q)"
proof -
  let ?es = "entries (wm_tiles m)"
  from assms obtain e where e: "find (\<lambda>(p, t). walkable t) ?es = Some e" and fst: "fst e = p"
    by (auto simp: first_walkable_position_def)
  then obtain i where i: "i < length ?es" and w: "walkable (snd (?es ! i))" and p: "fst (?es ! i) = p"
    and before: "\<And>j. j < i \<Longrightarrow> \<not> walkable (snd (?es ! j))"
    unfolding find_Some_iff case_prod_beta by blast
  have "bt_get (wm_tiles m) p = Some (snd (?es ! i))"
    using i p by (metis in_entries_iff nth_mem prod.collapse)
  moreover have "p \<le> q" if "is_walkable m q" for q
  proof -
    from that obtain t where "bt_get (wm_tiles m) q = Some t" and "walkable t"
      by (auto simp: is_walkable_def split: option.splits)
    then obtain j where j: "j < length ?es" and q: "?es ! j = (q, t)"
      by (metis in_entries_iff in_set_conv_nth)
    with before \<open>walkable t\<close> have "i \<le> j" by (metis leI snd_conv)
    with j q p show ?thesis
      using sorted_wrt_nth_less [OF sorted_entries [of "wm_tiles m"], of i j]
      by (cases "i = j") (auto intro: less_imp_le)
  qed
  ultimately show ?thesis using w by (simp add: is_walkable_def)
qed

section \<open>The removal journal\<close>

lemma remove_at_nths: "i < length xs \<Longrightarrow> remove_at i xs = nths xs (- {i})"
proof (induction xs arbitrary: i)
  case (Cons x xs)
  show ?case
  proof (cases i)
    case 0
    then show ?thesis by (simp add: remove_at_def nths_Cons nths_all)
  next
    case (Suc k)
    then have "{j. Suc j \<in> - {i}} = - {k}" by auto
    with Suc Cons show ?thesis by (simp add: remove_at_def nths_Cons)
  qed
qed simp

lemma nths_same: "(\<And>i. i < length xs \<Longrightarrow> i \<in> A \<longleftrightarrow> i \<in> B) \<Longrightarrow> nths xs A = nths xs B"
  unfolding nths_def by (rule arg_cong [of _ _ "map fst"], rule filter_cong) (auto simp: set_zip)

lemma nths_remove_at:
  assumes "i < length xs" and "\<forall>j \<in> A. j < i"
  shows "nths (remove_at i xs) (- A) = nths xs (- insert i A)"
proof -
  obtain ys y zs where xs: "xs = ys @ y # zs" and len: "length ys = i"
    using assms(1) id_take_nth_drop [of i xs] by (metis length_take min.absorb4)
  have a: "{j. j + i \<notin> A} = UNIV" and b: "{j. Suc (j + i) \<notin> A} = UNIV"
    using assms(2) by auto
  have c: "nths ys (- insert i A) = nths ys (- A)"
    by (rule nths_same) (use len in auto)
  have r: "remove_at i (ys @ y # zs) = ys @ zs" using len by (simp add: remove_at_def)
  show ?thesis
    unfolding xs r by (simp add: nths_append nths_Cons len a b c nths_all)
qed

lemma remove_each_desc:
  assumes "sorted_wrt (>) is" and "\<forall>i \<in> set is. i < length xs"
  shows "remove_each is xs = Ok (nths xs (- set is))"
  using assms
proof (induction "is" arbitrary: xs)
  case (Cons i "is")
  then have "i < length xs" and below: "\<forall>j \<in> set is. j < i" by auto
  then have "\<forall>j \<in> set is. j < length (remove_at i xs)" by (auto simp: length_remove_at)
  with Cons have "remove_each is (remove_at i xs) = Ok (nths (remove_at i xs) (- set is))" by simp
  with below \<open>i < length xs\<close> show ?case by (simp add: nths_remove_at)
qed (simp add: nths_all)

lemma rev_sort_desc: "distinct is \<Longrightarrow> sorted_wrt (>) (rev (sort (is :: nat list)))"
  by (simp add: sorted_wrt_rev strict_sorted_iff)

definition groups_ok :: "world_map \<Rightarrow> (position, nat list) btmap \<Rightarrow> bool" where
  "groups_ok m groups \<longleftrightarrow> (\<forall>p is. bt_get groups p = Some is \<longrightarrow>
     distinct is \<and> (\<exists>its. bt_get (wm_tile_items m) p = Some its \<and> (\<forall>i \<in> set is. i < length its)))"

definition group_at :: "(position, nat list) btmap \<Rightarrow> position \<Rightarrow> nat set" where
  "group_at groups p = (case bt_get groups p of None \<Rightarrow> {} | Some is \<Rightarrow> set is)"

definition journal_at :: "item_source_identity list \<Rightarrow> position \<Rightarrow> nat set" where
  "journal_at rs p = isi_index ` {r \<in> set rs. isi_position r = p}"

lemma collect_removals_Ok:
  assumes "collect_removals rv m rs groups = Ok groups'" and "groups_ok m groups"
  shows "groups_ok m groups' \<and> (\<forall>r \<in> set rs. isi_revision r = rv) \<and>
    (\<forall>p. group_at groups' p = group_at groups p \<union> journal_at rs p)"
  using assms
proof (induction rs arbitrary: groups)
  case Nil
  then show ?case by (simp add: journal_at_def)
next
  case (Cons r rs)
  let ?p = "isi_position r"
  let ?idx = "case bt_get groups ?p of None \<Rightarrow> [] | Some is \<Rightarrow> is"
  let ?g = "bt_insert ?p (?idx @ [isi_index r]) groups"
  from Cons.prems obtain its where rv: "isi_revision r = rv"
    and its: "bt_get (wm_tile_items m) ?p = Some its" and i: "isi_index r < length its"
    and fresh: "isi_index r \<notin> set ?idx" and rec: "collect_removals rv m rs ?g = Ok groups'"
    by (auto simp: Let_def split: if_splits option.splits)
  have "groups_ok m ?g"
    using Cons.prems(2) its i fresh
    by (auto simp: groups_ok_def bt_get_insert split: option.splits) fastforce+
  from Cons.IH [OF rec this] rv
  show ?case
    by (auto simp: group_at_def journal_at_def bt_get_insert split: option.splits)
qed

lemma remove_groups_Ok:
  assumes "distinct (map fst gs)"
    and "\<And>p is. (p, is) \<in> set gs \<Longrightarrow> distinct is \<and>
           (\<exists>its. bt_get (wm_tile_items m) p = Some its \<and> (\<forall>i \<in> set is. i < length its))"
  shows "\<exists>index. remove_groups gs m = (Ok (), m\<lparr>wm_tile_items := index\<rparr>) \<and>
    (\<forall>p. bt_get index p = map_option (\<lambda>its. case map_of gs p of None \<Rightarrow> its
       | Some is \<Rightarrow> nths its (- set is)) (bt_get (wm_tile_items m) p))"
  using assms
proof (induction gs arbitrary: m)
  case Nil
  have "m = m\<lparr>wm_tile_items := wm_tile_items m\<rparr>" by simp
  then show ?case by (auto intro!: exI [of _ "wm_tile_items m"] simp: option.map_ident)
next
  case (Cons g gs)
  obtain p "is" where g: "g = (p, is)" by (cases g)
  from Cons.prems(2) [of p "is"] g obtain its where dist: "distinct is"
    and its: "bt_get (wm_tile_items m) p = Some its" and inb: "\<forall>i \<in> set is. i < length its"
    by auto
  have rem: "remove_each (rev (sort is)) its = Ok (nths its (- set is))"
    using remove_each_desc [OF rev_sort_desc [OF dist], of its] inb by simp
  let ?m = "m\<lparr>wm_tile_items := bt_insert p (nths its (- set is)) (wm_tile_items m)\<rparr>"
  have new: "p \<notin> fst ` set gs" using Cons.prems(1) g by auto
  have "distinct (map fst gs)" using Cons.prems(1) by simp
  moreover have "distinct is' \<and> (\<exists>its. bt_get (wm_tile_items ?m) q = Some its \<and> (\<forall>i \<in> set is'. i < length its))"
    if "(q, is') \<in> set gs" for q is'
  proof -
    from that new have "q \<noteq> p" by force
    with Cons.prems(2) [of q is'] that show ?thesis by simp
  qed
  ultimately obtain index where run: "remove_groups gs ?m = (Ok (), ?m\<lparr>wm_tile_items := index\<rparr>)"
    and get: "\<And>q. bt_get index q = map_option (\<lambda>its. case map_of gs q of None \<Rightarrow> its
       | Some is \<Rightarrow> nths its (- set is)) (bt_get (wm_tile_items ?m) q)"
    using Cons.IH [of ?m] by auto
  have none: "map_of gs p = None" using new by (simp add: map_of_eq_None_iff)
  show ?case
    by (rule exI [of _ index]) (use g its rem run get none in \<open>auto simp: bt_get_insert\<close>)
qed

text \<open>An accepted journal removes exactly the named items; a rejected one changes nothing, and
  no journal makes the removal panic.\<close>

lemma apply_source_item_removals_cases:
  obtains (rejected) e where "apply_source_item_removals rs m = (Inl (Error e), m)"
  | (removed) index where "apply_source_item_removals rs m = (Ok (), m\<lparr>wm_tile_items := index\<rparr>)"
      and "\<forall>r \<in> set rs. isi_revision r = source_revision m"
      and "\<forall>p. bt_get index p = map_option (\<lambda>its. nths its (- journal_at rs p)) (bt_get (wm_tile_items m) p)"
proof (cases "collect_removals (source_revision m) m rs bt_empty")
  case (Inl e)
  have "\<exists>e'. e = Error e'" if "collect_removals rv m rs groups = Inl e" for rv groups
    using that by (induction rs arbitrary: groups)
      (auto simp: Let_def split: if_splits option.splits)
  with Inl rejected show ?thesis by (auto simp: apply_source_item_removals_def)
next
  case (Inr groups)
  have "groups_ok m bt_empty" by (simp add: groups_ok_def)
  from collect_removals_Ok [OF Inr this] have ok: "groups_ok m groups"
    and revs: "\<forall>r \<in> set rs. isi_revision r = source_revision m"
    and at: "\<And>p. group_at groups p = journal_at rs p"
    by (auto simp: group_at_def)
  have "\<exists>index. remove_groups (entries groups) m = (Ok (), m\<lparr>wm_tile_items := index\<rparr>) \<and>
    (\<forall>p. bt_get index p = map_option (\<lambda>its. case map_of (entries groups) p of None \<Rightarrow> its
       | Some is \<Rightarrow> nths its (- set is)) (bt_get (wm_tile_items m) p))"
    by (rule remove_groups_Ok) (use ok in \<open>auto simp: groups_ok_def in_entries_iff\<close>)
  then obtain index where run: "remove_groups (entries groups) m = (Ok (), m\<lparr>wm_tile_items := index\<rparr>)"
    and get: "\<And>p. bt_get index p = map_option (\<lambda>its. case map_of (entries groups) p of None \<Rightarrow> its
       | Some is \<Rightarrow> nths its (- set is)) (bt_get (wm_tile_items m) p)"
    by blast
  have "(case map_of (entries groups) p of None \<Rightarrow> its | Some is \<Rightarrow> nths its (- set is)) =
      nths its (- journal_at rs p)" for p and its :: "world_map_item list"
    using at [of p] by (auto simp: group_at_def nths_all simp flip: bt_get.rep_eq split: option.splits)
  with get have "\<forall>p. bt_get index p = map_option (\<lambda>its. nths its (- journal_at rs p)) (bt_get (wm_tile_items m) p)"
    by simp
  then show ?thesis
    using removed [of index] Inr run revs by (simp add: apply_source_item_removals_def)
qed

section \<open>The revision as a fold over a byte stream\<close>

text \<open>One step of the hash can be undone: the prime is odd. So the hash of a stream depends on
  every single byte of it.\<close>

abbreviation fnv_inverse :: "64 word" where "fnv_inverse \<equiv> 0xce965057aff6957b"

lemma fnv_prime_inverse: "fnv_prime * fnv_inverse = 1"
  by simp

lemma unit_cancel: "p * i = (1 :: 64 word) \<Longrightarrow> x * p = y * p \<longleftrightarrow> x = y"
proof
  assume i: "p * i = 1" and "x * p = y * p"
  then have "x * p * i = y * p * i" by simp
  then show "x = y" unfolding mult.assoc i by simp
qed simp

lemmas fnv_cancel = unit_cancel [OF fnv_prime_inverse]

lemma xor_cancel_right: "a XOR c = b XOR c \<longleftrightarrow> a = (b :: 64 word)"
proof
  assume "a XOR c = b XOR c"
  then have "(a XOR c) XOR c = (b XOR c) XOR c" by simp
  then show "a = b" unfolding xor.assoc by simp
qed simp

lemma xor_cancel_left: "c XOR a = c XOR b \<longleftrightarrow> a = (b :: 64 word)"
  unfolding xor.commute [of c] by (rule xor_cancel_right)

lemma hash_byte_inject: "hash_byte v h = hash_byte v h' \<longleftrightarrow> h = h'"
  by (simp only: hash_byte_def fnv_cancel xor_cancel_right)

lemma of_nat_byte_inject: "v < 256 \<Longrightarrow> w < 256 \<Longrightarrow> (of_nat v :: 64 word) = of_nat w \<longleftrightarrow> v = w"
  by (simp add: word_of_nat_eq_iff take_bit_nat_def)

lemma hash_byte_differs: "v < 256 \<Longrightarrow> w < 256 \<Longrightarrow> hash_byte v h = hash_byte w h \<longleftrightarrow> v = w"
  by (simp only: hash_byte_def fnv_cancel xor_cancel_left of_nat_byte_inject)

lemma hash_bytes_inject: "hash_bytes vs h = hash_bytes vs h' \<longleftrightarrow> h = h'"
  unfolding hash_bytes_def by (induction vs arbitrary: h h') (auto simp: hash_byte_inject)

lemma hash_bytes_append: "hash_bytes (vs @ ws) h = hash_bytes ws (hash_bytes vs h)"
  by (simp add: hash_bytes_def)

text \<open>A hasher that only feeds bytes, whatever they are, is injective in the hash so far.\<close>

definition feeding :: "(64 word \<Rightarrow> 64 word) \<Rightarrow> bool" where
  "feeding f \<longleftrightarrow> (\<exists>bs. \<forall>h. f h = hash_bytes bs h)"

named_theorems feeding_intros

lemma feeding_inject: "feeding f \<Longrightarrow> f h = f h' \<longleftrightarrow> h = h'"
  by (auto simp: feeding_def hash_bytes_inject)

lemma feeding_byte [feeding_intros]: "feeding (hash_byte v)"
  unfolding feeding_def by (rule exI [of _ "[v]"]) (simp add: hash_bytes_def)

lemma feeding_bytes [feeding_intros]: "feeding (hash_bytes vs)"
  by (auto simp: feeding_def)

lemma feeding_comp2: "feeding f \<Longrightarrow> feeding g \<Longrightarrow> feeding (\<lambda>h. g (f h))"
  unfolding feeding_def by (metis hash_bytes_append)

lemma feeding_comp [feeding_intros]: "feeding f \<Longrightarrow> feeding g \<Longrightarrow> feeding (g \<circ> f)"
  using feeding_comp2 [of f g] by (simp add: comp_def)

lemma feeding_id [feeding_intros]: "feeding (\<lambda>h. h)"
  unfolding feeding_def by (rule exI [of _ "[]"]) (simp add: hash_bytes_def)

lemma feeding_fold [feeding_intros]: "(\<And>x. x \<in> set xs \<Longrightarrow> feeding (f x)) \<Longrightarrow> feeding (fold f xs)"
  by (induction xs) (auto simp: id_def intro: feeding_intros)

lemma feeding_hashers [feeding_intros]:
  "feeding (hash_bool b)" "feeding (hash_u16 n)" "feeding (hash_u32 n)" "feeding (hash_len xs)"
  "feeding (hash_string s)" "feeding (hash_position p)"
  by (auto simp: hash_bool_def hash_u16_def hash_u32_def hash_len_def hash_string_def
      hash_position_def intro!: feeding_intros)

lemma feeding_optional [feeding_intros]: "(\<And>x. feeding (f x)) \<Longrightarrow> feeding (hash_optional f v)"
proof -
  assume f: "\<And>x. feeding (f x)"
  have "hash_optional f v = (case v of None \<Rightarrow> hash_bool False | Some x \<Rightarrow> f x \<circ> hash_bool True)"
    by (cases v) (simp_all add: hash_optional_def fun_eq_iff)
  with f show ?thesis by (cases v) (auto intro: feeding_intros)
qed

lemma feeding_item [feeding_intros]: "feeding (hash_item it)"
proof (induction it)
  case (World_Map_Item sid ctid cnt aid uid tx desc tele dur chg children)
  have "hash_item (World_Map_Item sid ctid cnt aid uid tx desc tele dur chg children) =
      fold hash_item children \<circ> hash_len children \<circ> hash_optional hash_u16 chg \<circ>
      hash_optional hash_u32 dur \<circ> hash_optional hash_position tele \<circ>
      hash_optional hash_string desc \<circ> hash_optional hash_string tx \<circ>
      hash_optional hash_u16 uid \<circ> hash_optional hash_u16 aid \<circ> hash_byte cnt \<circ>
      hash_optional hash_u16 ctid \<circ> hash_u16 sid"
    by (simp add: fun_eq_iff Let_def)
  with World_Map_Item show ?case by (simp only:) (intro feeding_intros)
qed

lemma feeding_source [feeding_intros]: "feeding (hash_source src)"
proof (cases src)
  case FeMapV1
  then have "hash_source src = hash_byte 0" by (simp add: hash_source_def fun_eq_iff)
  then show ?thesis by (auto intro: feeding_intros)
next
  case (Otbm hdr)
  then have "hash_source src = hash_optional hash_string (oh_house_file hdr) \<circ>
      hash_optional hash_string (oh_spawn_file hdr) \<circ> hash_optional hash_string (oh_description hdr) \<circ>
      hash_u32 (oh_item_minor hdr) \<circ> hash_u32 (oh_item_major hdr) \<circ> hash_u16 (oh_height hdr) \<circ>
      hash_u16 (oh_width hdr) \<circ> hash_u32 (oh_version hdr) \<circ> hash_byte 1"
    by (simp add: hash_source_def fun_eq_iff Let_def)
  then show ?thesis by (simp only:) (intro feeding_intros)
qed

lemma feeding_entries [feeding_intros]:
  "(\<And>k v. bt_get m k = Some v \<Longrightarrow> feeding (f (k, v))) \<Longrightarrow> feeding (hash_entries f m)"
proof -
  assume f: "\<And>k v. bt_get m k = Some v \<Longrightarrow> feeding (f (k, v))"
  have "hash_entries f m = fold f (entries m) \<circ> hash_len (entries m)"
    by (simp add: hash_entries_def fun_eq_iff)
  with f show ?thesis by (auto intro!: feeding_intros simp: in_entries_iff)
qed

text \<open>Everything hashed after the tiles is injective in the hash of the tiles.\<close>

lemma source_revision_tiles:
  obtains rest where "feeding rest"
    and "\<And>ts. source_revision (m\<lparr>wm_tiles := ts\<rparr>) =
      rest (hash_entries (\<lambda>(p, t). hash_bool (walkable t) \<circ> hash_u16 (ground_thing_id t) \<circ> hash_position p)
        ts (hash_source (wm_source m) (hash_position (wm_spawn m)
             (hash_string (wm_identifier m) fnv_offset_basis))))"
proof -
  let ?rest = "hash_entries (\<lambda>(nm, p). hash_position p \<circ> hash_string nm) (wm_waypoints m) \<circ>
    hash_entries (\<lambda>(tid, t). hash_position (temple_position t) \<circ> hash_string (town_name t) \<circ> hash_u32 tid)
      (wm_towns m) \<circ>
    hash_entries (\<lambda>(p, hid). hash_u32 hid \<circ> hash_position p) (wm_house_tiles m) \<circ>
    hash_entries (\<lambda>(p, fl). hash_u32 fl \<circ> hash_position p) (wm_tile_flags m) \<circ>
    hash_entries (\<lambda>(p, its). fold hash_item its \<circ> hash_len its \<circ> hash_position p) (wm_tile_items m)"
  have "feeding ?rest" by (auto intro!: feeding_intros)
  then show ?thesis by (rule that) (simp add: source_revision_def)
qed

lemma entries_replace:
  assumes "bt_get m k = Some v"
  obtains xs ys where "entries m = xs @ (k, v) # ys"
    and "\<And>w. entries (bt_insert k w m) = xs @ (k, w) # ys"
proof -
  from assms obtain xs ys where m: "entries m = xs @ (k, v) # ys"
    by (metis in_entries_iff split_list)
  have "sorted_wrt (<) (map fst (xs @ (k, v) # ys))" using sorted_entries [of m] m by simp
  then have "\<forall>p \<in> set xs. fst p < k" and "\<forall>p \<in> set ys. k < fst p"
    by (auto simp: sorted_wrt_append)
  then have "filter (\<lambda>p. fst p < k) xs = xs" "filter (\<lambda>p. fst p < k) ys = []"
    "filter (\<lambda>p. k < fst p) xs = []" "filter (\<lambda>p. k < fst p) ys = ys"
    by (auto simp: filter_empty_conv filter_id_conv)
  then have "entries (bt_insert k w m) = xs @ (k, w) # ys" for w
    by (simp add: bt_insert.rep_eq ins_entry_def m)
  with m that show ?thesis by blast
qed

lemma revision_sees_walkable:
  assumes "bt_get (wm_tiles m) p = Some t"
  shows "source_revision (m\<lparr>wm_tiles := bt_insert p (t\<lparr>walkable := \<not> walkable t\<rparr>) (wm_tiles m)\<rparr>) \<noteq>
    source_revision m"
proof
  let ?f = "\<lambda>(p, t). hash_bool (walkable t) \<circ> hash_u16 (ground_thing_id t) \<circ> hash_position p"
  let ?t = "t\<lparr>walkable := \<not> walkable t\<rparr>"
  assume eq: "source_revision (m\<lparr>wm_tiles := bt_insert p ?t (wm_tiles m)\<rparr>) = source_revision m"
  obtain rest where rest: "feeding rest"
    and rev: "\<And>ts. source_revision (m\<lparr>wm_tiles := ts\<rparr>) = rest (hash_entries ?f
        ts (hash_source (wm_source m) (hash_position (wm_spawn m)
             (hash_string (wm_identifier m) fnv_offset_basis))))"
    using source_revision_tiles [of m] by blast
  obtain xs ys where m: "entries (wm_tiles m) = xs @ (p, t) # ys"
    and m': "\<And>w. entries (bt_insert p w (wm_tiles m)) = xs @ (p, w) # ys"
    using entries_replace [OF assms] by blast
  have ys: "feeding (fold ?f ys)" by (auto intro!: feeding_intros)
  have "hash_entries ?f (bt_insert p ?t (wm_tiles m)) h \<noteq> hash_entries ?f (wm_tiles m) h" for h
  proof -
    have "hash_bool (\<not> walkable t) g \<noteq> hash_bool (walkable t) g" for g
      by (simp add: hash_bool_def hash_byte_differs)
    then show ?thesis
      by (simp add: hash_entries_def m m' hash_len_def feeding_inject [OF ys])
  qed
  with eq rev [of "bt_insert p ?t (wm_tiles m)"] rev [of "wm_tiles m"] feeding_inject [OF rest]
  show False by simp
qed

end
