(* ===== verification/Death_Ops.thy ===== *)
theory Death_Ops
  imports Party World_Map
begin

text \<open>
  Towns, death, the fixed-percent death loss and the respawn
  (\<open>crates/forgotten-core/src/world_death.rs\<close>). The theorems: every transition keeps
  \<open>world_wf\<close>, a dead player of a well-formed world always has a place to respawn at, the loss
  takes the stated share of every lifetime total and no level grows by it.
\<close>

section \<open>Towns and lifecycle records\<close>

definition player_town :: "world_state \<Rightarrow> nat \<Rightarrow> nat result" where
  "player_town w p = lookup (w_towns w) p"

definition replace_player_town :: "nat \<Rightarrow> nat \<Rightarrow> bool action" where
  "replace_player_town p town w =
     attempt w (require_player p w) (\<lambda>_.
     attempt w (player_town w p) (\<lambda>old.
       if old = town then (Ok False, w)
       else (Ok True, mark_changed (w\<lparr>w_towns := bt_insert p town (w_towns w)\<rparr>))))"

definition hydrate_player_respawn_state :: "nat \<Rightarrow> respawn_state \<Rightarrow> bool action" where
  "hydrate_player_respawn_state p st w =
     attempt w (require_player p w) (\<lambda>_.
       let valid = (if dead st then respawn_at st \<noteq> None \<and> death_time st \<noteq> None
                    else st = default_respawn)
       in if \<not> valid then (Inl (player_fault (InvalidPlayerRespawnState p)), w)
          else attempt w (player_respawn_state w p) (\<lambda>old.
            if old = st then (Ok False, w)
            else (Ok True, mark_changed (w\<lparr>w_respawn := bt_insert p st (w_respawn w)\<rparr>))))"

section \<open>Death\<close>

text \<open>The vitals are already zeroed when the condition table is looked up.\<close>

definition apply_player_death :: "nat \<Rightarrow> nat \<Rightarrow> world_map \<Rightarrow> respawn_state action" where
  "apply_player_death p town m w =
     attempt w (require_player p w) (\<lambda>_.
     attempt w (player_respawn_state w p) (\<lambda>existing.
       if dead existing then (Ok existing, w)
       else attempt w (ok_or (temple_position_for_town m town) (player_fault (UnknownTown town))) (\<lambda>temple.
         attempt w (player_vitals w p) (\<lambda>v.
           let w1 = w\<lparr>w_vitals := bt_insert p (v\<lparr>health := 0\<rparr>) (w_vitals w)\<rparr>
           in attempt w1 (lookup (w_conditions w1) p) (\<lambda>_.
             let w2 = w1\<lparr>w_conditions := bt_insert p bt_empty (w_conditions w1)\<rparr>;
                 st = \<lparr>dead = True, respawn_at = Some temple, death_time = Some (tick w2),
                       loss_applied = False\<rparr>;
                 w3 = w2\<lparr>w_respawn := bt_insert p st (w_respawn w2)\<rparr>
             in (Ok st, mark_changed (clear_player_interaction_references p w3)))))))"

section \<open>The fixed-percent loss\<close>

record death_loss_outcome =
  dl_player :: nat
  dl_percent :: nat
  dl_experience_lost :: nat
  dl_skill_tries_lost :: "player_skill \<Rightarrow> nat"
  dl_magic_mana_lost :: nat
  dl_level :: nat
  dl_progression :: player_progression
  dl_attempts :: progression_attempts
  dl_vitals :: player_vitals

text \<open>One turn of the loop over the skills.\<close>

definition lose_skill ::
  "float_scale \<Rightarrow> nat \<Rightarrow> progression_rules \<Rightarrow> player_skill \<Rightarrow>
     player_skills \<times> (player_skill \<Rightarrow> nat) \<times> (player_skill \<Rightarrow> nat) \<Rightarrow>
     player_skills \<times> (player_skill \<Rightarrow> nat) \<times> (player_skill \<Rightarrow> nat)" where
  "lose_skill fs percent rules s acc =
     (case acc of (sk, tries, lost) \<Rightarrow>
        let tot = cumulative_skill_tries fs (sk s) (tries s) rules s;
            lost_tries = fixed_percent_of tot percent;
            (progress, stored) = skill_progress_from_total fs (tot - lost_tries) rules s
        in (snd (skills_set s progress sk), tries(s := stored), lost(s := lost_tries)))"

definition apply_fixed_percent_death_loss ::
  "float_scale \<Rightarrow> nat \<Rightarrow> nat \<Rightarrow> progression_rules \<Rightarrow> death_loss_outcome action" where
  "apply_fixed_percent_death_loss fs p percent rules w =
     (if \<not> (1 \<le> percent \<and> percent \<le> 100)
      then (Inl (player_fault (InvalidFixedDeathLossPercent percent)), w)
      else attempt w (player_respawn_state w p) (\<lambda>ds.
        if \<not> dead ds then (Inl (player_fault (PlayerIsNotDead p)), w)
        else if loss_applied ds then (Inl (player_fault (DeathLossAlreadyApplied p)), w)
        else attempt w (lookup (players w) p) (\<lambda>pl.
          attempt w (player_progression w p) (\<lambda>pr.
          attempt w (player_progression_attempts w p) (\<lambda>att.
          attempt w (player_vitals w p) (\<lambda>v.
            let exp_lost = fixed_percent_of (pl_experience pl) percent;
                pl1 = pl\<lparr>pl_experience := pl_experience pl - exp_lost\<rparr>;
                pl2 = pl1\<lparr>pl_level := level_for_experience (pl_experience pl1)\<rparr>;
                (sk, tries, lost) = foldl (\<lambda>acc s. lose_skill fs percent rules s acc)
                  (skills pr, skill_tries att, (\<lambda>_. 0)) all_skills;
                total_mana = cumulative_magic_mana fs (magic_level v) (magic_mana att) rules;
                mana_lost = fixed_percent_of total_mana percent;
                (mlevel, stored_mana) = magic_progress_from_total fs (total_mana - mana_lost) rules;
                v1 = v\<lparr>magic_level := mlevel\<rparr>;
                att1 = att\<lparr>skill_tries := tries, magic_mana := stored_mana\<rparr>;
                pr1 = pr\<lparr>skills := sk\<rparr>
            in (Ok \<lparr>dl_player = p, dl_percent = percent, dl_experience_lost = exp_lost,
                    dl_skill_tries_lost = lost, dl_magic_mana_lost = mana_lost,
                    dl_level = pl_level pl2, dl_progression = pr1, dl_attempts = att1,
                    dl_vitals = v1\<rparr>,
                mark_changed (w\<lparr>players := bt_insert p pl2 (players w),
                  w_progressions := bt_insert p pr1 (w_progressions w),
                  w_attempts := bt_insert p att1 (w_attempts w),
                  w_vitals := bt_insert p v1 (w_vitals w),
                  w_respawn := bt_insert p (ds\<lparr>loss_applied := True\<rparr>) (w_respawn w)\<rparr>))))))))"

section \<open>Respawn\<close>

record respawn_outcome =
  ra_player :: nat
  ra_position :: position
  ra_vitals :: player_vitals

definition is_static_creature_occupied :: "world_state \<Rightarrow> position \<Rightarrow> bool" where
  "is_static_creature_occupied w q = bt_mem q (occupied w)"

text \<open>\<open>players.iter().any(...)\<close> in key order.\<close>

definition other_player_at :: "world_state \<Rightarrow> nat \<Rightarrow> position \<Rightarrow> bool" where
  "other_player_at w p q =
     list_ex (\<lambda>(i, pl). i \<noteq> p \<and> pl_position pl = q) (entries (players w))"

definition respawn_player :: "nat \<Rightarrow> respawn_outcome action" where
  "respawn_player p w =
     attempt w (require_player p w) (\<lambda>_.
     attempt w (player_respawn_state w p) (\<lambda>st.
       if \<not> dead st then (Inl (player_fault (PlayerIsNotDead p)), w)
       else attempt w (ok_or (respawn_at st) (player_fault (MissingRespawnPosition p))) (\<lambda>q.
         if is_static_creature_occupied w q
         then (Inl (static_fault (StaticCreatureOccupiesPosition q)), w)
         else if other_player_at w p q then (Inl (player_fault (PlayerOccupiesPosition q)), w)
         else attempt w (player_vitals w p) (\<lambda>v.
           let v1 = v\<lparr>health := max_health v, mana := max_mana v\<rparr>;
               w1 = w\<lparr>w_vitals := bt_insert p v1 (w_vitals w)\<rparr>
           in attempt w1 (lookup (players w1) p) (\<lambda>pl.
             let w2 = w1\<lparr>players := bt_insert p (pl\<lparr>pl_position := q\<rparr>) (players w1)\<rparr>;
                 w3 = w2\<lparr>w_respawn := bt_insert p default_respawn (w_respawn w2)\<rparr>
             in (Ok \<lparr>ra_player = p, ra_position = q, ra_vitals = v1\<rparr>, mark_changed w3))))))"

section \<open>The invariant\<close>

lemma other_player_at_iff:
  "other_player_at w p q \<longleftrightarrow> (\<exists>i pl. bt_get (players w) i = Some pl \<and> i \<noteq> p \<and> pl_position pl = q)"
  by (auto simp: other_player_at_def list_ex_iff in_entries_iff)
    (metis case_prodI in_entries_iff)

lemma registered_of_lookup:
  assumes "world_wf w"
  shows "bt_get (w_vitals w) p = Some v \<Longrightarrow> p \<in> registered w"
    and "bt_get (w_respawn w) p = Some rs \<Longrightarrow> p \<in> registered w"
    and "bt_get (w_conditions w) p = Some cd \<Longrightarrow> p \<in> registered w"
    and "bt_get (w_towns w) p = Some t \<Longrightarrow> p \<in> registered w"
  using world_wf_dom [OF assms] by auto

lemma respawn_ok_default [simp]: "respawn_ok default_respawn"
  by (simp add: respawn_ok_def default_respawn_def)

lemma replace_player_town_wf:
  "world_wf w \<Longrightarrow> world_wf (snd (replace_player_town p t w))"
  unfolding replace_player_town_def
  by (rule keepsI, intro keeps_intros; simp add: world_simps)

lemma hydrate_player_respawn_state_wf:
  "world_wf w \<Longrightarrow> world_wf (snd (hydrate_player_respawn_state p st w))"
  unfolding hydrate_player_respawn_state_def Let_def
  by (rule keepsI, intro keeps_intros; simp add: world_simps respawn_ok_def split: if_splits)

lemma condition_set_wf_empty [simp]: "condition_set_wf bt_empty"
  by (simp add: condition_set_wf_def)

lemma vitals_ok_simps:
  "vitals_ok v \<Longrightarrow> vitals_ok (v\<lparr>health := 0\<rparr>)"
  "vitals_ok v \<Longrightarrow> vitals_ok (v\<lparr>magic_level := l\<rparr>)"
  "vitals_ok v \<Longrightarrow> vitals_ok (v\<lparr>health := max_health v, mana := max_mana v\<rparr>)"
  "vitals_ok v \<Longrightarrow> vitals_ok (v\<lparr>health := health v - d\<rparr>)"
  "vitals_ok v \<Longrightarrow> vitals_ok (v\<lparr>mana := mana v - d\<rparr>)"
  by (auto simp: vitals_ok_def vitals_is_valid_def)

lemma apply_player_death_wf:
  assumes "world_wf w"
  shows "world_wf (snd (apply_player_death p t m w))"
  unfolding apply_player_death_def Let_def
  by (rule keepsI, intro keeps_intros;
      use assms world_wf_get(1) [OF assms] in
        \<open>simp add: world_simps clear_refs_wf player_vitals_def vitals_ok_simps respawn_ok_def\<close>)

text \<open>A death is a death at the temple of the given town, with no health, no conditions and
  nobody's intent on the player left.\<close>

lemma apply_player_death_Ok:
  assumes "apply_player_death p t m w = (Ok st, w')" and "world_wf w"
  shows "dead st \<and> bt_get (w_respawn w') p = Some st"
    and "(\<exists>rs. bt_get (w_respawn w) p = Some rs \<and> dead rs \<and> w' = w \<and> st = rs) \<or>
      (respawn_at st = temple_position_for_town m t \<and> respawn_at st \<noteq> None \<and>
       death_time st = Some (tick w) \<and>
       \<not> loss_applied st \<and>
       map_option health (bt_get (w_vitals w') p) = Some 0 \<and>
       bt_get (w_conditions w') p = Some bt_empty)"
  using assms
  by (auto simp: apply_player_death_def Let_def player_respawn_state_def player_vitals_def
      clear_player_interaction_references_def mark_changed_def split: if_splits)


section \<open>What the loss takes\<close>

text \<open>The loop treats the skills independently: each gets what one turn computes from its own
  progress and counter.\<close>

definition skill_after_loss ::
  "float_scale \<Rightarrow> nat \<Rightarrow> progression_rules \<Rightarrow> player_skill \<Rightarrow> skill_progress \<Rightarrow> nat \<Rightarrow>
     skill_progress \<times> nat" where
  "skill_after_loss fs percent rules s pr stored =
     (let tot = cumulative_skill_tries fs pr stored rules s
      in skill_progress_from_total fs (tot - fixed_percent_of tot percent) rules s)"

lemma lose_skill_eq:
  "lose_skill fs percent rules s (sk, tries, lost) =
     (sk(s := fst (skill_after_loss fs percent rules s (sk s) (tries s))),
      tries(s := snd (skill_after_loss fs percent rules s (sk s) (tries s))),
      lost(s := fixed_percent_of (cumulative_skill_tries fs (sk s) (tries s) rules s) percent))"
  by (auto simp: lose_skill_def skill_after_loss_def skills_set_def Let_def split: prod.splits)

lemma lose_skills_fold:
  assumes "foldl (\<lambda>acc s. lose_skill fs percent rules s acc) (sk, tries, lost) ss = (sk', tries', lost')"
    and "distinct ss"
  shows "sk' s = (if s \<in> set ss then fst (skill_after_loss fs percent rules s (sk s) (tries s)) else sk s) \<and>
    tries' s = (if s \<in> set ss then snd (skill_after_loss fs percent rules s (sk s) (tries s)) else tries s) \<and>
    lost' s = (if s \<in> set ss
      then fixed_percent_of (cumulative_skill_tries fs (sk s) (tries s) rules s) percent else lost s)"
  using assms
proof (induction ss arbitrary: sk tries lost)
  case (Cons r ss)
  from Cons.IH [OF Cons.prems(1) [simplified foldl_Cons lose_skill_eq]] Cons.prems(2)
  show ?case by (cases "s = r") auto
qed simp

lemma all_skills_complete [simp]: "distinct all_skills" "s \<in> set all_skills"
  by (simp add: all_skills_def) (cases s; simp add: all_skills_def)

text \<open>A loss leaves the rest of the lifetime total, and never raises the level.\<close>

lemma from_total_of_less:
  assumes "from_total cap req base (exact_total req base level stored - d) = (l, r)"
    and "base \<le> level" and "level \<le> cap" and "level < cap \<Longrightarrow> stored < req (Suc level)"
  shows "l \<le> level"
proof (cases "level < cap")
  case True
  have "from_total cap req base (exact_total req base level stored) = (level, stored)"
    using from_total_exact_total [OF assms(2,3)] from_total_stop [of level cap stored req] assms(4) True
    by simp
  from from_total_mono [OF assms(1) this] assms(2,3) show ?thesis by simp
next
  case False
  with from_total_spec [OF assms(1)] assms(2,3) show ?thesis by simp
qed

lemma skill_after_loss_spec:
  assumes "skill_after_loss fs percent rules s pr stored = (pr', stored')"
    and "10 \<le> sp_level pr" and "sp_level pr \<le> u16_max" and "percent \<le> 100"
    and "stored \<le> u64_max" and "sp_level pr < u16_max \<Longrightarrow> stored < required_skill_tries fs rules s (Suc (sp_level pr))"
    and "exact_total (required_skill_tries fs rules s) 10 (sp_level pr) stored \<le> u64_max"
  defines "req \<equiv> required_skill_tries fs rules s"
  defines "old \<equiv> exact_total req 10 (sp_level pr) stored"
  shows "10 \<le> sp_level pr' \<and> sp_level pr' \<le> sp_level pr \<and>
    (sp_level pr' < u16_max \<longrightarrow>
       exact_total req 10 (sp_level pr') stored' = old - old * percent div 100 \<and>
       stored' < req (Suc (sp_level pr')))"
proof -
  have cum: "cumulative_skill_tries fs pr stored rules s = old"
    using cumulative_exact [OF assms(5), of req 10 "sp_level pr"] assms(7)
    by (simp add: cumulative_skill_tries_def req_def old_def)
  have lost: "fixed_percent_of old percent = old * percent div 100"
    using fixed_percent_of_exact [of old percent] assms(4,7) by (simp add: old_def req_def)
  obtain l r where ft: "from_total u16_max req 10 (old - old * percent div 100) = (l, r)"
    by (rule prod.exhaust)
  with assms(1) cum lost have "sp_level pr' = l" "stored' = r"
    by (auto simp: skill_after_loss_def skill_progress_from_total_def req_def Let_def)
  moreover have "l \<le> sp_level pr"
    by (rule from_total_of_less [OF ft [unfolded old_def] assms(2,3)]) (use assms(6) in \<open>simp add: req_def\<close>)
  moreover note from_total_spec [OF ft]
  ultimately show ?thesis by auto
qed

text \<open>The magic level and its counter are treated like a skill that starts at level 0.\<close>

definition magic_after_loss ::
  "float_scale \<Rightarrow> nat \<Rightarrow> progression_rules \<Rightarrow> nat \<Rightarrow> nat \<Rightarrow> nat \<times> nat" where
  "magic_after_loss fs percent rules level stored =
     (let tot = cumulative_magic_mana fs level stored rules
      in magic_progress_from_total fs (tot - fixed_percent_of tot percent) rules)"

lemma magic_after_loss_spec:
  assumes "magic_after_loss fs percent rules level stored = (level', stored')"
    and "level \<le> u8_max" and "percent \<le> 100"
    and "stored \<le> u64_max" and "level < u8_max \<Longrightarrow> stored < required_magic_mana fs rules (Suc level)"
    and "exact_total (required_magic_mana fs rules) 0 level stored \<le> u64_max"
  defines "req \<equiv> required_magic_mana fs rules"
  defines "old \<equiv> exact_total req 0 level stored"
  shows "level' \<le> level \<and>
    (level' < u8_max \<longrightarrow>
       exact_total req 0 level' stored' = old - old * percent div 100 \<and> stored' < req (Suc level'))"
proof -
  have cum: "cumulative_magic_mana fs level stored rules = old"
    using cumulative_exact [OF assms(4), of req 0 level] assms(6)
    by (simp add: cumulative_magic_mana_def req_def old_def)
  have "fixed_percent_of old percent = old * percent div 100"
    using fixed_percent_of_exact [of old percent] assms(3,6) by (simp add: old_def req_def)
  with assms(1) cum have ft: "from_total u8_max req 0 (old - old * percent div 100) = (level', stored')"
    by (simp add: magic_after_loss_def magic_progress_from_total_def req_def Let_def)
  have "level' \<le> level"
    by (rule from_total_of_less [OF ft [unfolded old_def] _ assms(2)]) (use assms(5) in \<open>simp_all add: req_def\<close>)
  with from_total_spec [OF ft] show ?thesis by auto
qed

lemma death_loss_iff:
  "apply_fixed_percent_death_loss fs p percent rules w = (Ok out, w') \<longleftrightarrow>
     (\<exists>pl v pr att ds sk tries ml sm. 1 \<le> percent \<and> percent \<le> 100 \<and>
        bt_get (w_respawn w) p = Some ds \<and> dead ds \<and> \<not> loss_applied ds \<and>
        bt_get (players w) p = Some pl \<and> bt_get (w_progressions w) p = Some pr \<and>
        bt_get (w_attempts w) p = Some att \<and> bt_get (w_vitals w) p = Some v \<and>
        (\<forall>s. (sk s, tries s) = skill_after_loss fs percent rules s (skills pr s) (skill_tries att s)) \<and>
        (ml, sm) = magic_after_loss fs percent rules (magic_level v) (magic_mana att) \<and>
        out = \<lparr>dl_player = p, dl_percent = percent,
          dl_experience_lost = fixed_percent_of (pl_experience pl) percent,
          dl_skill_tries_lost = (\<lambda>s. fixed_percent_of
            (cumulative_skill_tries fs (skills pr s) (skill_tries att s) rules s) percent),
          dl_magic_mana_lost = fixed_percent_of
            (cumulative_magic_mana fs (magic_level v) (magic_mana att) rules) percent,
          dl_level = level_for_experience (pl_experience pl - fixed_percent_of (pl_experience pl) percent),
          dl_progression = pr\<lparr>skills := sk\<rparr>, dl_attempts = att\<lparr>skill_tries := tries, magic_mana := sm\<rparr>,
          dl_vitals = v\<lparr>magic_level := ml\<rparr>\<rparr> \<and>
        w' = mark_changed (w\<lparr>
          players := bt_insert p (pl\<lparr>pl_experience := pl_experience pl - fixed_percent_of (pl_experience pl) percent,
            pl_level := level_for_experience (pl_experience pl - fixed_percent_of (pl_experience pl) percent)\<rparr>) (players w),
          w_progressions := bt_insert p (pr\<lparr>skills := sk\<rparr>) (w_progressions w),
          w_attempts := bt_insert p (att\<lparr>skill_tries := tries, magic_mana := sm\<rparr>) (w_attempts w),
          w_vitals := bt_insert p (v\<lparr>magic_level := ml\<rparr>) (w_vitals w),
          w_respawn := bt_insert p (ds\<lparr>loss_applied := True\<rparr>) (w_respawn w)\<rparr>))"
proof -
  have fold: "foldl (\<lambda>acc s. lose_skill fs percent rules s acc) (skills pr, skill_tries att, (\<lambda>_. 0)) all_skills =
      (\<lambda>s. fst (skill_after_loss fs percent rules s (skills pr s) (skill_tries att s)),
       \<lambda>s. snd (skill_after_loss fs percent rules s (skills pr s) (skill_tries att s)),
       \<lambda>s. fixed_percent_of (cumulative_skill_tries fs (skills pr s) (skill_tries att s) rules s) percent)" for pr att
  proof -
    obtain sk tries lost where *: "foldl (\<lambda>acc s. lose_skill fs percent rules s acc)
        (skills pr, skill_tries att, (\<lambda>_. 0)) all_skills = (sk, tries, lost)"
      by (rule prod_cases3)
    from lose_skills_fold [OF * all_skills_complete(1)] show ?thesis unfolding * by (auto simp: fun_eq_iff)
  qed
  have sk: "(\<forall>s. (sk s, tries s) = f s) \<longleftrightarrow> sk = (\<lambda>s. fst (f s)) \<and> tries = (\<lambda>s. snd (f s))"
    for sk :: "player_skill \<Rightarrow> skill_progress" and tries :: "player_skill \<Rightarrow> nat" and f
    by (auto simp: fun_eq_iff prod_eq_iff)
  have ml: "(ml, sm) = x \<longleftrightarrow> ml = fst x \<and> sm = snd x" for ml sm and x :: "nat \<times> nat"
    by (auto simp: prod_eq_iff)
  show ?thesis
    unfolding sk ml
    by (auto simp: apply_fixed_percent_death_loss_def accessor_defs Let_def fold magic_after_loss_def split_beta
        split: if_splits)
qed

lemma apply_fixed_percent_death_loss_Ok:
  assumes "apply_fixed_percent_death_loss fs p percent rules w = (Ok out, w')"
  obtains pl v pr att ds where
    "bt_get (players w) p = Some pl" and "bt_get (w_vitals w) p = Some v"
    and "bt_get (w_progressions w) p = Some pr" and "bt_get (w_attempts w) p = Some att"
    and "bt_get (w_respawn w) p = Some ds" and "dead ds" and "\<not> loss_applied ds"
    and "1 \<le> percent" and "percent \<le> 100"
    and "dl_experience_lost out = fixed_percent_of (pl_experience pl) percent"
    and "w' = mark_changed (w\<lparr>
       players := bt_insert p (pl\<lparr>pl_experience := pl_experience pl - dl_experience_lost out,
         pl_level := dl_level out\<rparr>) (players w),
       w_progressions := bt_insert p (dl_progression out) (w_progressions w),
       w_attempts := bt_insert p (dl_attempts out) (w_attempts w),
       w_vitals := bt_insert p (dl_vitals out) (w_vitals w),
       w_respawn := bt_insert p (ds\<lparr>loss_applied := True\<rparr>) (w_respawn w)\<rparr>)"
    and "dl_level out = level_for_experience (pl_experience pl - dl_experience_lost out)"
    and "dl_vitals out = v\<lparr>magic_level := magic_level (dl_vitals out)\<rparr>"
    and "\<And>s. (skills (dl_progression out) s, skill_tries (dl_attempts out) s) =
           skill_after_loss fs percent rules s (skills pr s) (skill_tries att s)"
    and "vocation (dl_progression out) = vocation pr"
proof -
  from assms obtain pl v pr att ds where
    g: "bt_get (players w) p = Some pl" "bt_get (w_vitals w) p = Some v"
      "bt_get (w_progressions w) p = Some pr" "bt_get (w_attempts w) p = Some att"
      "bt_get (w_respawn w) p = Some ds" "dead ds" "\<not> loss_applied ds" "1 \<le> percent" "percent \<le> 100"
    by (auto simp: apply_fixed_percent_death_loss_def accessor_defs split: if_splits)
  obtain sk tries lost where fold: "foldl (\<lambda>acc s. lose_skill fs percent rules s acc)
      (skills pr, skill_tries att, (\<lambda>_. 0)) all_skills = (sk, tries, lost)"
    by (rule prod_cases3)
  obtain ml sm where mag: "magic_progress_from_total fs
      (cumulative_magic_mana fs (magic_level v) (magic_mana att) rules -
       fixed_percent_of (cumulative_magic_mana fs (magic_level v) (magic_mana att) rules) percent) rules = (ml, sm)"
    by (rule prod.exhaust)
  note lose_skills_fold [OF fold all_skills_complete(1)]
  then have sk: "(sk s, tries s) = skill_after_loss fs percent rules s (skills pr s) (skill_tries att s)" for s
    by simp
  from assms g fold mag show ?thesis
    by (intro that [OF g])
      (auto simp: apply_fixed_percent_death_loss_def accessor_defs Let_def sk split: if_splits)
qed

lemma apply_fixed_percent_death_loss_wf:
  assumes "world_wf w"
  shows "world_wf (snd (apply_fixed_percent_death_loss fs p percent rules w))"
proof (cases "apply_fixed_percent_death_loss fs p percent rules w")
  case (Pair r w')
  show ?thesis
  proof (cases r)
    case (Inl e)
    with Pair have "w' = w"
      by (auto simp: apply_fixed_percent_death_loss_def accessor_defs Let_def split: if_splits prod.splits)
        (metis prod_cases3)
    with Pair assms show ?thesis by simp
  next
    case (Inr out)
    with Pair have run: "apply_fixed_percent_death_loss fs p percent rules w = (Ok out, w')" by simp
    show ?thesis
    proof (rule apply_fixed_percent_death_loss_Ok [OF run])
      fix pl v pr att ds
      assume g: "bt_get (players w) p = Some pl" "bt_get (w_vitals w) p = Some v"
        "bt_get (w_respawn w) p = Some ds" "dead ds"
        and w': "w' = mark_changed (w\<lparr>
           players := bt_insert p (pl\<lparr>pl_experience := pl_experience pl - dl_experience_lost out,
             pl_level := dl_level out\<rparr>) (players w),
           w_progressions := bt_insert p (dl_progression out) (w_progressions w),
           w_attempts := bt_insert p (dl_attempts out) (w_attempts w),
           w_vitals := bt_insert p (dl_vitals out) (w_vitals w),
           w_respawn := bt_insert p (ds\<lparr>loss_applied := True\<rparr>) (w_respawn w)\<rparr>)"
        and v': "dl_vitals out = v\<lparr>magic_level := magic_level (dl_vitals out)\<rparr>"
      let ?pl = "pl\<lparr>pl_experience := pl_experience pl - dl_experience_lost out, pl_level := dl_level out\<rparr>"
      have p: "p \<in> registered w" "pl_id pl = p" "vitals_ok v" "respawn_ok ds"
        using world_wf_get [OF assms] g by blast+
      have okv: "vitals_ok (dl_vitals out)"
        by (subst v') (rule vitals_ok_simps [OF p(3)])
      have okr: "respawn_ok (ds\<lparr>loss_applied := True\<rparr>)" using p(4) g(4) by (simp add: respawn_ok_def)
      have "world_wf (w\<lparr>players := bt_insert p ?pl (players w)\<rparr>)"
        by (rule world_wf_player [OF assms p(1)]) (simp add: p)
      moreover have "registered (w\<lparr>players := bt_insert p ?pl (players w)\<rparr>) = registered w"
        using p(1) by auto
      ultimately have "world_wf w'"
        unfolding w' using p(1) okv okr by (simp add: world_simps assms)
      with Pair show ?thesis by simp
    qed
  qed
qed

section \<open>What a respawn gives\<close>

lemma respawn_player_wf:
  assumes "world_wf w"
  shows "world_wf (snd (respawn_player p w))"
  unfolding respawn_player_def Let_def
proof (rule keepsI, intro keeps_intros)
  fix u st q v pl
  assume st: "player_respawn_state w p = Ok st" and v: "player_vitals w p = Ok v"
    and pl: "lookup (players (w\<lparr>w_vitals := bt_insert p (v\<lparr>health := max_health v, mana := max_mana v\<rparr>) (w_vitals w)\<rparr>)) p = Ok pl"
  let ?w1 = "w\<lparr>w_vitals := bt_insert p (v\<lparr>health := max_health v, mana := max_mana v\<rparr>) (w_vitals w)\<rparr>"
  have p: "p \<in> registered w" "vitals_ok v" "pl_id pl = p"
    using world_wf_get [OF assms] v pl by (auto simp: player_vitals_def)
  have w1: "world_wf ?w1" using assms p by (simp add: world_simps vitals_ok_simps)
  have w2: "world_wf (?w1\<lparr>players := bt_insert p (pl\<lparr>pl_position := q\<rparr>) (players ?w1)\<rparr>)"
    by (rule world_wf_player [OF w1]) (use p in simp_all)
  show "world_wf (mark_changed (?w1\<lparr>players := bt_insert p (pl\<lparr>pl_position := q\<rparr>) (players ?w1),
      w_respawn := bt_insert p default_respawn
        (w_respawn (?w1\<lparr>players := bt_insert p (pl\<lparr>pl_position := q\<rparr>) (players ?w1)\<rparr>))\<rparr>))"
    using world_wf_update(9) [OF w2, of "bt_insert p default_respawn (w_respawn w)"]
      world_wf_tables(7,16) [OF assms] p(1)
    by (simp add: respawn_ok_default insert_absorb)
qed (use assms world_wf_get(1) [OF assms] in \<open>simp_all add: world_simps player_vitals_def vitals_ok_simps\<close>)

lemma respawn_player_Ok:
  assumes "respawn_player p w = (Ok out, w')"
  shows "(\<exists>st. bt_get (w_respawn w) p = Some st \<and> dead st \<and> respawn_at st = Some (ra_position out))"
    and "bt_get (w_respawn w') p = Some default_respawn"
    and "map_option pl_position (bt_get (players w') p) = Some (ra_position out)"
    and "\<not> is_static_creature_occupied w (ra_position out)"
    and "\<not> other_player_at w p (ra_position out)"
    and "\<exists>v. bt_get (w_vitals w') p = Some v \<and> health v = max_health v \<and> mana v = max_mana v"
  using assms
  by (auto simp: respawn_player_def Let_def accessor_defs mark_changed_def split: if_splits)

lemma respawn_player_Err:
  assumes "respawn_player p w = (Inl e, w')" and "world_wf w"
  shows "w' = w \<and> e \<noteq> player_fault (MissingRespawnPosition p) \<and> e \<noteq> Panic"
proof -
  have "respawn_at st \<noteq> None" if "player_respawn_state w p = Ok st" "dead st" for st
    using that world_wf_get(8) [OF assms(2), of p st] by (auto simp: player_respawn_state_def respawn_ok_def)
  moreover have "\<exists>v. bt_get (w_vitals w) p = Some v" if "p \<in> registered w"
    using that world_wf_dom(1) [OF assms(2)] by auto
  ultimately show ?thesis
    using assms(1)
    by (auto simp: respawn_player_def Let_def player_vitals_def player_respawn_state_def split: if_splits)
qed

end
