(* ===== verification/Condition_Ops.thy ===== *)
theory Condition_Ops
  imports Death_Ops
begin

text \<open>
  Damage over time and haste (\<open>crates/forgotten-core/src/world_conditions.rs\<close>): the stored
  condition sets, the tick that advances them, and the tick that ends in a death. The interval
  of a condition is a public field of the source, so a set built by hand can divide by zero;
  that is the \<open>Panic\<close> branch, which no set accepted by \<open>condition_set_wf\<close> reaches.
\<close>

section \<open>Condition sets\<close>

definition player_conditions :: "world_state \<Rightarrow> nat \<Rightarrow> condition_set result" where
  "player_conditions w p = lookup (w_conditions w) p"

definition replace_player_conditions :: "nat \<Rightarrow> condition_set \<Rightarrow> bool action" where
  "replace_player_conditions p cs w =
     attempt w (require_player p w) (\<lambda>_.
     attempt w (player_conditions w p) (\<lambda>old.
       if old = cs then (Ok False, w)
       else (Ok True, mark_changed (w\<lparr>w_conditions := bt_insert p cs (w_conditions w)\<rparr>))))"

definition apply_player_condition :: "nat \<Rightarrow> player_condition \<Rightarrow> bool action" where
  "apply_player_condition p c w =
     attempt w (player_conditions w p) (\<lambda>cs.
       if bt_get cs (cond_kind c) = Some c then (Ok False, w)
       else (Ok True, mark_changed (w\<lparr>w_conditions :=
              bt_insert p (bt_insert (cond_kind c) c cs) (w_conditions w)\<rparr>)))"

definition player_speed_bonus_percent :: "world_state \<Rightarrow> nat \<Rightarrow> nat" where
  "player_speed_bonus_percent w p =
     (case bt_get (w_conditions w) p of
        None \<Rightarrow> 0
      | Some cs \<Rightarrow> (case bt_get cs Haste of None \<Rightarrow> 0 | Some c \<Rightarrow> cond_speed_bonus c))"

definition apply_player_speed_condition :: "nat \<Rightarrow> nat \<Rightarrow> nat \<Rightarrow> bool action" where
  "apply_player_speed_condition p bonus remaining w =
     attempt w (require_player p w) (\<lambda>_.
     attempt w (condition_new_haste bonus remaining) (\<lambda>c.
       let cs = (case bt_get (w_conditions w) p of None \<Rightarrow> bt_empty | Some cs \<Rightarrow> cs)
       in (Ok True, mark_changed (w\<lparr>w_conditions :=
             bt_insert p (bt_insert Haste c cs) (w_conditions w)\<rparr>))))"

section \<open>The tick\<close>

definition condition_damage :: "nat \<Rightarrow> player_condition \<Rightarrow> nat" where
  "condition_damage elapsed c =
     (if \<not> is_damage_over_time (cond_kind c) then 0
      else
        let active = min elapsed (cond_remaining c);
            total = sat_add u16_max (cond_elapsed c) active;
            events = total div cond_interval c
        in sat_mul u32_max events (cond_damage c))"

definition pending_player_condition_damage :: "world_state \<Rightarrow> nat \<Rightarrow> nat \<Rightarrow> nat result" where
  "pending_player_condition_damage w p elapsed =
     rbind (player_vitals w p) (\<lambda>v.
     rbind (player_conditions w p) (\<lambda>cs.
       if list_ex (\<lambda>c. is_damage_over_time (cond_kind c) \<and> cond_interval c = 0) (bt_vals cs)
       then Inl Panic
       else
         let requested = foldl (\<lambda>total c. sat_add u32_max total (condition_damage elapsed c)) 0 (bt_vals cs)
         in Ok (min requested (health v))))"

definition tick_condition :: "nat \<Rightarrow> player_condition \<Rightarrow> player_condition" where
  "tick_condition elapsed c =
     (let active = min elapsed (cond_remaining c);
          total = sat_add u16_max (cond_elapsed c) active
      in c\<lparr>cond_elapsed := total mod cond_interval c, cond_remaining := cond_remaining c - active\<rparr>)"

text \<open>The keys pushed to \<open>expired\<close>, in key order.\<close>

definition expired_kinds :: "condition_set \<Rightarrow> condition_kind list" where
  "expired_kinds cs = map fst (filter (\<lambda>(k, c). cond_remaining c = 0) (entries cs))"

definition drop_expired :: "condition_set \<Rightarrow> condition_set" where
  "drop_expired cs = foldl (\<lambda>m k. bt_remove k m) cs (expired_kinds cs)"

record condition_outcome =
  co_player :: nat
  co_applied_damage :: nat
  co_remaining_health :: nat
  co_expired :: nat

definition apply_player_conditions :: "nat \<Rightarrow> nat \<Rightarrow> condition_outcome action" where
  "apply_player_conditions p elapsed w =
     attempt w (player_vitals w p) (\<lambda>cur.
     attempt w (player_respawn_state w p) (\<lambda>rs.
       if dead rs
       then (Ok \<lparr>co_player = p, co_applied_damage = 0, co_remaining_health = health cur, co_expired = 0\<rparr>, w)
       else
         let elapsed = min elapsed max_regeneration_elapsed_seconds
         in attempt w (pending_player_condition_damage w p elapsed) (\<lambda>requested.
            attempt w (player_conditions w p) (\<lambda>cs.
              if elapsed = 0 \<or> entries cs = []
              then (Ok \<lparr>co_player = p, co_applied_damage = 0, co_remaining_health = health cur,
                       co_expired = 0\<rparr>, w)
              else if list_ex (\<lambda>c. cond_interval c = 0) (bt_vals cs) then (Inl Panic, w)
              else
                let ticked = bt_map (\<lambda>_. tick_condition elapsed) cs;
                    expired = expired_kinds ticked;
                    cs' = drop_expired ticked;
                    w1 = w\<lparr>w_conditions := bt_insert p cs' (w_conditions w)\<rparr>;
                    remaining = health cur - requested;
                    w2 = (if requested > 0
                          then w1\<lparr>w_vitals := bt_insert p (cur\<lparr>health := remaining\<rparr>) (w_vitals w1)\<rparr>
                          else w1);
                    w3 = (if requested > 0 \<or> expired \<noteq> [] then mark_changed w2 else w2)
                in (Ok \<lparr>co_player = p, co_applied_damage = requested,
                        co_remaining_health = remaining,
                        co_expired = min (length expired) u8_max\<rparr>, w3)))))"

definition apply_player_conditions_with_death ::
  "nat \<Rightarrow> nat \<Rightarrow> world_map \<Rightarrow> nat \<Rightarrow> (condition_outcome \<times> respawn_state option) action" where
  "apply_player_conditions_with_death p town m elapsed w =
     attempt w (player_vitals w p) (\<lambda>v.
     attempt w (player_respawn_state w p) (\<lambda>rs.
       if dead rs
       then (Ok (\<lparr>co_player = p, co_applied_damage = 0, co_remaining_health = health v, co_expired = 0\<rparr>,
                 None), w)
       else
         let elapsed = min elapsed max_regeneration_elapsed_seconds
         in attempt w (pending_player_condition_damage w p elapsed) (\<lambda>pending.
            if pending > 0 \<and> pending \<ge> health v \<and> town = 0
            then (Inl (player_fault (PlayerTownUnassigned p)), w)
            else if pending > 0 \<and> pending \<ge> health v \<and> temple_position_for_town m town = None
            then (Inl (player_fault (UnknownTown town)), w)
            else chain (apply_player_conditions p elapsed w) (\<lambda>out w1.
              if co_applied_damage out > 0 \<and> co_remaining_health out = 0
              then chain (apply_player_death p town m w1) (\<lambda>st w2. (Ok (out, Some st), w2))
              else (Ok (out, None), w1)))))"

section \<open>The schedule of one condition\<close>

lemma tick_condition_sel [simp]:
  "cond_kind (tick_condition e c) = cond_kind c"
  "cond_interval (tick_condition e c) = cond_interval c"
  "cond_damage (tick_condition e c) = cond_damage c"
  "cond_speed_bonus (tick_condition e c) = cond_speed_bonus c"
  "cond_remaining (tick_condition e c) = cond_remaining c - e"
  by (simp_all add: tick_condition_def Let_def)

text \<open>Two ticks are one tick of the sum: the schedule ends in the same state and the damage of
  the two adds up, so the tick rate of the server does not change what a condition deals.\<close>

lemma tick_condition_split:
  assumes "condition_wf c" and "cond_elapsed c < cond_interval c" and "cond_interval c \<le> u16_max - max_condition_duration_seconds"
  shows "tick_condition e2 (tick_condition e1 c) = tick_condition (e1 + e2) c"
    and "cond_damage c * (cond_elapsed c + cond_remaining c) \<le> u32_max \<Longrightarrow>
      condition_damage e1 c + condition_damage e2 (tick_condition e1 c) = condition_damage (e1 + e2) c"
proof -
  let ?i = "cond_interval c" and ?r = "cond_remaining c" and ?el = "cond_elapsed c"
  let ?a = "min e1 ?r"
  let ?b = "min e2 (?r - ?a)"
  have i: "0 < ?i" and r: "?r \<le> 3600" using assms(1) by (auto simp: condition_wf_def)
  have sat: "sat_add u16_max ?el x = ?el + x" if "x \<le> ?r" for x
    using that r assms(2,3) by (simp add: sat_add_exact)
  have sat2: "sat_add u16_max ((?el + ?a) mod ?i) x = (?el + ?a) mod ?i + x" if "x \<le> ?r" for x
  proof -
    have "(?el + ?a) mod ?i < ?i" using i by simp
    then show ?thesis using that r assms(3) by (simp add: sat_add_exact)
  qed
  have ab: "?a + ?b = min (e1 + e2) ?r" by linarith
  have state: "cond_elapsed (tick_condition e1 c) = (?el + ?a) mod ?i"
    by (simp add: tick_condition_def Let_def sat)
  have rem: "?r - ?a = ?r - e1" by simp
  have sumdiv: "(?el + ?a) div ?i + ((?el + ?a) mod ?i + ?b) div ?i = (?el + (?a + ?b)) div ?i"
  proof -
    have "?el + (?a + ?b) = ((?el + ?a) mod ?i + ?b) + (?el + ?a) div ?i * ?i"
      using div_mult_mod_eq [of "?el + ?a" ?i] by linarith
    then show ?thesis using i by (metis add.commute div_mult_self1 less_not_refl)
  qed
  have summod: "((?el + ?a) mod ?i + ?b) mod ?i = (?el + (?a + ?b)) mod ?i"
    by (metis add.assoc mod_add_left_eq)
  show "tick_condition e2 (tick_condition e1 c) = tick_condition (e1 + e2) c"
  proof (rule player_condition.equality)
    have "cond_elapsed (tick_condition e2 (tick_condition e1 c)) = ((?el + ?a) mod ?i + ?b) mod ?i"
      by (subst tick_condition_def) (simp add: Let_def state sat2 rem)
    moreover have "cond_elapsed (tick_condition (e1 + e2) c) = (?el + (?a + ?b)) mod ?i"
      unfolding ab by (simp add: tick_condition_def Let_def sat)
    ultimately show "cond_elapsed (tick_condition e2 (tick_condition e1 c)) =
        cond_elapsed (tick_condition (e1 + e2) c)"
      using summod by simp
  qed simp_all
  assume cap: "cond_damage c * (?el + ?r) \<le> u32_max"
  have noflow: "x div ?i * cond_damage c \<le> u32_max" if "x \<le> ?el + ?r" for x
  proof -
    have "x div ?i \<le> ?el + ?r" using that div_le_dividend [of x ?i] by linarith
    then have "x div ?i * cond_damage c \<le> (?el + ?r) * cond_damage c" by (rule mult_right_mono) simp
    then show ?thesis using cap by (simp only: mult.commute [of _ "cond_damage c"])
  qed
  have exact: "sat_mul u32_max (x div ?i) (cond_damage c) = x div ?i * cond_damage c"
    if "x \<le> ?el + ?r" for x
    using noflow [OF that] by (simp add: sat_mul_def)
  show "condition_damage e1 c + condition_damage e2 (tick_condition e1 c) = condition_damage (e1 + e2) c"
  proof (cases "is_damage_over_time (cond_kind c)")
    case True
    have d1: "condition_damage e1 c = (?el + ?a) div ?i * cond_damage c"
      using True by (simp add: condition_damage_def Let_def sat exact)
    have le: "(?el + ?a) mod ?i + ?b \<le> ?el + ?r"
    proof -
      have "(?el + ?a) mod ?i \<le> ?el + ?a" by (rule mod_less_eq_dividend)
      moreover have "?a + ?b \<le> ?r" unfolding ab by simp
      ultimately show ?thesis by linarith
    qed
    have d2: "condition_damage e2 (tick_condition e1 c) = ((?el + ?a) mod ?i + ?b) div ?i * cond_damage c"
      using True le by (simp add: condition_damage_def Let_def state sat2 rem exact)
    have d3: "condition_damage (e1 + e2) c = (?el + (?a + ?b)) div ?i * cond_damage c"
      unfolding ab using True by (simp add: condition_damage_def Let_def sat exact)
    show ?thesis unfolding d1 d2 d3 sumdiv [symmetric] by (simp add: algebra_simps)
  qed (simp add: condition_damage_def)
qed


section \<open>The invariant\<close>

lemma bt_get_fold_remove:
  "bt_get (foldl (\<lambda>m k. bt_remove k m) m ks) k = (if k \<in> set ks then None else bt_get m k)"
  by (induction ks arbitrary: m) (auto simp: bt_get_remove)

lemma set_expired_kinds:
  "k \<in> set (expired_kinds cs) \<longleftrightarrow> (\<exists>c. bt_get cs k = Some c \<and> cond_remaining c = 0)"
  by (force simp: expired_kinds_def in_entries_iff image_iff)

text \<open>The set after a tick: the conditions with time left, each ticked.\<close>

lemma ticked_get:
  "bt_get (drop_expired (bt_map (\<lambda>_. tick_condition e) cs)) k =
   (case bt_get cs k of
      None \<Rightarrow> None
    | Some c \<Rightarrow> if cond_remaining c \<le> e then None else Some (tick_condition e c))"
  by (auto simp: drop_expired_def bt_get_fold_remove set_expired_kinds split: option.splits)

lemma tick_condition_wf:
  "condition_wf c \<Longrightarrow> e < cond_remaining c \<Longrightarrow> condition_wf (tick_condition e c)"
  by (auto simp: condition_wf_def)

lemma ticked_wf:
  "condition_set_wf cs \<Longrightarrow> condition_set_wf (drop_expired (bt_map (\<lambda>_. tick_condition e) cs))"
  unfolding condition_set_wf_def ticked_get
  by (auto simp: tick_condition_wf split: option.splits if_splits)

lemma condition_set_wf_insert:
  "condition_set_wf cs \<Longrightarrow> condition_wf c \<Longrightarrow> condition_set_wf (bt_insert (cond_kind c) c cs)"
  by (auto simp: condition_set_wf_def bt_get_insert)

lemma no_panic:
  assumes "condition_set_wf cs"
  shows "\<not> list_ex (\<lambda>c. cond_interval c = 0) (bt_vals cs)"
    and "\<not> list_ex (\<lambda>c. is_damage_over_time (cond_kind c) \<and> cond_interval c = 0) (bt_vals cs)"
  using assms by (auto simp: list_ex_iff in_bt_vals_iff condition_set_wf_def condition_wf_def)

lemma condition_new_haste_kind: "condition_new_haste b r = Ok c \<Longrightarrow> cond_kind c = Haste"
  by (auto simp: condition_new_haste_def split: if_splits)

lemma conditions_set_wf:
  assumes "world_wf w"
  shows "condition_set_wf cs \<Longrightarrow> world_wf (snd (replace_player_conditions p cs w))"
    and "condition_wf c \<Longrightarrow> world_wf (snd (apply_player_condition p c w))"
    and "world_wf (snd (apply_player_speed_condition p b r w))"
proof -
  note get = world_wf_get(2) [OF assms]
  show "condition_set_wf cs \<Longrightarrow> world_wf (snd (replace_player_conditions p cs w))"
    unfolding replace_player_conditions_def
    by (rule keepsI, intro keeps_intros; use assms in \<open>simp add: world_simps\<close>)
  show "condition_wf c \<Longrightarrow> world_wf (snd (apply_player_condition p c w))"
    unfolding apply_player_condition_def
    by (rule keepsI, intro keeps_intros;
        use assms get in \<open>simp add: world_simps player_conditions_def condition_set_wf_insert\<close>)
  show "world_wf (snd (apply_player_speed_condition p b r w))"
    unfolding apply_player_speed_condition_def Let_def
  proof (rule keepsI, intro keeps_intros)
    fix u c
    assume "require_player p w = Ok u" and c: "condition_new_haste b r = Ok c"
    then have p: "p \<in> registered w" by simp
    have "condition_set_wf (bt_insert Haste c cs)" if "condition_set_wf cs" for cs
      using condition_set_wf_insert [OF that, of c] condition_new_haste_wf [OF c]
        condition_new_haste_kind [OF c] by simp
    then show "world_wf (mark_changed (w\<lparr>w_conditions := bt_insert p (bt_insert Haste c
        (case bt_get (w_conditions w) p of None \<Rightarrow> bt_empty | Some cs \<Rightarrow> cs)) (w_conditions w)\<rparr>))"
      using assms p get by (simp add: world_simps split: option.split)
  qed (use assms in simp_all)
qed

lemma apply_player_conditions_wf:
  assumes "world_wf w"
  shows "world_wf (snd (apply_player_conditions p e w))"
  unfolding apply_player_conditions_def Let_def
proof (rule keepsI, intro keeps_intros assms, goal_cases)
  case (1 v rs req cs)
  have p: "p \<in> registered w" "vitals_ok v" "condition_set_wf cs"
    using 1 world_wf_get [OF assms] by (auto simp: player_vitals_def player_conditions_def)
  note cs = ticked_wf [OF p(3), of "min e max_regeneration_elapsed_seconds"]
  from assms p cs show ?case
    by (simp add: world_simps vitals_ok_simps)
qed

section \<open>What a tick does\<close>

text \<open>The damage dealt is the sum of the events of the conditions, capped by the health.\<close>

definition condition_events_damage :: "nat \<Rightarrow> condition_set \<Rightarrow> nat" where
  "condition_events_damage elapsed cs =
     foldl (\<lambda>total c. sat_add u32_max total (condition_damage elapsed c)) 0 (bt_vals cs)"

lemma pending_eq:
  assumes "world_wf w"
  shows "pending_player_condition_damage w p e =
    (case (bt_get (w_vitals w) p, bt_get (w_conditions w) p) of
       (Some v, Some cs) \<Rightarrow> Ok (min (condition_events_damage e cs) (health v))
     | _ \<Rightarrow> Inl (unknown_player p))"
  using no_panic(2) world_wf_get(2) [OF assms]
  by (auto simp: pending_player_condition_damage_def player_vitals_def player_conditions_def
      lookup_def condition_events_damage_def split: option.splits)

lemma condition_events_damage_0 [simp]: "condition_events_damage e bt_empty = 0"
  by (simp add: condition_events_damage_def bt_vals_def)

lemma apply_player_conditions_alive:
  assumes "world_wf w" and "bt_get (w_vitals w) p = Some v" and "bt_get (w_conditions w) p = Some cs"
    and "bt_get (w_respawn w) p = Some rs" and "\<not> dead rs"
    and e': "e' = min e max_regeneration_elapsed_seconds" and "0 < e'"
  obtains out w' where "apply_player_conditions p e w = (Ok out, w')"
    and "co_applied_damage out = min (condition_events_damage e' cs) (health v)"
    and "co_remaining_health out = health v - co_applied_damage out"
    and "map_option health (bt_get (w_vitals w') p) = Some (co_remaining_health out)"
    and "\<And>k. map_option (\<lambda>s. bt_get s k) (bt_get (w_conditions w') p) =
      Some (case bt_get cs k of None \<Rightarrow> None
            | Some c \<Rightarrow> if cond_remaining c \<le> e' then None else Some (tick_condition e' c))"
    and "players w' = players w" and "w_respawn w' = w_respawn w" and "tick w' = tick w"
proof (cases "entries cs = []")
  case True
  then have cs: "cs = bt_empty" by (metis Btmap_entries bt_empty_def entries_bt_empty entries_inject)
  show ?thesis
    by (rule that [of "\<lparr>co_player = p, co_applied_damage = 0, co_remaining_health = health v, co_expired = 0\<rparr>" w])
      (use assms cs in \<open>auto simp: apply_player_conditions_def accessor_defs player_conditions_def pending_eq Let_def\<close>)
next
  case False
  note np = no_panic(1) [of cs] world_wf_get(2) [OF assms(1,3)]
  let ?t = "drop_expired (bt_map (\<lambda>_. tick_condition e') cs)"
  let ?d = "min (condition_events_damage e' cs) (health v)"
  let ?w1 = "w\<lparr>w_conditions := bt_insert p ?t (w_conditions w)\<rparr>"
  let ?w2 = "if ?d > 0 then ?w1\<lparr>w_vitals := bt_insert p (v\<lparr>health := health v - ?d\<rparr>) (w_vitals ?w1)\<rparr> else ?w1"
  have run: "apply_player_conditions p e w = (Ok \<lparr>co_player = p, co_applied_damage = ?d,
      co_remaining_health = health v - ?d,
      co_expired = min (length (expired_kinds (bt_map (\<lambda>_. tick_condition e') cs))) u8_max\<rparr>,
      if ?d > 0 \<or> expired_kinds (bt_map (\<lambda>_. tick_condition e') cs) \<noteq> [] then mark_changed ?w2 else ?w2)"
    using assms(2-5) \<open>0 < e'\<close> np False
    by (simp add: apply_player_conditions_def accessor_defs player_conditions_def pending_eq [OF assms(1)]
        Let_def e' [symmetric] cong: if_cong split del: if_split)
  show ?thesis
    by (rule that [OF run]) (use assms(2) in \<open>auto simp: mark_changed_def ticked_get\<close>)
qed


section \<open>The lethal tick\<close>

lemma apply_player_conditions_with_death_wf:
  assumes "world_wf w"
  shows "world_wf (snd (apply_player_conditions_with_death p t m e w))"
  unfolding apply_player_conditions_with_death_def Let_def
  by (rule keepsI, intro keeps_intros;
      use assms in \<open>simp add: keeps_def apply_player_conditions_wf apply_player_death_wf\<close>)

lemma apply_player_conditions_capped:
  "apply_player_conditions p (min e max_regeneration_elapsed_seconds) w = apply_player_conditions p e w"
  unfolding apply_player_conditions_def by (simp only: min.assoc min.idem)

text \<open>A lethal tick needs a usable town before it changes anything; with one, the player ends
  dead at its temple. A tick that is not lethal never looks at the town.\<close>

lemma apply_player_death_alive:
  assumes "world_wf w" and "bt_get (w_respawn w) p = Some rs" and "\<not> dead rs"
    and "temple_position_for_town m t = Some q"
  obtains st w' where "apply_player_death p t m w = (Ok st, w')" and "dead st" and "respawn_at st = Some q"
    and "death_time st = Some (tick w)" and "bt_get (w_respawn w') p = Some st"
    and "map_option health (bt_get (w_vitals w') p) = Some 0"
proof -
  have p: "p \<in> registered w" using world_wf_get(8) [OF assms(1,2)] by simp
  then obtain v cd where v: "bt_get (w_vitals w) p = Some v" and cd: "bt_get (w_conditions w) p = Some cd"
    using world_wf_dom [OF assms(1)] by blast
  from assms p v cd that show ?thesis
    by (simp add: apply_player_death_def accessor_defs require_player_def Let_def
        clear_player_interaction_references_def mark_changed_def)
qed

theorem apply_player_conditions_with_death_alive:
  assumes "world_wf w" and v: "bt_get (w_vitals w) p = Some v" and cs: "bt_get (w_conditions w) p = Some cs"
    and rs: "bt_get (w_respawn w) p = Some rs" and "\<not> dead rs"
    and e': "e' = min e max_regeneration_elapsed_seconds" and "0 < e'"
  defines "lethal \<equiv> 0 < health v \<and> health v \<le> condition_events_damage e' cs"
  shows "lethal \<and> t = 0 \<Longrightarrow>
      apply_player_conditions_with_death p t m e w = (Inl (player_fault (PlayerTownUnassigned p)), w)"
    and "lethal \<and> t \<noteq> 0 \<and> temple_position_for_town m t = None \<Longrightarrow>
      apply_player_conditions_with_death p t m e w = (Inl (player_fault (UnknownTown t)), w)"
    and "lethal \<and> t \<noteq> 0 \<and> temple_position_for_town m t = Some q \<Longrightarrow>
      \<exists>out st w'. apply_player_conditions_with_death p t m e w = (Ok (out, Some st), w') \<and>
        dead st \<and> respawn_at st = Some q \<and> bt_get (w_respawn w') p = Some st \<and>
        co_remaining_health out = 0 \<and> map_option health (bt_get (w_vitals w') p) = Some 0"
    and "\<not> lethal \<Longrightarrow>
      \<exists>out w'. apply_player_conditions_with_death p t m e w = (Ok (out, None), w') \<and>
        apply_player_conditions p e w = (Ok out, w')"
proof -
  note pend = pending_eq [OF assms(1), of p e']
  have cap: "min e' max_regeneration_elapsed_seconds = e'" using e' by simp
  define d where "d = min (condition_events_damage e' cs) (health v)"
  have pen: "pending_player_condition_damage w p e' = Ok d"
    using pend v cs by (simp add: d_def)
  have let1: "lethal \<longleftrightarrow> 0 < d \<and> health v \<le> d"
    unfolding lethal_def d_def by auto
  obtain out w1 where run: "apply_player_conditions p e' w = (Ok out, w1)"
    and dmg: "co_applied_damage out = min (condition_events_damage e' cs) (health v)"
    and rem: "co_remaining_health out = health v - co_applied_damage out"
    and eqs: "players w1 = players w" "w_respawn w1 = w_respawn w" "tick w1 = tick w"
    by (rule apply_player_conditions_alive [OF assms(1) v cs rs assms(5) cap [symmetric] \<open>0 < e'\<close>]) blast
  have run': "apply_player_conditions p e w = (Ok out, w1)"
    using run e' by (simp only: apply_player_conditions_capped)
  have let2: "0 < co_applied_damage out \<and> co_remaining_health out = 0 \<longleftrightarrow> lethal"
    unfolding dmg rem lethal_def by auto
  note unfold = apply_player_conditions_with_death_def player_vitals_def player_respawn_state_def lookup_def
  have step: "apply_player_conditions_with_death p t m e w =
     (if lethal \<and> t = 0 then (Inl (player_fault (PlayerTownUnassigned p)), w)
      else if lethal \<and> temple_position_for_town m t = None then (Inl (player_fault (UnknownTown t)), w)
      else if lethal then chain (apply_player_death p t m w1) (\<lambda>st w2. (Ok (out, Some st), w2))
      else (Ok (out, None), w1))"
    using v rs assms(5) let2 pen run
    by (cases "0 < d \<and> health v \<le> d") (auto simp: unfold e' [symmetric] Let_def let1)
  show "lethal \<and> t = 0 \<Longrightarrow> apply_player_conditions_with_death p t m e w =
      (Inl (player_fault (PlayerTownUnassigned p)), w)"
    and "lethal \<and> t \<noteq> 0 \<and> temple_position_for_town m t = None \<Longrightarrow>
      apply_player_conditions_with_death p t m e w = (Inl (player_fault (UnknownTown t)), w)"
    by (subst step, simp)+
  show "\<exists>out w'. apply_player_conditions_with_death p t m e w = (Ok (out, None), w') \<and>
      apply_player_conditions p e w = (Ok out, w')" if "\<not> lethal"
    using that run' by (simp add: step)
  assume ok: "lethal \<and> t \<noteq> 0 \<and> temple_position_for_town m t = Some q"
  have wf1: "world_wf w1" using apply_player_conditions_wf [OF assms(1), of p e] run' by simp
  obtain st w2 where d: "apply_player_death p t m w1 = (Ok st, w2)" "dead st" "respawn_at st = Some q"
    "bt_get (w_respawn w2) p = Some st" "map_option health (bt_get (w_vitals w2) p) = Some 0"
    by (rule apply_player_death_alive [OF wf1, of p rs m t q]) (use rs assms(5) ok eqs in auto)
  have "co_remaining_health out = 0" using let2 ok by blast
  with ok d show "\<exists>out st w'. apply_player_conditions_with_death p t m e w = (Ok (out, Some st), w') \<and>
        dead st \<and> respawn_at st = Some q \<and> bt_get (w_respawn w') p = Some st \<and>
        co_remaining_health out = 0 \<and> map_option health (bt_get (w_vitals w') p) = Some 0"
    by (simp add: step)
qed

end
