(* ===== verification/Combat_Ops.thy ===== *)
theory Combat_Ops
  imports Vitals_Ops Death_Ops
begin

text \<open>
  Damage between players, typed combat events and spell casts
  (\<open>crates/forgotten-core/src/world_combat.rs\<close>). Positions are compared on \<open>i32\<close>, which holds
  every difference of two coordinates.
\<close>

section \<open>Damage\<close>

record damage_outcome =
  do_attacker :: nat
  do_target :: nat
  do_requested :: nat
  do_applied :: nat
  do_remaining :: nat
  do_defeated :: bool

text \<open>The result is the damage applied and the health left.\<close>

definition apply_damage_to_known_target :: "nat \<Rightarrow> nat \<Rightarrow> (nat \<times> nat) action" where
  "apply_damage_to_known_target target requested w =
     (if bt_mem target (w_god w)
      then (Ok (0, (case bt_get (w_vitals w) target of None \<Rightarrow> 0 | Some v \<Rightarrow> health v)), w)
      else attempt w (player_vitals w target) (\<lambda>v.
        let applied = min requested (health v);
            v' = v\<lparr>health := health v - applied\<rparr>
        in (Ok (applied, health v'), w\<lparr>w_vitals := bt_insert target v' (w_vitals w)\<rparr>)))"

definition apply_player_damage :: "nat \<Rightarrow> nat \<Rightarrow> nat \<Rightarrow> damage_outcome action" where
  "apply_player_damage attacker target requested w =
     (if attacker = target then (Inl (player_fault (SelfInteractionNotAllowed attacker)), w)
      else attempt w (player_respawn_state w attacker) (\<lambda>rs.
        if dead rs then (Inl (player_fault (PlayerIsDead attacker)), w)
        else attempt w (require_player target w) (\<lambda>_.
          chain (apply_damage_to_known_target target requested w) (\<lambda>(applied, remaining) w1.
            (Ok \<lparr>do_attacker = attacker, do_target = target, do_requested = requested,
                 do_applied = applied, do_remaining = remaining, do_defeated = (remaining = 0)\<rparr>,
             if applied > 0 then mark_changed w1 else w1)))))"

definition apply_player_melee_damage :: "nat \<Rightarrow> nat \<Rightarrow> nat \<Rightarrow> damage_outcome action" where
  "apply_player_melee_damage attacker target requested w =
     attempt w (lookup (players w) attacker) (\<lambda>a.
     attempt w (lookup (players w) target) (\<lambda>b.
       if \<not> is_adjacent_to (pl_position a) (pl_position b)
       then (Inl (rule_fault (CombatOutOfRange attacker target)), w)
       else apply_player_damage attacker target requested w))"

section \<open>Combat events\<close>

definition chebyshev :: "position \<Rightarrow> position \<Rightarrow> nat" where
  "chebyshev a b = max (abs_diff (pos_x a) (pos_x b)) (abs_diff (pos_y a) (pos_y b))"

definition out_of_range :: "combat_delivery \<Rightarrow> position \<Rightarrow> position \<Rightarrow> bool" where
  "out_of_range delivery a b =
     (case delivery of
        AdjacentMelee \<Rightarrow> \<not> is_adjacent_to a b
      | RangedDistance max_range \<Rightarrow>
          pos_z a \<noteq> pos_z b \<or> chebyshev a b = 0 \<or> chebyshev a b > max_range)"

record combat_outcome =
  cb_damage :: damage_outcome
  cb_type :: damage_type
  cb_mitigated :: nat
  cb_next_attack_tick :: nat

definition apply_player_combat_event :: "combat_event \<Rightarrow> combat_outcome action" where
  "apply_player_combat_event ev w =
     (if ev_attacker ev = ev_target ev
      then (Inl (player_fault (SelfInteractionNotAllowed (ev_attacker ev))), w)
      else if ev_damage_type ev \<noteq> Physical then (Inl (rule_fault InvalidCombatEvent), w)
      else attempt w (player_respawn_state w (ev_attacker ev)) (\<lambda>rs.
        if dead rs then (Inl (player_fault (PlayerIsDead (ev_attacker ev))), w)
        else attempt w (lookup (players w) (ev_attacker ev)) (\<lambda>a.
          attempt w (lookup (players w) (ev_target ev)) (\<lambda>b.
          if out_of_range (ev_delivery ev) (pl_position a) (pl_position b)
          then (Inl (rule_fault (CombatOutOfRange (ev_attacker ev) (ev_target ev))), w)
          else attempt w (player_vitals w (ev_target ev)) (\<lambda>v.
            if health v = 0 then (Inl (rule_fault (TargetAlreadyDefeated (ev_target ev))), w)
            else if bt_mem (ev_target ev) (w_god w) \<or> bt_mem (ev_target ev) (w_invisible w)
            then (Inl (rule_fault InvalidCombatEvent), w)
            else attempt w (player_combat_cooldown w (ev_attacker ev)) (\<lambda>nxt.
              if tick w < nxt
              then (Inl (rule_fault (CombatCooldownActive (ev_attacker ev) (tick w) nxt)), w)
              else attempt w (player_combat_defense w (ev_target ev)) (\<lambda>defense.
                let mitigated = mitigate_physical defense (ev_damage ev)
                in chain (apply_damage_to_known_target (ev_target ev) mitigated w) (\<lambda>(applied, remaining) w1.
                  let next_tick = sat_add u64_max (tick w1) (ev_interval ev);
                      w2 = mark_changed (w1\<lparr>w_combat_cooldowns :=
                             bt_insert (ev_attacker ev) next_tick (w_combat_cooldowns w1)\<rparr>)
                  in (Ok \<lparr>cb_damage = \<lparr>do_attacker = ev_attacker ev, do_target = ev_target ev,
                            do_requested = ev_damage ev, do_applied = applied,
                            do_remaining = remaining, do_defeated = (remaining = 0)\<rparr>,
                          cb_type = ev_damage_type ev, cb_mitigated = mitigated,
                          cb_next_attack_tick = next_tick\<rparr>, w2)))))))))"

section \<open>Spell casts\<close>

record spell_outcome =
  so_caster :: nat
  so_spell :: nat
  so_mana_spent :: nat
  so_remaining_mana :: nat
  so_next_cast_tick :: nat

definition apply_player_spell_cast_event :: "spell_event \<Rightarrow> spell_outcome action" where
  "apply_player_spell_cast_event ev w =
     (if sc_spell ev = 0 \<or> sc_mana_cost ev = 0 \<or> sc_mana_cost ev > max_spell_mana_cost \<or>
         sc_interval ev = 0 \<or> sc_interval ev > max_combat_interval_ticks
      then (Inl (rule_fault InvalidSpellCastEvent), w)
      else attempt w (player_respawn_state w (sc_caster ev)) (\<lambda>rs.
        if dead rs then (Inl (player_fault (PlayerIsDead (sc_caster ev))), w)
        else attempt w (player_spell_cooldown w (sc_caster ev)) (\<lambda>nxt.
          if tick w < nxt then (Inl (rule_fault (SpellCooldownActive (sc_caster ev) (tick w) nxt)), w)
          else attempt w (player_vitals w (sc_caster ev)) (\<lambda>v.
            if mana v < sc_mana_cost ev
            then (Inl (rule_fault (InsufficientMana (sc_caster ev) (sc_mana_cost ev) (mana v))), w)
            else
              let v' = v\<lparr>mana := mana v - sc_mana_cost ev\<rparr>;
                  next_tick = sat_add u64_max (tick w) (sc_interval ev)
              in (Ok \<lparr>so_caster = sc_caster ev, so_spell = sc_spell ev,
                      so_mana_spent = sc_mana_cost ev, so_remaining_mana = mana v',
                      so_next_cast_tick = next_tick\<rparr>,
                  mark_changed (w\<lparr>
                    w_vitals := bt_insert (sc_caster ev) v' (w_vitals w),
                    w_spell_cooldowns := bt_insert (sc_caster ev) next_tick (w_spell_cooldowns w)\<rparr>))))))"

section \<open>The invariant\<close>

lemma apply_damage_wf:
  assumes "world_wf w"
  shows "keeps world_wf (apply_damage_to_known_target t n w)"
  unfolding apply_damage_to_known_target_def Let_def
  by (intro keeps_intros; use assms world_wf_get(1) [OF assms] in
      \<open>simp add: world_simps player_vitals_def vitals_ok_simps\<close>)

lemma apply_damage_frame:
  "apply_damage_to_known_target t n w = (r, w') \<Longrightarrow> \<exists>v. w' = w\<lparr>w_vitals := v\<rparr>"
  by (cases r) (auto simp: apply_damage_to_known_target_def Let_def split: if_splits
      intro: exI [of _ "w_vitals w"])

lemma combat_wf:
  assumes "world_wf w"
  shows "world_wf (snd (apply_player_damage a t n w))"
    and "world_wf (snd (apply_player_melee_damage a t n w))"
    and "world_wf (snd (apply_player_combat_event ev w))"
    and "world_wf (snd (apply_player_spell_cast_event sev w))"
proof -
  show dmg: "world_wf (snd (apply_player_damage a t n w))"
    unfolding apply_player_damage_def
    by (rule keepsI, intro keeps_intros apply_damage_wf; use assms in simp)
  show "world_wf (snd (apply_player_melee_damage a t n w))"
    unfolding apply_player_melee_damage_def
    by (rule keepsI, intro keeps_intros; use assms dmg in \<open>simp add: keeps_def\<close>)
  have cd: "world_wf (mark_changed (w1\<lparr>w_combat_cooldowns := bt_insert q n (w_combat_cooldowns w1)\<rparr>))"
    if "world_wf w1" "q \<in> registered w1" for w1 q n
    using that by (simp add: world_simps)
  show "world_wf (snd (apply_player_combat_event ev w))"
    unfolding apply_player_combat_event_def Let_def
  proof (rule keepsI, intro keeps_intros apply_damage_wf assms, goal_cases)
    case (1 rs a b v nxt df res w1 applied remaining)
    then obtain v' where "w1 = w\<lparr>w_vitals := v'\<rparr>" using apply_damage_frame by blast
    moreover have "ev_attacker ev \<in> registered w" using 1 by auto
    ultimately show ?case by (intro cd) (use 1 in auto)
  qed
  show "world_wf (snd (apply_player_spell_cast_event sev w))"
    unfolding apply_player_spell_cast_event_def Let_def
    by (rule keepsI, intro keeps_intros; use assms world_wf_get(1) [OF assms] in
        \<open>simp add: world_simps player_vitals_def vitals_ok_simps\<close>)
qed

section \<open>What combat does\<close>

text \<open>Damage is bounded by the request and by the health, and a god-mode target takes none.\<close>

lemma apply_damage_Ok:
  assumes "apply_damage_to_known_target t n w = (Ok (applied, remaining), w')"
    and "bt_get (w_vitals w) t = Some v"
  shows "applied = (if bt_mem t (w_god w) then 0 else min n (health v)) \<and>
    remaining = health v - applied \<and>
    w' = w\<lparr>w_vitals := bt_insert t (v\<lparr>health := remaining\<rparr>) (w_vitals w)\<rparr>"
  using assms
  by (auto simp: apply_damage_to_known_target_def Let_def player_vitals_def bt_insert_idem split: if_splits)

text \<open>A combat event that is accepted was off cooldown, in range, against a living target that
  may be attacked, and the attacker's next attack waits the interval.\<close>

lemma apply_player_combat_event_Ok:
  assumes "apply_player_combat_event ev w = (Ok out, w')"
  obtains a b v df nxt where
    "bt_get (players w) (ev_attacker ev) = Some a" and "bt_get (players w) (ev_target ev) = Some b"
    and "bt_get (w_vitals w) (ev_target ev) = Some v" and "0 < health v"
    and "bt_get (w_defenses w) (ev_target ev) = Some df"
    and "bt_get (w_combat_cooldowns w) (ev_attacker ev) = Some nxt" and "nxt \<le> tick w"
    and "\<not> out_of_range (ev_delivery ev) (pl_position a) (pl_position b)"
    and "\<not> bt_mem (ev_target ev) (w_god w)" and "\<not> bt_mem (ev_target ev) (w_invisible w)"
    and "ev_attacker ev \<noteq> ev_target ev" and "ev_damage_type ev = Physical"
    and "do_applied (cb_damage out) = min (ev_damage ev - df) (health v)"
    and "do_remaining (cb_damage out) = health v - (ev_damage ev - df)"
    and "bt_get (w_vitals w') (ev_target ev) = Some (v\<lparr>health := do_remaining (cb_damage out)\<rparr>)"
    and "bt_get (w_combat_cooldowns w') (ev_attacker ev) = Some (sat_add u64_max (tick w) (ev_interval ev))"
    and "tick w' = tick w"
  using assms
  by (auto simp: apply_player_combat_event_def Let_def accessor_defs mitigate_physical_def mark_changed_def
      apply_damage_to_known_target_def split: if_splits)

text \<open>An event is accepted exactly under these conditions; the world it leaves differs in the target's
  health, the attacker's cooldown and the revision only.\<close>

lemma combat_event_iff:
  "apply_player_combat_event ev w = (Ok out, w') \<longleftrightarrow>
     (\<exists>rs a b v df nxt. ev_attacker ev \<noteq> ev_target ev \<and> ev_damage_type ev = Physical \<and>
        bt_get (w_respawn w) (ev_attacker ev) = Some rs \<and> \<not> dead rs \<and>
        bt_get (players w) (ev_attacker ev) = Some a \<and> bt_get (players w) (ev_target ev) = Some b \<and>
        \<not> out_of_range (ev_delivery ev) (pl_position a) (pl_position b) \<and>
        bt_get (w_vitals w) (ev_target ev) = Some v \<and> 0 < health v \<and>
        \<not> bt_mem (ev_target ev) (w_god w) \<and> \<not> bt_mem (ev_target ev) (w_invisible w) \<and>
        bt_get (w_combat_cooldowns w) (ev_attacker ev) = Some nxt \<and> nxt \<le> tick w \<and>
        bt_get (w_defenses w) (ev_target ev) = Some df \<and>
        out = \<lparr>cb_damage = \<lparr>do_attacker = ev_attacker ev, do_target = ev_target ev, do_requested = ev_damage ev,
                  do_applied = min (ev_damage ev - df) (health v),
                  do_remaining = health v - (ev_damage ev - df),
                  do_defeated = (health v \<le> ev_damage ev - df)\<rparr>,
               cb_type = Physical, cb_mitigated = ev_damage ev - df,
               cb_next_attack_tick = sat_add u64_max (tick w) (ev_interval ev)\<rparr> \<and>
        w' = mark_changed (w\<lparr>
          w_vitals := bt_insert (ev_target ev) (v\<lparr>health := health v - (ev_damage ev - df)\<rparr>) (w_vitals w),
          w_combat_cooldowns := bt_insert (ev_attacker ev) (sat_add u64_max (tick w) (ev_interval ev))
            (w_combat_cooldowns w)\<rparr>))"
proof -
  have rest: "n - min m n = n - m" for m n :: nat by (simp add: min_def)
  note defs = apply_player_combat_event_def Let_def accessor_defs mitigate_physical_def
    apply_damage_to_known_target_def rest
  show ?thesis (is "?l \<longleftrightarrow> ?r")
  proof
    assume ?l
    then show ?r by (auto simp: defs split: if_splits)
  next
    assume ?r
    then show ?l by (elim exE conjE) (simp add: defs)
  qed
qed

text \<open>Two attacks by one player are at least the interval of the first apart.\<close>

lemma combat_cooldown_blocks:
  assumes "apply_player_combat_event ev w = (Ok out, w')" and "0 < ev_interval ev" and "tick w < u64_max"
    and "ev_attacker ev' = ev_attacker ev"
    and "bt_get (w_combat_cooldowns v) (ev_attacker ev) = bt_get (w_combat_cooldowns w') (ev_attacker ev)"
    and "tick v < min (tick w + ev_interval ev) u64_max"
  shows "\<exists>e. apply_player_combat_event ev' v = (Inl e, v)"
proof (cases "apply_player_combat_event ev' v")
  case (Pair r v')
  show ?thesis
  proof (cases r)
    case (Inr out')
    with Pair have "apply_player_combat_event ev' v = (Ok out', v')" by simp
    then obtain nxt' where "bt_get (w_combat_cooldowns v) (ev_attacker ev') = Some nxt'" "nxt' \<le> tick v"
      by (rule apply_player_combat_event_Ok) blast
    moreover have "bt_get (w_combat_cooldowns w') (ev_attacker ev) = Some (sat_add u64_max (tick w) (ev_interval ev))"
      by (rule apply_player_combat_event_Ok [OF assms(1)]) blast
    ultimately show ?thesis using assms by (simp add: sat_add_def)
  next
    case (Inl e)
    with Pair have "v' = v"
      by (auto simp: apply_player_combat_event_def Let_def accessor_defs apply_damage_to_known_target_def
          split: if_splits)
    with Pair Inl show ?thesis by simp
  qed
qed

lemma spell_cast_Ok:
  assumes "apply_player_spell_cast_event ev w = (Ok out, w')"
  obtains v where "bt_get (w_vitals w) (sc_caster ev) = Some v"
    and "0 < sc_mana_cost ev" and "so_remaining_mana out + sc_mana_cost ev = mana v"
    and "bt_get (w_vitals w') (sc_caster ev) = Some (v\<lparr>mana := so_remaining_mana out\<rparr>)"
    and "bt_get (w_spell_cooldowns w') (sc_caster ev) = Some (so_next_cast_tick out)"
    and "so_next_cast_tick out = sat_add u64_max (tick w) (sc_interval ev)"
  using assms
  by (auto simp: apply_player_spell_cast_event_def Let_def accessor_defs mark_changed_def split: if_splits)

end
