(* ===== verification/Lifecycle.thy ===== *)
theory Lifecycle
  imports Death_Ops
begin

text \<open>
  Registration, removal, queries and the validation of item uses
  (\<open>crates/forgotten-core/src/world_lifecycle.rs\<close>), with the registration invariant across
  the arrival and departure of players.
\<close>

section \<open>Registration\<close>

definition is_player_occupied :: "world_state \<Rightarrow> position \<Rightarrow> bool" where
  "is_player_occupied w q = list_ex (\<lambda>pl. pl_position pl = q) (bt_vals (players w))"

definition add_player_with_vitals_and_progression ::
  "player \<Rightarrow> player_vitals \<Rightarrow> player_progression \<Rightarrow> unit action" where
  "add_player_with_vitals_and_progression pl v pr w =
     (if blank (pl_name pl) then (Inl (player_fault EmptyPlayerName), w)
      else if \<not> vitals_is_valid v then (Inl (player_fault (InvalidPlayerVitals (pl_id pl))), w)
      else if bt_mem (pl_id pl) (players w) then (Inl (player_fault (DuplicatePlayer (pl_id pl))), w)
      else if list_ex (\<lambda>other. pl_position other = pl_position pl) (bt_vals (players w))
      then (Inl (player_fault (PlayerOccupiesPosition (pl_position pl))), w)
      else if is_static_creature_occupied w (pl_position pl)
      then (Inl (static_fault (StaticCreatureOccupiesPosition (pl_position pl))), w)
      else (Ok (), mark_changed (w\<lparr>
             w_vitals := bt_insert (pl_id pl) v (w_vitals w),
             w_progressions := bt_insert (pl_id pl) pr (w_progressions w),
             w_attempts := bt_insert (pl_id pl) default_attempts (w_attempts w),
             w_towns := bt_insert (pl_id pl) 0 (w_towns w),
             w_regen := bt_insert (pl_id pl) default_schedule (w_regen w),
             w_conditions := bt_insert (pl_id pl) bt_empty (w_conditions w),
             w_respawn := bt_insert (pl_id pl) default_respawn (w_respawn w),
             w_equipments := bt_insert (pl_id pl) bt_empty (w_equipments w),
             w_containers := bt_insert (pl_id pl) bt_empty (w_containers w),
             w_defenses := bt_insert (pl_id pl) 0 (w_defenses w),
             w_fight_modes := bt_insert (pl_id pl) default_fight_mode (w_fight_modes w),
             w_combat_cooldowns := bt_insert (pl_id pl) 0 (w_combat_cooldowns w),
             w_spell_cooldowns := bt_insert (pl_id pl) 0 (w_spell_cooldowns w),
             players := bt_insert (pl_id pl) pl (players w)\<rparr>)))"

definition add_player_with_vitals :: "player \<Rightarrow> player_vitals \<Rightarrow> unit action" where
  "add_player_with_vitals pl v = add_player_with_vitals_and_progression pl v default_progression"

definition add_player :: "player \<Rightarrow> unit action" where
  "add_player pl = add_player_with_vitals pl default_vitals"

text \<open>The per-player tables that a departing player leaves.\<close>

definition drop_tables :: "nat \<Rightarrow> world_state \<Rightarrow> world_state" where
  "drop_tables p w = w\<lparr>
     w_vitals := bt_remove p (w_vitals w),
     w_progressions := bt_remove p (w_progressions w),
     w_attempts := bt_remove p (w_attempts w),
     w_towns := bt_remove p (w_towns w),
     w_regen := bt_remove p (w_regen w),
     w_conditions := bt_remove p (w_conditions w),
     w_respawn := bt_remove p (w_respawn w),
     w_equipments := bt_remove p (w_equipments w),
     w_containers := bt_remove p (w_containers w),
     w_defenses := bt_remove p (w_defenses w),
     w_fight_modes := bt_remove p (w_fight_modes w),
     w_combat_cooldowns := bt_remove p (w_combat_cooldowns w),
     w_spell_cooldowns := bt_remove p (w_spell_cooldowns w),
     w_interactions := bt_remove p (w_interactions w)\<rparr>"

definition forget_target :: "nat \<Rightarrow> creature_runtime \<Rightarrow> creature_runtime" where
  "forget_target p rt = (if cr_target rt = Some p then rt\<lparr>cr_target := None\<rparr> else rt)"

definition remove_player :: "nat \<Rightarrow> player action" where
  "remove_player p w =
     attempt w (lookup (players w) p) (\<lambda>pl.
       let w1 = w\<lparr>players := bt_remove p (players w)\<rparr>;
           w2 = clear_player_party_state p w1;
           w3 = drop_tables p w2;
           w4 = clear_player_interaction_references p w3;
           w5 = w4\<lparr>creatures := bt_map (\<lambda>_. forget_target p) (creatures w4)\<rparr>
       in (Ok pl, mark_changed w5))"

section \<open>Queries\<close>

record render_snapshot =
  rs_id :: nat
  rs_name :: string
  rs_position :: position
  rs_level :: nat
  rs_health_percent :: nat

definition player_render_snapshots :: "world_state \<Rightarrow> render_snapshot list" where
  "player_render_snapshots w =
     map (\<lambda>pl.
       let v = (case bt_get (w_vitals w) (pl_id pl) of None \<Rightarrow> default_vitals | Some v \<Rightarrow> v)
       in \<lparr>rs_id = pl_id pl, rs_name = pl_name pl, rs_position = pl_position pl,
           rs_level = pl_level pl,
           rs_health_percent = min (health v * 100 div max (max_health v) 1) 100\<rparr>)
       (bt_vals (players w))"

definition player_positions :: "world_state \<Rightarrow> (nat, position) btmap" where
  "player_positions w = bt_of_list (map (\<lambda>(p, pl). (p, pl_position pl)) (entries (players w)))"

definition player_of :: "world_state \<Rightarrow> nat \<Rightarrow> player option" where
  "player_of w p = bt_get (players w) p"

definition registered_player_ids :: "world_state \<Rightarrow> nat list" where
  "registered_player_ids w = bt_keys (players w)"

definition either_player_in_protection_zone :: "world_state \<Rightarrow> world_map \<Rightarrow> nat \<Rightarrow> nat \<Rightarrow> bool" where
  "either_player_in_protection_zone w m attacker defender =
     list_ex (\<lambda>pl. is_protection_zone m (pl_position pl))
       (filter (\<lambda>pl. pl_id pl = attacker \<or> pl_id pl = defender) (bt_vals (players w)))"

section \<open>Item uses\<close>

record use_intent =
  ui_player :: nat
  ui_position :: position
  ui_index :: nat
  ui_expected :: nat

definition use_intent_new :: "nat \<Rightarrow> position \<Rightarrow> nat \<Rightarrow> nat \<Rightarrow> use_intent result" where
  "use_intent_new p q i sid =
     (if sid = 0 then Inl (map_fault InvalidItemUseIntent)
      else Ok \<lparr>ui_player = p, ui_position = q, ui_index = i, ui_expected = sid\<rparr>)"

record use_outcome =
  uo_player :: nat
  uo_position :: position
  uo_index :: nat
  uo_server_id :: nat
  uo_count :: nat
  uo_action_id :: "nat option"
  uo_unique_id :: "nat option"
  uo_has_text :: bool
  uo_charges :: "nat option"
  uo_teleport :: "position option"

text \<open>Same tile or adjacent.\<close>

definition within_reach :: "position \<Rightarrow> position \<Rightarrow> bool" where
  "within_reach a b \<longleftrightarrow> a = b \<or> is_adjacent_to a b"

definition validate_player_item_use :: "world_state \<Rightarrow> world_map \<Rightarrow> use_intent \<Rightarrow> use_outcome result" where
  "validate_player_item_use w m i =
     (if ui_expected i = 0 then Inl (map_fault InvalidItemUseIntent)
      else rbind (lookup (players w) (ui_player i)) (\<lambda>pl.
        if \<not> within_reach (pl_position pl) (ui_position i)
        then Inl (map_fault (ItemUseOutOfRange (ui_player i) (pl_position pl) (ui_position i)))
        else if \<not> bt_mem (ui_position i) (wm_tiles m)
        then Inl (map_fault (MissingMapTile (ui_position i)))
        else
          case Option.bind (bt_get (wm_tile_items m) (ui_position i)) (\<lambda>its. nth_opt its (ui_index i)) of
            None \<Rightarrow> Inl (map_fault (UnknownMapItem (ui_position i) (ui_index i) (ui_expected i)))
          | Some it \<Rightarrow>
              if wi_server_id it \<noteq> ui_expected i
              then Inl (map_fault (UnknownMapItem (ui_position i) (ui_index i) (ui_expected i)))
              else Ok \<lparr>uo_player = ui_player i, uo_position = ui_position i, uo_index = ui_index i,
                       uo_server_id = wi_server_id it, uo_count = wi_count it,
                       uo_action_id = wi_action_id it, uo_unique_id = wi_unique_id it,
                       uo_has_text = (case wi_text it of None \<Rightarrow> False | Some s \<Rightarrow> s \<noteq> []),
                       uo_charges = wi_charges it, uo_teleport = wi_teleport it\<rparr>))"

record use_ex_intent =
  ux_source :: use_intent
  ux_target :: use_intent

definition use_ex_intent_new ::
  "nat \<Rightarrow> position \<Rightarrow> nat \<Rightarrow> nat \<Rightarrow> position \<Rightarrow> nat \<Rightarrow> nat \<Rightarrow> use_ex_intent result" where
  "use_ex_intent_new p q i sid q' i' sid' =
     rbind (use_intent_new p q i sid) (\<lambda>s. rbind (use_intent_new p q' i' sid') (\<lambda>t.
       Ok \<lparr>ux_source = s, ux_target = t\<rparr>))"

definition validate_player_item_use_ex ::
  "world_state \<Rightarrow> world_map \<Rightarrow> use_ex_intent \<Rightarrow> (use_outcome \<times> use_outcome) result" where
  "validate_player_item_use_ex w m i =
     rbind (validate_player_item_use w m (ux_source i)) (\<lambda>s.
     rbind (validate_player_item_use w m (ux_target i)) (\<lambda>t. Ok (s, t)))"

datatype creature_target = Player_Target nat | Static_Target nat

record use_creature_intent =
  uc_source :: use_intent
  uc_target :: creature_target

datatype creature_target_outcome =
  Player_Outcome nat position
| Static_Outcome nat position nat

fun outcome_position :: "creature_target_outcome \<Rightarrow> position" where
  "outcome_position (Player_Outcome p q) = q"
| "outcome_position (Static_Outcome c q h) = q"

definition use_creature_target :: "world_state \<Rightarrow> creature_target \<Rightarrow> creature_target_outcome result" where
  "use_creature_target w t =
     (case t of
        Player_Target p \<Rightarrow>
          rbind (lookup (players w) p) (\<lambda>pl.
          rbind (player_respawn_state w p) (\<lambda>rs.
            if dead rs then Inl (player_fault (PlayerIsDead p))
            else Ok (Player_Outcome p (pl_position pl))))
      | Static_Target c \<Rightarrow>
          rbind (ok_or (bt_get (creatures w) c) (unknown_creature c)) (\<lambda>rt.
            if \<not> cr_active rt then Inl (static_fault (InactiveStaticCreature c))
            else Ok (Static_Outcome c (se_position (cr_entity rt)) (cr_health_percent rt))))"

definition validate_player_item_use_creature ::
  "world_state \<Rightarrow> world_map \<Rightarrow> use_creature_intent \<Rightarrow>
     (use_outcome \<times> creature_target_outcome) result" where
  "validate_player_item_use_creature w m i =
     rbind (validate_player_item_use w m (uc_source i)) (\<lambda>s.
     rbind (lookup (players w) (ui_player (uc_source i))) (\<lambda>pl.
     rbind (use_creature_target w (uc_target i)) (\<lambda>t.
       if \<not> within_reach (pl_position pl) (outcome_position t)
       then Inl (map_fault (ItemUseOutOfRange (ui_player (uc_source i)) (pl_position pl)
              (outcome_position t)))
       else Ok (s, t))))"

section \<open>Growing and shrinking the set of players\<close>

lemma party_wf_mono: "party_wf D L M I R A \<Longrightarrow> D \<subseteq> D' \<Longrightarrow> party_wf D' L M I R A"
  unfolding party_wf_def by blast

lemma intents_wf_mono: "intents_wf D m \<Longrightarrow> D \<subseteq> D' \<Longrightarrow> intents_wf D' m"
  unfolding intents_wf_def intent_ok_def by blast

lemma all_creatures_ok_mono: "all_creatures_ok D m \<Longrightarrow> D \<subseteq> D' \<Longrightarrow> all_creatures_ok D' m"
  unfolding all_creatures_ok_def creature_ok_def by blast

lemma tracks_grow: "tracks D m \<Longrightarrow> tracks (insert p D) (bt_insert p v m)"
  by (simp add: tracks_def)

lemma tracks_None: "tracks D m \<Longrightarrow> p \<notin> D \<Longrightarrow> bt_get m p = None"
  by (auto simp: tracks_def)

lemma tracks_shrink: "tracks D m \<Longrightarrow> tracks (D - {p}) (bt_remove p m)"
  by (simp add: tracks_def)

lemma all_vals_remove: "all_vals P m \<Longrightarrow> all_vals P (bt_remove p m)"
  by (auto simp: all_vals_def bt_get_remove)

lemma equipment_wf_empty [simp]: "equipment_wf bt_empty"
  by (simp add: equipment_wf_def)

lemma containers_wf_empty [simp]: "containers_wf bt_empty"
  by (simp add: containers_wf_def)

lemma players_wf_insert: "players_wf m \<Longrightarrow> players_wf (bt_insert (pl_id pl) pl m)"
  by (auto simp: players_wf_def bt_get_insert)

lemma add_player_wf:
  assumes "world_wf w" and "max_health v \<le> u16_max" and "max_mana v \<le> u16_max"
  shows "world_wf (snd (add_player_with_vitals_and_progression pl v pr w))"
proof -
  let ?p = "pl_id pl"
  have mono: "registered w \<subseteq> insert ?p (registered w)" by auto
  have "world_wf (w\<lparr>
             w_vitals := bt_insert ?p v (w_vitals w),
             w_progressions := bt_insert ?p pr (w_progressions w),
             w_attempts := bt_insert ?p default_attempts (w_attempts w),
             w_towns := bt_insert ?p 0 (w_towns w),
             w_regen := bt_insert ?p default_schedule (w_regen w),
             w_conditions := bt_insert ?p bt_empty (w_conditions w),
             w_respawn := bt_insert ?p default_respawn (w_respawn w),
             w_equipments := bt_insert ?p bt_empty (w_equipments w),
             w_containers := bt_insert ?p bt_empty (w_containers w),
             w_defenses := bt_insert ?p 0 (w_defenses w),
             w_fight_modes := bt_insert ?p default_fight_mode (w_fight_modes w),
             w_combat_cooldowns := bt_insert ?p 0 (w_combat_cooldowns w),
             w_spell_cooldowns := bt_insert ?p 0 (w_spell_cooldowns w),
             players := bt_insert ?p pl (players w)\<rparr>)" if "vitals_is_valid v"
    using assms that
    unfolding world_wf_def
    by (simp add: tracks_grow players_wf_insert vitals_ok_def
        party_wf_mono [OF _ mono] intents_wf_mono [OF _ mono] all_creatures_ok_mono [OF _ mono])
  with assms(1) show ?thesis
    by (simp add: add_player_with_vitals_and_progression_def)
qed

lemmas clear_party_fields = strip_party_fields [OF strip_party_clear]

lemma clear_party_flags:
  "w_god (clear_player_party_state p w) = w_god w" "w_invisible (clear_player_party_state p w) = w_invisible w"
  "w_food (clear_player_party_state p w) = w_food w" "w_frags (clear_player_party_state p w) = w_frags w"
  "trades (clear_player_party_state p w) = trades w"
  using arg_cong [OF strip_party_clear [of p w], of w_god]
    arg_cong [OF strip_party_clear [of p w], of w_invisible]
    arg_cong [OF strip_party_clear [of p w], of w_food]
    arg_cong [OF strip_party_clear [of p w], of w_frags]
    arg_cong [OF strip_party_clear [of p w], of trades]
  by (simp_all add: strip_party_def)

lemma forget_target_ok: "creature_ok D c rt \<Longrightarrow> creature_ok (D - {p}) c (forget_target p rt)"
  by (auto simp: creature_ok_def forget_target_def)

lemma forget_targets:
  assumes "all_creatures_ok D m" and "occupancy_wf m occ"
  shows "all_creatures_ok (D - {p}) (bt_map (\<lambda>_. forget_target p) m)"
    and "occupancy_wf (bt_map (\<lambda>_. forget_target p) m) occ"
proof -
  show "all_creatures_ok (D - {p}) (bt_map (\<lambda>_. forget_target p) m)"
    using assms(1) forget_target_ok by (auto simp: all_creatures_ok_def)
  have "active_at (bt_map (\<lambda>_. forget_target p) m) q \<longleftrightarrow> active_at m q" for q
  proof -
    have "cr_active (forget_target p rt) = cr_active rt" "cr_entity (forget_target p rt) = cr_entity rt" for rt
      by (simp_all add: forget_target_def)
    then show ?thesis
      unfolding active_at_def bt_get_map map_option_eq_Some by metis
  qed
  with assms(2) show "occupancy_wf (bt_map (\<lambda>_. forget_target p) m) occ"
    by (simp add: occupancy_wf_def)
qed

lemma intents_wf_remove: "intents_wf D m \<Longrightarrow> intents_wf D (bt_remove p m)"
  by (auto simp: intents_wf_def bt_get_remove)

lemma players_wf_remove: "players_wf m \<Longrightarrow> players_wf (bt_remove p m)"
  by (auto simp: players_wf_def bt_get_remove)

lemma remove_player_wf:
  assumes "world_wf w"
  shows "world_wf (snd (remove_player p w))"
proof (cases "bt_get (players w) p")
  case None
  with assms show ?thesis by (simp add: remove_player_def lookup_def)
next
  case (Some pl)
  let ?w1 = "w\<lparr>players := bt_remove p (players w)\<rparr>"
  let ?w2 = "clear_player_party_state p ?w1"
  note fields = clear_party_fields [of p ?w1]
  let ?D = "registered w"
  have "party_ok ?D ?w1" using assms by (simp add: party_ok_def world_wf_def)
  then have party: "party_ok (?D - {p}) ?w2" using clear_player_party_state_ok by blast
  have ints: "intents_wf ?D (bt_remove p (w_interactions w))"
    using assms by (simp add: world_wf_def intents_wf_remove)
  note intents = clear_refs_intents(2) [OF ints bt_get_remove_same]
  have cr: "all_creatures_ok ?D (creatures w)" "occupancy_wf (creatures w) (occupied w)"
    using assms by (simp_all add: world_wf_def)
  let ?w5 = "clear_player_interaction_references p (drop_tables p ?w2)
    \<lparr>creatures := bt_map (\<lambda>_. forget_target p) (creatures w)\<rparr>"
  have run: "snd (remove_player p w) = mark_changed ?w5"
    using Some by (simp add: remove_player_def lookup_def Let_def drop_tables_def fields
        clear_player_interaction_references_def)
  note wf = assms [unfolded world_wf_def]
  have "world_wf ?w5"
    unfolding world_wf_def clear_player_interaction_references_def drop_tables_def
    using wf party intents forget_targets [OF cr, of p]
    by (simp add: fields party_ok_def tracks_shrink all_vals_remove players_wf_remove)
  then show ?thesis unfolding run by simp
qed

section \<open>What arrival and departure do\<close>

text \<open>A specification of departure, not a translation. After it the player has an entry in none of the
  tables that \<open>remove_player\<close> clears, one by one, and is in no party table, no intent of another player
  and no creature's target. The flags \<open>w_god\<close> and \<open>w_invisible\<close>, \<open>w_food\<close>, \<open>w_frags\<close> and \<open>trades\<close> are not
  among them: the code leaves them as they are.\<close>

definition unreferenced :: "nat \<Rightarrow> world_state \<Rightarrow> bool" where
  "unreferenced p w \<longleftrightarrow>
     bt_get (players w) p = None \<and> bt_get (w_vitals w) p = None \<and> bt_get (w_progressions w) p = None \<and>
     bt_get (w_attempts w) p = None \<and> bt_get (w_towns w) p = None \<and> bt_get (w_regen w) p = None \<and>
     bt_get (w_conditions w) p = None \<and> bt_get (w_respawn w) p = None \<and> bt_get (w_equipments w) p = None \<and>
     bt_get (w_containers w) p = None \<and> bt_get (w_defenses w) p = None \<and> bt_get (w_fight_modes w) p = None \<and>
     bt_get (w_combat_cooldowns w) p = None \<and> bt_get (w_spell_cooldowns w) p = None \<and>
     bt_get (w_interactions w) p = None \<and> party_free p w \<and>
     (\<forall>q i. bt_get (w_interactions w) q = Some i \<longrightarrow> target_player i \<noteq> Some p \<and> follow_player i \<noteq> Some p) \<and>
     (\<forall>c rt. bt_get (creatures w) c = Some rt \<longrightarrow> cr_target rt \<noteq> Some p)"

text \<open>What a departure leaves: the entries of the other players, and the five tables it forgets about.\<close>

definition departed_from :: "nat \<Rightarrow> world_state \<Rightarrow> world_state \<Rightarrow> bool" where
  "departed_from p w w' \<longleftrightarrow>
     players w' = bt_remove p (players w) \<and> w_vitals w' = bt_remove p (w_vitals w) \<and>
     w_progressions w' = bt_remove p (w_progressions w) \<and> w_attempts w' = bt_remove p (w_attempts w) \<and>
     w_towns w' = bt_remove p (w_towns w) \<and> w_regen w' = bt_remove p (w_regen w) \<and>
     w_conditions w' = bt_remove p (w_conditions w) \<and> w_respawn w' = bt_remove p (w_respawn w) \<and>
     w_equipments w' = bt_remove p (w_equipments w) \<and> w_containers w' = bt_remove p (w_containers w) \<and>
     w_defenses w' = bt_remove p (w_defenses w) \<and> w_fight_modes w' = bt_remove p (w_fight_modes w) \<and>
     w_combat_cooldowns w' = bt_remove p (w_combat_cooldowns w) \<and>
     w_spell_cooldowns w' = bt_remove p (w_spell_cooldowns w) \<and>
     w_god w' = w_god w \<and> w_invisible w' = w_invisible w \<and> w_food w' = w_food w \<and>
     w_frags w' = w_frags w \<and> trades w' = trades w"

lemma unreferenced_if_wf:
  assumes "world_wf w" and "p \<notin> registered w"
  shows "unreferenced p w"
proof -
  note ok = party_okD [OF party_ok_world [OF assms(1)]]
  have "party_free p w"
    unfolding party_free_def using ok assms(2) by (metis not_None_eq)
  moreover have "q \<noteq> p \<and> target_player i \<noteq> Some p \<and> follow_player i \<noteq> Some p"
    if "bt_get (w_interactions w) q = Some i" for q i
    using world_wf_get(6) [OF assms(1) that] assms(2) by (auto simp: intent_ok_def)
  moreover from this have "bt_get (w_interactions w) p = None" by (cases "bt_get (w_interactions w) p") auto
  moreover have "cr_target rt \<noteq> Some p" if "bt_get (creatures w) c = Some rt" for c rt
    using world_wf_get(7) [OF assms(1) that] assms(2) by (auto simp: creature_ok_def)
  ultimately show ?thesis using assms(2) world_wf_tables [OF assms(1)]
    by (simp add: unreferenced_def domIff tracks_None [OF _ assms(2)])
qed

lemma remove_player_unreferenced:
  assumes "world_wf w" and "remove_player p w = (Ok pl, w')"
  shows "unreferenced p w' \<and> registered w' = registered w - {p} \<and> bt_get (players w) p = Some pl"
proof -
  have pl: "bt_get (players w) p = Some pl" and reg: "players w' = bt_remove p (players w)"
    using assms(2) clear_party_fields(1) [of p "w\<lparr>players := bt_remove p (players w)\<rparr>"]
    by (auto simp: remove_player_def Let_def drop_tables_def clear_player_interaction_references_def
        mark_changed_def)
  moreover have "world_wf w'" using remove_player_wf [OF assms(1), of p] assms(2) by simp
  ultimately show ?thesis using unreferenced_if_wf [of w' p] by simp
qed

lemma remove_player_departed:
  assumes "world_wf w" and "remove_player p w = (r, w')"
  shows "departed_from p w w'"
proof (cases "bt_get (players w) p")
  case (Some pl)
  note fields = clear_party_fields [of p "w\<lparr>players := bt_remove p (players w)\<rparr>"]
  note flags = clear_party_flags [of p "w\<lparr>players := bt_remove p (players w)\<rparr>"]
  from assms(2) Some show ?thesis
    by (auto simp: remove_player_def lookup_def Let_def drop_tables_def clear_player_interaction_references_def
        mark_changed_def departed_from_def fields flags)
next
  case None
  then have p: "p \<notin> registered w" by (simp add: domIff)
  from None assms(2) have "w' = w" by (auto simp: remove_player_def lookup_def)
  with None world_wf_tables [OF assms(1)] show ?thesis
    by (simp add: departed_from_def bt_remove_none tracks_None [OF _ p])
qed

text \<open>No two players on one tile. Arrival, respawn, teleport and the follow pass keep it.\<close>

definition players_apart :: "world_state \<Rightarrow> bool" where
  "players_apart w \<longleftrightarrow> (\<forall>p q a b. bt_get (players w) p = Some a \<longrightarrow> bt_get (players w) q = Some b \<longrightarrow>
     p \<noteq> q \<longrightarrow> pl_position a \<noteq> pl_position b)"

text \<open>No player stands on the tile of an active creature.\<close>

definition off_creatures :: "world_state \<Rightarrow> bool" where
  "off_creatures w \<longleftrightarrow>
     (\<forall>p a. bt_get (players w) p = Some a \<longrightarrow> \<not> is_static_creature_occupied w (pl_position a))"

lemma add_player_Ok:
  assumes "add_player_with_vitals_and_progression pl v pr w = (Ok (), w')"
  shows "\<not> blank (pl_name pl)" and "vitals_is_valid v" and "pl_id pl \<notin> registered w"
    and "players w' = bt_insert (pl_id pl) pl (players w)"
    and "\<And>q a. bt_get (players w) q = Some a \<Longrightarrow> pl_position a \<noteq> pl_position pl"
    and "\<not> is_static_creature_occupied w (pl_position pl)" and "occupied w' = occupied w"
  using assms
  by (auto simp: add_player_with_vitals_and_progression_def mark_changed_def list_ex_iff in_bt_vals_iff
      split: if_splits)

lemma add_player_apart:
  assumes "add_player_with_vitals_and_progression pl v pr w = (Ok (), w')"
  shows "players_apart w \<Longrightarrow> players_apart w'" and "off_creatures w \<Longrightarrow> off_creatures w'"
proof -
  note add = add_player_Ok(4-7) [OF assms]
  have apart: "pl_position pl \<noteq> pl_position a" if "bt_get (players w) q = Some a" for q a
    using add(2) [OF that] by simp
  show "players_apart w \<Longrightarrow> players_apart w'"
    unfolding players_apart_def add(1) bt_get_insert using add(2) apart by auto
  show "off_creatures w \<Longrightarrow> off_creatures w'"
    using add by (auto simp: off_creatures_def is_static_creature_occupied_def bt_get_insert)
qed

text \<open>Arrival and departure are inverse on the registry and the per-player tables.\<close>

lemma remove_after_add:
  assumes "world_wf w" and "add_player_with_vitals_and_progression pl v pr w = (Ok (), w1)"
    and "remove_player (pl_id pl) w1 = (Ok pl', w2)"
  shows "pl' = pl \<and> players w2 = players w \<and> w_vitals w2 = w_vitals w \<and> w_respawn w2 = w_respawn w \<and>
    w_equipments w2 = w_equipments w \<and> w_containers w2 = w_containers w"
proof -
  have new: "pl_id pl \<notin> registered w" by (rule add_player_Ok(3) [OF assms(2)])
  have none: "bt_get (players w) (pl_id pl) = None" "bt_get (w_vitals w) (pl_id pl) = None"
    "bt_get (w_respawn w) (pl_id pl) = None" "bt_get (w_equipments w) (pl_id pl) = None"
    "bt_get (w_containers w) (pl_id pl) = None"
    using new tracks_None [OF _ new] world_wf_tables [OF assms(1)] by (auto simp: domIff)
  have w1: "players w1 = bt_insert (pl_id pl) pl (players w)" "w_vitals w1 = bt_insert (pl_id pl) v (w_vitals w)"
    "w_respawn w1 = bt_insert (pl_id pl) default_respawn (w_respawn w)"
    "w_equipments w1 = bt_insert (pl_id pl) bt_empty (w_equipments w)"
    "w_containers w1 = bt_insert (pl_id pl) bt_empty (w_containers w)"
    using assms(2) by (auto simp: add_player_with_vitals_and_progression_def mark_changed_def split: if_splits)
  from assms(3) w1 none show ?thesis
    by (auto simp: remove_player_def Let_def lookup_def drop_tables_def clear_player_interaction_references_def
        mark_changed_def clear_party_fields bt_remove_none)
qed

section \<open>What the queries return\<close>

lemma render_percent_exact:
  assumes "world_wf w" and "s \<in> set (player_render_snapshots w)"
  obtains pl v where "bt_get (players w) (rs_id s) = Some pl" and "bt_get (w_vitals w) (rs_id s) = Some v"
    and "rs_health_percent s = health v * 100 div max_health v" and "rs_position s = pl_position pl"
proof -
  from assms(2) obtain p pl where pl: "bt_get (players w) p = Some pl"
    and s: "s = (let v = (case bt_get (w_vitals w) (pl_id pl) of None \<Rightarrow> default_vitals | Some v \<Rightarrow> v)
       in \<lparr>rs_id = pl_id pl, rs_name = pl_name pl, rs_position = pl_position pl, rs_level = pl_level pl,
           rs_health_percent = min (health v * 100 div max (max_health v) 1) 100\<rparr>)"
    by (auto simp: player_render_snapshots_def in_bt_vals_iff)
  have p: "p \<in> registered w" "pl_id pl = p" using world_wf_get(5) [OF assms(1) pl] by auto
  then obtain v where v: "bt_get (w_vitals w) p = Some v" using world_wf_dom(1) [OF assms(1)] by blast
  with world_wf_get(1) [OF assms(1)] have ok: "0 < max_health v" "health v \<le> max_health v"
    by (auto simp: vitals_ok_def vitals_is_valid_def)
  then have "health v * 100 div max_health v \<le> 100"
    using div_le_mono [of "health v * 100" "100 * max_health v" "max_health v"] by simp
  with ok s p v have "rs_health_percent s = health v * 100 div max_health v"
    by (simp add: Let_def max_absorb1 min_absorb1)
  with that pl v s p show ?thesis by (simp add: Let_def)
qed

lemma validate_use_iff:
  "validate_player_item_use w m i = Ok out \<longleftrightarrow>
     (\<exists>pl its. ui_expected i \<noteq> 0 \<and> bt_get (players w) (ui_player i) = Some pl \<and>
        within_reach (pl_position pl) (ui_position i) \<and> bt_mem (ui_position i) (wm_tiles m) \<and>
        bt_get (wm_tile_items m) (ui_position i) = Some its \<and> ui_index i < length its \<and>
        wi_server_id (its ! ui_index i) = ui_expected i \<and>
        out = \<lparr>uo_player = ui_player i, uo_position = ui_position i, uo_index = ui_index i,
               uo_server_id = ui_expected i, uo_count = wi_count (its ! ui_index i),
               uo_action_id = wi_action_id (its ! ui_index i),
               uo_unique_id = wi_unique_id (its ! ui_index i),
               uo_has_text = (wi_text (its ! ui_index i) \<noteq> None \<and> wi_text (its ! ui_index i) \<noteq> Some []),
               uo_charges = wi_charges (its ! ui_index i),
               uo_teleport = wi_teleport (its ! ui_index i)\<rparr>)"
  by (auto simp: validate_player_item_use_def lookup_def nth_opt_def bind_eq_Some_conv
      split: if_splits option.splits)

text \<open>A use on a creature that validates names a live player or an active creature in reach of
  the user, as is the item.\<close>

lemma validate_use_creature_Ok:
  assumes "validate_player_item_use_creature w m i = Ok (s, t)"
  shows "validate_player_item_use w m (uc_source i) = Ok s"
    and "\<exists>pl. bt_get (players w) (ui_player (uc_source i)) = Some pl \<and>
      within_reach (pl_position pl) (outcome_position t)"
    and "case t of Player_Outcome p q \<Rightarrow> (\<exists>pl rs. bt_get (players w) p = Some pl \<and> pl_position pl = q \<and>
        bt_get (w_respawn w) p = Some rs \<and> \<not> dead rs)
      | Static_Outcome c q h \<Rightarrow> (\<exists>rt. bt_get (creatures w) c = Some rt \<and> cr_active rt \<and>
        se_position (cr_entity rt) = q \<and> cr_health_percent rt = h)"
  using assms
  by (auto simp: validate_player_item_use_creature_def use_creature_target_def player_respawn_state_def
      split: if_splits creature_target.splits)

end
