(* ===== verification/Movement.thy ===== *)
theory Movement
  imports Lifecycle
begin

text \<open>
  Moves, teleports and the follow pass (\<open>crates/forgotten-core/src/world_movement.rs\<close>).
  \<open>move_player\<close> itself consults neither the map nor the other players: the callers do.
\<close>

section \<open>Operations\<close>

definition move_player :: "nat \<Rightarrow> position \<Rightarrow> unit action" where
  "move_player p dest w =
     attempt w (player_respawn_state w p) (\<lambda>rs.
       if dead rs then (Inl (player_fault (PlayerIsDead p)), w)
       else if is_static_creature_occupied w dest
       then (Inl (static_fault (StaticCreatureOccupiesPosition dest)), w)
       else attempt w (lookup (players w) p) (\<lambda>pl.
         if \<not> is_adjacent_to (pl_position pl) dest
         then (Inl (map_fault (InvalidMovement (pl_position pl) dest)), w)
         else (Ok (), mark_changed (w\<lparr>players :=
                bt_insert p (pl\<lparr>pl_position := dest\<rparr>) (players w)\<rparr>))))"

definition move_player_cardinal :: "nat \<Rightarrow> cardinal_direction \<Rightarrow> (position \<times> position) action" where
  "move_player_cardinal p d w =
     attempt w (lookup (players w) p) (\<lambda>pl.
     attempt w (step (pl_position pl) d) (\<lambda>dest.
       chain (move_player p dest w) (\<lambda>_ w1. (Ok (pl_position pl, dest), w1))))"

definition player_stands_at :: "world_state \<Rightarrow> nat \<Rightarrow> position \<Rightarrow> bool" where
  "player_stands_at w p q =
     list_ex (\<lambda>pl. pl_id pl \<noteq> p \<and> pl_position pl = q) (bt_vals (players w))"

definition teleport_player :: "nat \<Rightarrow> position \<Rightarrow> (position \<times> position) action" where
  "teleport_player p dest w =
     attempt w (player_respawn_state w p) (\<lambda>rs.
       if dead rs then (Inl (player_fault (PlayerIsDead p)), w)
       else if is_static_creature_occupied w dest
       then (Inl (static_fault (StaticCreatureOccupiesPosition dest)), w)
       else if player_stands_at w p dest then (Inl (player_fault (PlayerOccupiesPosition dest)), w)
       else attempt w (lookup (players w) p) (\<lambda>pl.
         (Ok (pl_position pl, dest), mark_changed (w\<lparr>players :=
            bt_insert p (pl\<lparr>pl_position := dest\<rparr>) (players w)\<rparr>))))"

text \<open>The directions that reduce the distance, the longer axis first.\<close>

definition toward :: "nat \<Rightarrow> nat \<Rightarrow> cardinal_direction \<Rightarrow> cardinal_direction \<Rightarrow> cardinal_direction option" where
  "toward source target down up =
     (if target < source then Some down else if source < target then Some up else None)"

definition preferred_directions :: "position \<Rightarrow> position \<Rightarrow> cardinal_direction list" where
  "preferred_directions source target =
     (let xd = toward (pos_x source) (pos_x target) West East;
          yd = toward (pos_y source) (pos_y target) North South
      in List.map_filter id
           (if abs_diff (pos_x source) (pos_x target) \<ge> abs_diff (pos_y source) (pos_y target)
            then [xd, yd] else [yd, xd]))"

fun try_directions ::
  "world_map \<Rightarrow> nat \<Rightarrow> position \<Rightarrow> cardinal_direction list \<Rightarrow> bool action" where
  "try_directions m p source [] w = (Ok False, w)"
| "try_directions m p source (d # ds) w =
     attempt w (step source d) (\<lambda>dest.
       if \<not> is_walkable m dest \<or> is_static_creature_occupied w dest \<or> player_stands_at w p dest
       then try_directions m p source ds w
       else chain (move_player_cardinal p d w) (\<lambda>_ w1. (Ok True, w1)))"

text \<open>One player's turn of the pass: whether it moved.\<close>

definition follow_turn :: "world_map \<Rightarrow> nat \<Rightarrow> bool action" where
  "follow_turn m p w =
     (case Option.bind (bt_get (w_interactions w) p) follow_player of
        None \<Rightarrow> (Ok False, w)
      | Some q \<Rightarrow>
          (case (bt_get (players w) p, bt_get (players w) q) of
             (Some source, Some target) \<Rightarrow>
               attempt w (player_respawn_state w p) (\<lambda>rp.
                 if dead rp then (Ok False, w)
                 else attempt w (player_respawn_state w q) (\<lambda>rq.
                   if dead rq \<or> is_adjacent_to (pl_position source) (pl_position target) \<or>
                      pos_z (pl_position source) \<noteq> pos_z (pl_position target)
                   then (Ok False, w)
                   else try_directions m p (pl_position source)
                          (preferred_directions (pl_position source) (pl_position target)) w))
           | _ \<Rightarrow> (Ok False, w)))"

fun follow_loop :: "world_map \<Rightarrow> nat list \<Rightarrow> nat btset \<Rightarrow> nat btset action" where
  "follow_loop m [] moved w = (Ok moved, w)"
| "follow_loop m (p # ps) moved w =
     chain (follow_turn m p w) (\<lambda>did w1.
       follow_loop m ps (if did then bs_insert p moved else moved) w1)"

definition follow_player_targets_once :: "world_map \<Rightarrow> nat btset action" where
  "follow_player_targets_once m w = follow_loop m (bt_keys (players w)) bt_empty w"

record empty_world_manifest =
  em_identifier :: string
  em_radius_x :: nat
  em_radius_y :: nat

definition default_manifest :: empty_world_manifest where
  "default_manifest = \<lparr>em_identifier = ''fe.empty-world.v1'', em_radius_x = 8, em_radius_y = 6\<rparr>"

record empty_world_viewport =
  vp_tick :: nat
  vp_center :: position
  vp_manifest :: empty_world_manifest

definition empty_world_viewport_of ::
  "world_state \<Rightarrow> nat \<Rightarrow> empty_world_manifest \<Rightarrow> empty_world_viewport result" where
  "empty_world_viewport_of w p manifest =
     rbind (lookup (players w) p) (\<lambda>pl.
       Ok \<lparr>vp_tick = tick w, vp_center = pl_position pl, vp_manifest = manifest\<rparr>)"

section \<open>The invariant\<close>

lemma reposition_wf:
  "world_wf w \<Longrightarrow> bt_get (players w) p = Some pl \<Longrightarrow>
     world_wf (w\<lparr>players := bt_insert p (pl\<lparr>pl_position := q\<rparr>) (players w)\<rparr>)"
  by (rule world_wf_player) (auto dest: world_wf_get(5))

lemma move_player_wf: "world_wf w \<Longrightarrow> world_wf (snd (move_player p q w))"
  unfolding move_player_def
  by (rule keepsI, intro keeps_intros; simp add: reposition_wf)

lemma move_player_cardinal_wf: "world_wf w \<Longrightarrow> world_wf (snd (move_player_cardinal p d w))"
  unfolding move_player_cardinal_def
  by (rule keepsI, intro keeps_intros; simp add: keeps_def move_player_wf)

lemma teleport_player_wf: "world_wf w \<Longrightarrow> world_wf (snd (teleport_player p q w))"
  unfolding teleport_player_def
  by (rule keepsI, intro keeps_intros; simp add: reposition_wf)

lemma try_directions_wf: "world_wf w \<Longrightarrow> keeps world_wf (try_directions m p s ds w)"
proof (induction ds)
  case (Cons d ds)
  then show ?case
    by (simp only: try_directions.simps) (intro keeps_intros; simp add: keeps_def move_player_cardinal_wf)
qed (simp add: keeps_def)

lemma follow_turn_wf: "world_wf w \<Longrightarrow> keeps world_wf (follow_turn m p w)"
  unfolding follow_turn_def
  by (intro keeps_intros try_directions_wf)

lemma follow_loop_wf: "world_wf w \<Longrightarrow> keeps world_wf (follow_loop m ps moved w)"
proof (induction ps arbitrary: moved w)
  case (Cons p ps)
  then show ?case
    by (simp only: follow_loop.simps) (intro keeps_intros follow_turn_wf)
qed (simp add: keeps_def)

lemma follow_pass_wf: "world_wf w \<Longrightarrow> world_wf (snd (follow_player_targets_once m w))"
  unfolding follow_player_targets_once_def by (rule keepsI, rule follow_loop_wf)

section \<open>What a move does\<close>

lemma move_player_Ok:
  "move_player p q w = (Ok u, w') \<longleftrightarrow>
     (\<exists>rs pl. bt_get (w_respawn w) p = Some rs \<and> \<not> dead rs \<and> \<not> is_static_creature_occupied w q \<and>
        bt_get (players w) p = Some pl \<and> is_adjacent_to (pl_position pl) q \<and>
        w' = mark_changed (w\<lparr>players := bt_insert p (pl\<lparr>pl_position := q\<rparr>) (players w)\<rparr>))"
  by (auto simp: move_player_def player_respawn_state_def split: if_splits)

lemma move_player_cardinal_Ok:
  "move_player_cardinal p d w = (Ok (a, b), w') \<longleftrightarrow>
     (\<exists>pl. bt_get (players w) p = Some pl \<and> a = pl_position pl \<and> step a d = Ok b \<and>
        move_player p b w = (Ok (), w'))"
  by (auto simp: move_player_cardinal_def)

lemma player_stands_at_iff:
  "player_stands_at w p q \<longleftrightarrow> (\<exists>i pl. bt_get (players w) i = Some pl \<and> pl_id pl \<noteq> p \<and> pl_position pl = q)"
  unfolding player_stands_at_def list_ex_iff Bex_def in_bt_vals_iff by blast

lemma apart_reposition:
  assumes "world_wf w" and "players_apart w" and "\<not> player_stands_at w p q"
    and "bt_get (players w) p = Some pl"
  shows "players_apart (w\<lparr>players := bt_insert p (pl\<lparr>pl_position := q\<rparr>) (players w)\<rparr>)"
proof -
  have "pl_position b \<noteq> q" if "bt_get (players w) i = Some b" "i \<noteq> p" for i b
    using that assms(3) world_wf_get(5) [OF assms(1) that(1)] by (auto simp: player_stands_at_iff)
  with assms(2) show ?thesis unfolding players_apart_def by (simp add: bt_get_insert) blast
qed

lemma players_apart_mark [simp]: "players_apart (mark_changed w) = players_apart w"
  by (simp add: players_apart_def mark_changed_def)

lemma teleport_player_apart:
  assumes "world_wf w" and "players_apart w"
  shows "players_apart (snd (teleport_player p q w))"
  unfolding teleport_player_def
  by (rule keepsI, intro keeps_intros; use assms apart_reposition in simp)

text \<open>Walking does not: a player can step onto the tile of another one.\<close>

section \<open>The follow pass\<close>

text \<open>What the pass may do to one player: stay, or one cardinal step to a walkable tile that no
  active creature and no other player holds.\<close>

definition may_follow :: "world_map \<Rightarrow> world_state \<Rightarrow> nat \<Rightarrow> bool \<Rightarrow> world_state \<Rightarrow> bool" where
  "may_follow m w p did w' \<longleftrightarrow>
     (if did then
        \<exists>pl d q. bt_get (players w) p = Some pl \<and> step (pl_position pl) d = Ok q \<and>
          is_walkable m q \<and> \<not> is_static_creature_occupied w q \<and> \<not> player_stands_at w p q \<and>
          w' = mark_changed (w\<lparr>players := bt_insert p (pl\<lparr>pl_position := q\<rparr>) (players w)\<rparr>)
      else w' = w)"

lemma try_directions_may:
  assumes "try_directions m p s ds w = (Ok did, w')" and "bt_get (players w) p = Some pl" and "s = pl_position pl"
  shows "may_follow m w p did w'"
  using assms(1)
proof (induction ds)
  case (Cons d ds)
  then show ?case
    using assms(2,3) by (auto simp: may_follow_def move_player_cardinal_Ok move_player_Ok split: if_splits)
qed (simp add: may_follow_def)

lemma follow_turn_may:
  "follow_turn m p w = (Ok did, w') \<Longrightarrow> may_follow m w p did w'"
  by (auto simp: follow_turn_def split: option.splits if_splits dest!: try_directions_may)
    (auto simp: may_follow_def)

text \<open>The directions tried come closer to the target and never leave the map.\<close>

lemma preferred_direction:
  "d \<in> set (preferred_directions s t) \<Longrightarrow>
     (d = West \<and> pos_x t < pos_x s) \<or> (d = East \<and> pos_x s < pos_x t) \<or>
     (d = North \<and> pos_y t < pos_y s) \<or> (d = South \<and> pos_y s < pos_y t)"
  by (auto simp: preferred_directions_def Let_def toward_def map_filter_def split: if_splits)

lemma preferred_step:
  assumes "d \<in> set (preferred_directions s t)" and "pos_wf t"
  shows "\<exists>q. step s d = Ok q \<and>
    abs_diff (pos_x q) (pos_x t) + abs_diff (pos_y q) (pos_y t) + 1 =
      abs_diff (pos_x s) (pos_x t) + abs_diff (pos_y s) (pos_y t)"
  using preferred_direction [OF assms(1)] assms(2)
  by (cases s; elim disjE; elim conjE; simp add: step_def sat_defs pos_wf_def; linarith)


definition positions_ok :: "world_state \<Rightarrow> bool" where
  "positions_ok w \<longleftrightarrow> (\<forall>p pl. bt_get (players w) p = Some pl \<longrightarrow> pos_wf (pl_position pl))"

lemma try_directions_total:
  assumes "bt_get (players w) p = Some pl" and "bt_get (w_respawn w) p = Some rs" and "\<not> dead rs"
    and "\<forall>d \<in> set ds. \<exists>q. step (pl_position pl) d = Ok q"
  shows "\<exists>did w'. try_directions m p (pl_position pl) ds w = (Ok did, w')"
  using assms(4)
proof (induction ds)
  case (Cons d ds)
  then obtain q where q: "step (pl_position pl) d = Ok q" by auto
  show ?case
  proof (cases "\<not> is_walkable m q \<or> is_static_creature_occupied w q \<or> player_stands_at w p q")
    case True
    with Cons q show ?thesis by auto
  next
    case False
    have "\<exists>w'. move_player_cardinal p d w = (Ok (pl_position pl, q), w')"
      using assms(1-3) q False
      by (simp add: move_player_cardinal_def move_player_def player_respawn_state_def lookup_def
          step_adjacent [OF q])
    then obtain w' where "move_player_cardinal p d w = (Ok (pl_position pl, q), w')" ..
    with False q show ?thesis by (intro exI [of _ True] exI [of _ w']) simp
  qed
qed auto

lemma follow_turn_total:
  assumes "world_wf w" and "positions_ok w"
  shows "\<exists>did w'. follow_turn m p w = (Ok did, w')"
proof -
  have rs: "\<exists>rs. bt_get (w_respawn w) i = Some rs" if "bt_get (players w) i = Some pl" for i pl
    using that world_wf_dom(7) [OF assms(1)] by blast
  have steps: "\<forall>d \<in> set (preferred_directions s (pl_position pl)). \<exists>q. step s d = Ok q"
    if "bt_get (players w) i = Some pl" for i pl s
    using that assms(2) preferred_step by (meson positions_ok_def)
  have "\<exists>did w'. try_directions m p (pl_position a) (preferred_directions (pl_position a) (pl_position b)) w = (Ok did, w')"
    if "bt_get (players w) p = Some a" "bt_get (players w) q = Some b"
      "bt_get (w_respawn w) p = Some ra" "\<not> dead ra" for q a b ra
    using try_directions_total [OF that(1,3,4) steps [OF that(2)]] .
  note tried = this
  have stay: "\<exists>did w'. (Ok False, w) = (Ok did :: bool result, w')" by blast
  show ?thesis
  proof (cases "Option.bind (bt_get (w_interactions w) p) follow_player")
    case None
    then show ?thesis by (auto simp: follow_turn_def)
  next
    case (Some q)
    note sel = Some
    show ?thesis
    proof (cases "bt_get (players w) p = None \<or> bt_get (players w) q = None")
      case True
      with sel show ?thesis by (auto simp: follow_turn_def split: option.split)
    next
      case False
      then obtain a b where ab: "bt_get (players w) p = Some a" "bt_get (players w) q = Some b" by auto
      obtain ra rb where r: "bt_get (w_respawn w) p = Some ra" "bt_get (w_respawn w) q = Some rb"
        using rs [OF ab(1)] rs [OF ab(2)] by auto
      show ?thesis
        using tried [OF ab r(1)] stay sel ab r
        by (simp add: follow_turn_def player_respawn_state_def lookup_def)
    qed
  qed
qed

lemma may_follow_frame:
  assumes "may_follow m w p did w'" and "world_wf w" and "positions_ok w"
  shows "q \<noteq> p \<Longrightarrow> bt_get (players w') q = bt_get (players w) q"
    and "positions_ok w'" and "players_apart w \<Longrightarrow> players_apart w'" and "off_creatures w \<Longrightarrow> off_creatures w'"
    and "occupied w' = occupied w"
    and "if did then \<exists>pl d q. bt_get (players w) p = Some pl \<and> step (pl_position pl) d = Ok q \<and>
        is_walkable m q \<and> bt_get (players w') p = Some (pl\<lparr>pl_position := q\<rparr>) else w' = w"
proof -
  consider "\<not> did" "w' = w" | pl d r where "did" "bt_get (players w) p = Some pl" "step (pl_position pl) d = Ok r"
      "is_walkable m r" "\<not> is_static_creature_occupied w r" "\<not> player_stands_at w p r"
      "w' = mark_changed (w\<lparr>players := bt_insert p (pl\<lparr>pl_position := r\<rparr>) (players w)\<rparr>)"
    using assms(1) by (auto simp: may_follow_def split: if_splits)
  then have "(q \<noteq> p \<longrightarrow> bt_get (players w') q = bt_get (players w) q) \<and> positions_ok w' \<and>
    (players_apart w \<longrightarrow> players_apart w') \<and> (off_creatures w \<longrightarrow> off_creatures w') \<and> occupied w' = occupied w \<and>
    (if did then \<exists>pl d q. bt_get (players w) p = Some pl \<and> step (pl_position pl) d = Ok q \<and>
        is_walkable m q \<and> bt_get (players w') p = Some (pl\<lparr>pl_position := q\<rparr>) else w' = w)"
  proof cases
    case 1
    with assms show ?thesis by simp
  next
    case 2
    have "pos_wf r" using step_wf [OF 2(3)] assms(3) 2(2) by (simp add: positions_ok_def)
    moreover have "players_apart w \<Longrightarrow> players_apart w'"
      unfolding 2(7) players_apart_mark by (rule apart_reposition [OF assms(2) _ 2(6,2)])
    ultimately show ?thesis
      using assms(3) 2
      by (auto simp: positions_ok_def off_creatures_def is_static_creature_occupied_def mark_changed_def
          bt_get_insert)
  qed
  then show "q \<noteq> p \<Longrightarrow> bt_get (players w') q = bt_get (players w) q"
    and "positions_ok w'" and "players_apart w \<Longrightarrow> players_apart w'" and "off_creatures w \<Longrightarrow> off_creatures w'"
    and "occupied w' = occupied w"
    and "if did then \<exists>pl d q. bt_get (players w) p = Some pl \<and> step (pl_position pl) d = Ok q \<and>
        is_walkable m q \<and> bt_get (players w') p = Some (pl\<lparr>pl_position := q\<rparr>) else w' = w"
    by blast+
qed

text \<open>The pass never fails. A player it reports moved by one cardinal step onto a walkable tile,
  any other player stayed, and nobody ends on an occupied tile.\<close>

definition moved_once :: "world_map \<Rightarrow> world_state \<Rightarrow> nat \<Rightarrow> world_state \<Rightarrow> bool" where
  "moved_once m w p w' \<longleftrightarrow>
     (\<exists>pl d q. bt_get (players w) p = Some pl \<and> step (pl_position pl) d = Ok q \<and> is_walkable m q \<and>
        bt_get (players w') p = Some (pl\<lparr>pl_position := q\<rparr>))"

lemma moved_once_cong:
  "bt_get (players v) q = bt_get (players w) q \<Longrightarrow> moved_once m v q w' = moved_once m w q w'"
  by (simp add: moved_once_def)

lemma follow_loop_spec:
  assumes "world_wf w" and "positions_ok w" and "distinct ps" and "\<forall>p \<in> set ps. \<not> bt_mem p moved"
  shows "\<exists>out w'. follow_loop m ps moved w = (Ok out, w') \<and> world_wf w' \<and>
    (players_apart w \<longrightarrow> players_apart w') \<and> (off_creatures w \<longrightarrow> off_creatures w') \<and>
    (\<forall>p. p \<notin> set ps \<longrightarrow> bt_get (players w') p = bt_get (players w) p \<and> (bt_mem p out \<longleftrightarrow> bt_mem p moved)) \<and>
    (\<forall>p \<in> set ps. if bt_mem p out then moved_once m w p w'
       else bt_get (players w') p = bt_get (players w) p)"
  using assms
proof (induction ps arbitrary: w moved)
  case (Cons p ps)
  obtain did w1 where turn: "follow_turn m p w = (Ok did, w1)"
    using follow_turn_total [OF Cons.prems(1,2)] by blast
  note may = may_follow_frame [OF follow_turn_may [OF turn] Cons.prems(1,2)]
  have w1: "world_wf w1" using follow_turn_wf [OF Cons.prems(1), of m p] turn by (simp add: keeps_def)
  let ?moved = "if did then bs_insert p moved else moved"
  have "\<forall>q \<in> set ps. \<not> bt_mem q ?moved" using Cons.prems(3,4) by auto
  then have "\<exists>out w'. follow_loop m ps ?moved w1 = (Ok out, w') \<and> world_wf w' \<and>
    (players_apart w1 \<longrightarrow> players_apart w') \<and> (off_creatures w1 \<longrightarrow> off_creatures w') \<and>
    (\<forall>p. p \<notin> set ps \<longrightarrow> bt_get (players w') p = bt_get (players w1) p \<and> (bt_mem p out \<longleftrightarrow> bt_mem p ?moved)) \<and>
    (\<forall>p \<in> set ps. if bt_mem p out then moved_once m w1 p w'
       else bt_get (players w') p = bt_get (players w1) p)"
    using Cons.prems(3) by (intro Cons.IH [OF w1 may(2)]) simp_all
  then obtain out w' where
    run: "follow_loop m ps ?moved w1 = (Ok out, w')" and wf: "world_wf w'"
    and apart: "players_apart w1 \<longrightarrow> players_apart w'" "off_creatures w1 \<longrightarrow> off_creatures w'"
    and rest: "\<And>q. q \<notin> set ps \<Longrightarrow> bt_get (players w') q = bt_get (players w1) q \<and> (bt_mem q out \<longleftrightarrow> bt_mem q ?moved)"
    and mov: "\<And>q. q \<in> set ps \<Longrightarrow> if bt_mem q out then moved_once m w1 q w'
       else bt_get (players w') q = bt_get (players w1) q"
    by blast
  have p: "p \<notin> set ps" using Cons.prems(3) by simp
  have others: "\<And>q. q \<in> set ps \<Longrightarrow> bt_get (players w1) q = bt_get (players w) q"
    using may(1) p by metis
  have "if bt_mem p out then moved_once m w p w' else bt_get (players w') p = bt_get (players w) p"
    using rest [OF p] may(6) Cons.prems(4) by (auto simp: moved_once_def split: if_splits)
  moreover have "if bt_mem q out then moved_once m w q w' else bt_get (players w') q = bt_get (players w) q"
    if "q \<in> set ps" for q
    using mov [OF that] others [OF that] moved_once_cong [OF others [OF that]]
    by (simp split: if_splits)
  moreover have "bt_get (players w') q = bt_get (players w) q \<and> (bt_mem q out \<longleftrightarrow> bt_mem q moved)"
    if "q \<notin> set (p # ps)" for q
    using that rest [of q] may(1) [of q] by (auto split: if_splits)
  ultimately show ?case
    using run wf apart may(3,4) turn by (intro exI [of _ out] exI [of _ w']) simp
qed simp

lemma follow_pass_spec:
  assumes "world_wf w" and "positions_ok w"
  shows "\<exists>out w'. follow_player_targets_once m w = (Ok out, w') \<and>
    (players_apart w \<longrightarrow> players_apart w') \<and> (off_creatures w \<longrightarrow> off_creatures w') \<and>
    (\<forall>p. if bt_mem p out then moved_once m w p w' else bt_get (players w') p = bt_get (players w) p)"
proof -
  obtain out w' where run: "follow_loop m (bt_keys (players w)) bt_empty w = (Ok out, w')"
    "players_apart w \<longrightarrow> players_apart w'" "off_creatures w \<longrightarrow> off_creatures w'"
    "\<And>p. p \<notin> registered w \<Longrightarrow> bt_get (players w') p = bt_get (players w) p \<and> \<not> bt_mem p out"
    "\<And>p. p \<in> registered w \<Longrightarrow> if bt_mem p out then moved_once m w p w'
       else bt_get (players w') p = bt_get (players w) p"
    using follow_loop_spec [OF assms distinct_bt_keys, of "players w" bt_empty m] by auto
  have "if bt_mem p out then moved_once m w p w' else bt_get (players w') p = bt_get (players w) p" for p
    by (cases "p \<in> registered w") (use run in auto)
  with run show ?thesis by (auto simp: follow_player_targets_once_def)
qed

end
