(* ===== verification/Transfers.thy ===== *)
theory Transfers
  imports World
begin

text \<open>
  Moves of items between a player's equipment slots, top-level windows and nested contents
  (\<open>crates/forgotten-core/src/world_transfers.rs\<close>). Every operation works on clones and commits
  at the end; the one error path of \<open>move_content_item_to_container\<close> that commits is modelled as
  it is.
\<close>

section \<open>The lookups the operations share\<close>

definition take_slot ::
  "nat \<Rightarrow> equipment_slot \<Rightarrow> player_equipment \<Rightarrow> (item_instance \<times> player_equipment) result" where
  "take_slot p slot eq = ok_or (unequip slot eq) (item_fault (EmptyEquipmentSlot p slot))"

definition take_window ::
  "nat \<Rightarrow> nat \<Rightarrow> player_containers \<Rightarrow> (player_container \<times> player_containers) result" where
  "take_window p cid cs = ok_or (bt_take cid cs) (item_fault (UnknownPlayerContainer p cid))"

definition take_entry ::
  "nat \<Rightarrow> nat \<Rightarrow> nat \<Rightarrow> player_container \<Rightarrow> (item_instance \<times> player_container) result" where
  "take_entry p cid i c =
     rbind (ok_or (container_remove (pc_items c) i) (item_fault (UnknownPlayerContainerItem p cid i)))
       (\<lambda>(it, items). Ok (it, c\<lparr>pc_items := items\<rparr>))"

definition take_inner ::
  "nat \<Rightarrow> nat \<Rightarrow> nat \<Rightarrow> nat \<Rightarrow> player_container \<Rightarrow> (item_instance \<times> player_container) result" where
  "take_inner p cid i j c =
     rbind (ok_or (container_take_content (pc_items c) i j)
         (item_fault (UnknownPlayerContainerItem p cid i)))
       (\<lambda>(it, items). Ok (it, c\<lparr>pc_items := items\<rparr>))"

text \<open>\<open>container.items.items.insert(index, item)\<close>, used after a removal at the same index.\<close>

definition put_entry :: "nat \<Rightarrow> item_instance \<Rightarrow> player_container \<Rightarrow> player_container" where
  "put_entry i it c =
     c\<lparr>pc_items := (pc_items c)\<lparr>ic_items := insert_at i it (ic_items (pc_items c))\<rparr>\<rparr>"

definition commit :: "nat \<Rightarrow> player_equipment \<Rightarrow> player_containers \<Rightarrow> world_state \<Rightarrow> world_state" where
  "commit p eq cs w =
     mark_changed (w\<lparr>w_equipments := bt_insert p eq (w_equipments w),
                     w_containers := bt_insert p cs (w_containers w)\<rparr>)"

definition commit_equipment :: "nat \<Rightarrow> player_equipment \<Rightarrow> world_state \<Rightarrow> world_state" where
  "commit_equipment p eq w = mark_changed (w\<lparr>w_equipments := bt_insert p eq (w_equipments w)\<rparr>)"

definition commit_containers :: "nat \<Rightarrow> player_containers \<Rightarrow> world_state \<Rightarrow> world_state" where
  "commit_containers p cs w = mark_changed (w\<lparr>w_containers := bt_insert p cs (w_containers w)\<rparr>)"

text \<open>\<open>(count > 0).then_some(count)\<close>.\<close>

definition then_some :: "nat \<Rightarrow> nat option" where
  "then_some n = (if n > 0 then Some n else None)"

section \<open>Complete items\<close>

record slot_to_container_outcome =
  sco_player :: nat
  sco_slot :: equipment_slot
  sco_container :: nat
  sco_item :: item_instance

definition move_equipment_item_to_container ::
  "nat \<Rightarrow> equipment_slot \<Rightarrow> nat \<Rightarrow> slot_to_container_outcome action" where
  "move_equipment_item_to_container p slot cid w =
     attempt w (player_equipment w p) (\<lambda>eq.
     attempt w (player_containers w p) (\<lambda>cs.
     attempt w (take_slot p slot eq) (\<lambda>(it, eq1).
     attempt w (take_window p cid cs) (\<lambda>(c, cs1).
     attempt w (container_insert (pc_items c) it) (\<lambda>items.
     attempt w (containers_insert cs1 (c\<lparr>pc_items := items\<rparr>)) (\<lambda>cs2.
       (Ok \<lparr>sco_player = p, sco_slot = slot, sco_container = cid, sco_item = it\<rparr>,
        commit p eq1 cs2 w)))))))"

record container_to_slot_outcome =
  cso_player :: nat
  cso_container :: nat
  cso_index :: nat
  cso_slot :: equipment_slot
  cso_item :: item_instance

definition move_container_item_to_equipment ::
  "nat \<Rightarrow> nat \<Rightarrow> nat \<Rightarrow> equipment_slot \<Rightarrow> container_to_slot_outcome action" where
  "move_container_item_to_equipment p cid i slot w =
     attempt w (player_equipment w p) (\<lambda>eq.
       if bt_get eq slot \<noteq> None then (Inl (item_fault (OccupiedEquipmentSlot p slot)), w)
       else attempt w (player_containers w p) (\<lambda>cs.
         attempt w (take_window p cid cs) (\<lambda>(c, cs1).
         attempt w (take_entry p cid i c) (\<lambda>(it, c1).
         attempt w (containers_insert cs1 c1) (\<lambda>cs2.
           (Ok \<lparr>cso_player = p, cso_container = cid, cso_index = i, cso_slot = slot, cso_item = it\<rparr>,
            commit p (equip slot it eq) cs2 w))))))"

definition move_content_item_to_equipment ::
  "nat \<Rightarrow> nat \<Rightarrow> nat \<Rightarrow> nat \<Rightarrow> equipment_slot \<Rightarrow> container_to_slot_outcome action" where
  "move_content_item_to_equipment p cid i j slot w =
     attempt w (player_equipment w p) (\<lambda>eq.
       if bt_get eq slot \<noteq> None then (Inl (item_fault (OccupiedEquipmentSlot p slot)), w)
       else attempt w (player_containers w p) (\<lambda>cs.
         attempt w (take_window p cid cs) (\<lambda>(c, cs1).
         attempt w (take_inner p cid i j c) (\<lambda>(it, c1).
         attempt w (containers_insert cs1 c1) (\<lambda>cs2.
           (Ok \<lparr>cso_player = p, cso_container = cid, cso_index = i, cso_slot = slot, cso_item = it\<rparr>,
            commit p (equip slot it eq) cs2 w))))))"

definition move_content_item_to_container ::
  "nat \<Rightarrow> nat \<Rightarrow> nat \<Rightarrow> nat \<Rightarrow> nat \<Rightarrow> unit action" where
  "move_content_item_to_container p cid i j to_cid w =
     attempt w (player_containers w p) (\<lambda>cs.
     attempt w (take_window p cid cs) (\<lambda>(source, cs1).
     attempt w (take_inner p cid i j source) (\<lambda>(moved, source1).
     attempt w (containers_insert cs1 source1) (\<lambda>cs2.
     attempt w (take_window p to_cid cs2) (\<lambda>(target, cs3).
       if pc_has_parent target
       then attempt w (containers_insert cs3 target) (\<lambda>cs4.
         (Inl (item_fault (UnknownPlayerContainer p to_cid)),
          w\<lparr>w_containers := bt_insert p cs4 (w_containers w)\<rparr>))
       else
         attempt w (merge_or_insert_stack (pc_items target) moved) (\<lambda>(_, items).
         attempt w (containers_insert cs3 (target\<lparr>pc_items := items\<rparr>)) (\<lambda>cs4.
           (Ok (), commit_containers p cs4 w))))))))"

record container_swap_outcome =
  wo_player :: nat
  wo_container :: nat
  wo_index :: nat
  wo_slot :: equipment_slot
  wo_equipped :: item_instance
  wo_contained :: item_instance

definition swap_container_item_with_equipment ::
  "nat \<Rightarrow> nat \<Rightarrow> nat \<Rightarrow> equipment_slot \<Rightarrow> container_swap_outcome action" where
  "swap_container_item_with_equipment p cid i slot w =
     attempt w (player_equipment w p) (\<lambda>eq.
     attempt w (take_slot p slot eq) (\<lambda>(equipped, eq1).
     attempt w (player_containers w p) (\<lambda>cs.
     attempt w (take_window p cid cs) (\<lambda>(c, cs1).
     attempt w (take_entry p cid i c) (\<lambda>(contained, c1).
     attempt w (containers_insert cs1 (put_entry i equipped c1)) (\<lambda>cs2.
       (Ok \<lparr>wo_player = p, wo_container = cid, wo_index = i, wo_slot = slot,
            wo_equipped = equipped, wo_contained = contained\<rparr>,
        commit p (equip slot contained eq1) cs2 w)))))))"

record slot_swap_outcome =
  sw_player :: nat
  sw_from :: equipment_slot
  sw_to :: equipment_slot
  sw_from_item :: item_instance
  sw_to_item :: item_instance

definition swap_equipment_items ::
  "nat \<Rightarrow> equipment_slot \<Rightarrow> equipment_slot \<Rightarrow> slot_swap_outcome action" where
  "swap_equipment_items p a b w =
     (if a = b then (Inl (item_fault (SameEquipmentSlotTransfer p a)), w)
      else attempt w (player_equipment w p) (\<lambda>eq.
        attempt w (take_slot p a eq) (\<lambda>(x, eq1).
        attempt w (take_slot p b eq1) (\<lambda>(y, eq2).
          (Ok \<lparr>sw_player = p, sw_from = a, sw_to = b, sw_from_item = x, sw_to_item = y\<rparr>,
           commit_equipment p (equip b x (equip a y eq2)) w)))))"

section \<open>Single units\<close>

definition consume_player_equipment_item_unit :: "nat \<Rightarrow> equipment_slot \<Rightarrow> bool action" where
  "consume_player_equipment_item_unit p slot w =
     attempt w (player_equipment w p) (\<lambda>eq.
       case bt_get eq slot of
         None \<Rightarrow> (Ok False, w)
       | Some it \<Rightarrow>
           (Ok True, commit_equipment p
              (if stack_count it > 1 then bt_insert slot (with_count (stack_count it - 1) it) eq
               else bt_remove slot eq) w))"

definition consume_player_container_item_unit :: "nat \<Rightarrow> nat \<Rightarrow> nat \<Rightarrow> bool action" where
  "consume_player_container_item_unit p cid i w =
     attempt w (player_containers w p) (\<lambda>cs.
     attempt w (take_window p cid cs) (\<lambda>(c, cs1).
       let (consumed, items) = consume_item_unit (pc_items c) i
       in if consumed
          then attempt w (containers_insert cs1 (c\<lparr>pc_items := items\<rparr>)) (\<lambda>cs2.
            (Ok True, commit_containers p cs2 w))
          else (Ok False, w)))"

section \<open>Stacks\<close>

record slot_stack_outcome =
  sso_player :: nat
  sso_slot :: equipment_slot
  sso_container :: nat
  sso_destination :: nat
  sso_moved :: item_instance
  sso_source_remaining :: "nat option"
  sso_destination_count :: nat

definition move_equipment_stack_to_container ::
  "nat \<Rightarrow> equipment_slot \<Rightarrow> nat \<Rightarrow> nat \<Rightarrow> slot_stack_outcome action" where
  "move_equipment_stack_to_container p slot cid n w =
     attempt w (player_equipment w p) (\<lambda>eq.
     attempt w (take_slot p slot eq) (\<lambda>(source, eq1).
     attempt w (split_off source n) (\<lambda>(rest, moved).
       let eq2 = (if stack_count rest > 0 then equip slot rest eq1 else eq1)
       in attempt w (player_containers w p) (\<lambda>cs.
          attempt w (take_window p cid cs) (\<lambda>(c, cs1).
          attempt w (merge_or_insert_stack (pc_items c) moved) (\<lambda>((di, dn), items).
          attempt w (containers_insert cs1 (c\<lparr>pc_items := items\<rparr>)) (\<lambda>cs2.
            (Ok \<lparr>sso_player = p, sso_slot = slot, sso_container = cid, sso_destination = di,
                 sso_moved = moved, sso_source_remaining = then_some (stack_count rest),
                 sso_destination_count = dn\<rparr>,
             commit p eq2 cs2 w))))))))"

record container_stack_slot_outcome =
  cto_player :: nat
  cto_container :: nat
  cto_index :: nat
  cto_slot :: equipment_slot
  cto_moved :: item_instance
  cto_source_remaining :: "nat option"
  cto_destination_count :: nat

definition move_container_stack_to_equipment ::
  "nat \<Rightarrow> nat \<Rightarrow> nat \<Rightarrow> equipment_slot \<Rightarrow> nat \<Rightarrow> container_stack_slot_outcome action" where
  "move_container_stack_to_equipment p cid i slot n w =
     attempt w (player_equipment w p) (\<lambda>eq.
     attempt w (player_containers w p) (\<lambda>cs.
     attempt w (take_window p cid cs) (\<lambda>(c, cs1).
     attempt w (take_entry p cid i c) (\<lambda>(source, c1).
     attempt w (split_off source n) (\<lambda>(rest, moved).
     attempt w (case bt_get eq slot of
                  Some destination \<Rightarrow>
                    rbind (merge_stack destination moved) (\<lambda>m. Ok (stack_count m, equip slot m eq))
                | None \<Rightarrow> Ok (stack_count moved, equip slot moved eq)) (\<lambda>(dn, eq1).
       let c2 = (if stack_count rest > 0 then put_entry i rest c1 else c1)
       in attempt w (containers_insert cs1 c2) (\<lambda>cs2.
            (Ok \<lparr>cto_player = p, cto_container = cid, cto_index = i, cto_slot = slot,
                 cto_moved = moved, cto_source_remaining = then_some (stack_count rest),
                 cto_destination_count = dn\<rparr>,
             commit p eq1 cs2 w))))))))"

record container_stack_outcome =
  cco_player :: nat
  cco_from :: nat
  cco_index :: nat
  cco_to :: nat
  cco_destination :: nat
  cco_moved :: item_instance
  cco_source_remaining :: "nat option"
  cco_destination_count :: nat

definition move_container_stack_to_container ::
  "nat \<Rightarrow> nat \<Rightarrow> nat \<Rightarrow> nat \<Rightarrow> nat \<Rightarrow> container_stack_outcome action" where
  "move_container_stack_to_container p from_cid i to_cid n w =
     (if from_cid = to_cid then (Inl (item_fault (SamePlayerContainerTransfer p from_cid)), w)
      else attempt w (player_containers w p) (\<lambda>cs.
        attempt w (take_window p from_cid cs) (\<lambda>(source, cs1).
        attempt w (take_window p to_cid cs1) (\<lambda>(target, cs2).
        attempt w (take_entry p from_cid i source) (\<lambda>(stack, source1).
        attempt w (split_off stack n) (\<lambda>(rest, moved).
        attempt w (merge_or_insert_stack (pc_items target) moved) (\<lambda>((di, dn), items).
          let source2 = (if stack_count rest > 0 then put_entry i rest source1 else source1)
          in attempt w (containers_insert cs2 source2) (\<lambda>cs3.
             attempt w (containers_insert cs3 (target\<lparr>pc_items := items\<rparr>)) (\<lambda>cs4.
               (Ok \<lparr>cco_player = p, cco_from = from_cid, cco_index = i, cco_to = to_cid,
                    cco_destination = di, cco_moved = moved,
                    cco_source_remaining = then_some (stack_count rest),
                    cco_destination_count = dn\<rparr>,
                commit_containers p cs4 w))))))))))"

section \<open>Ground drops\<close>

datatype drop_source =
  Drop_Slot equipment_slot
| Drop_Entry nat nat
| Drop_Content nat nat nat

record drop_outcome =
  gd_player :: nat
  gd_source :: drop_source
  gd_moved :: item_instance
  gd_source_remaining :: "nat option"

text \<open>The match over the source: what is dropped, what is left of the stack, and the clones.\<close>

definition take_drop ::
  "nat \<Rightarrow> drop_source \<Rightarrow> nat \<Rightarrow> player_equipment \<Rightarrow> player_containers \<Rightarrow>
     (item_instance \<times> nat option \<times> player_equipment \<times> player_containers) result" where
  "take_drop p source n eq cs =
     (case source of
        Drop_Slot slot \<Rightarrow>
          rbind (take_slot p slot eq) (\<lambda>(stack, eq1).
          rbind (split_off stack n) (\<lambda>(rest, moved).
            Ok (moved, then_some (stack_count rest),
                (if stack_count rest > 0 then equip slot rest eq1 else eq1), cs)))
      | Drop_Entry cid i \<Rightarrow>
          rbind (take_window p cid cs) (\<lambda>(c, cs1).
          rbind (take_entry p cid i c) (\<lambda>(stack, c1).
          rbind (split_off stack n) (\<lambda>(rest, moved).
          rbind (containers_insert cs1 (if stack_count rest > 0 then put_entry i rest c1 else c1)) (\<lambda>cs2.
            Ok (moved, then_some (stack_count rest), eq, cs2)))))
      | Drop_Content cid i j \<Rightarrow>
          rbind (take_window p cid cs) (\<lambda>(c, cs1).
          rbind (take_inner p cid i j c) (\<lambda>(stack, c1).
          rbind (split_off stack n) (\<lambda>(rest, moved).
          rbind (containers_insert cs1 c1) (\<lambda>cs2.
            Ok (moved, None, eq, cs2))))))"

definition take_player_stack_for_ground_drop :: "nat \<Rightarrow> drop_source \<Rightarrow> nat \<Rightarrow> drop_outcome action" where
  "take_player_stack_for_ground_drop p source n w =
     attempt w (player_equipment w p) (\<lambda>eq.
     attempt w (player_containers w p) (\<lambda>cs.
     attempt w (take_drop p source n eq cs) (\<lambda>(moved, remaining, eq1, cs1).
       (Ok \<lparr>gd_player = p, gd_source = source, gd_moved = moved, gd_source_remaining = remaining\<rparr>,
        (case source of
           Drop_Slot _ \<Rightarrow> commit p eq1 cs1 w
         | _ \<Rightarrow> commit_containers p cs1 w)))))"


section \<open>Totals over what a player carries\<close>

text \<open>
  A measure of items, summed over the slots and over the windows. A move of a complete item
  keeps the sum of every measure; a move of a part of a stack keeps the sum of those that are
  additive over splitting and merging.
\<close>

definition window_total :: "(item_instance \<Rightarrow> 'a::comm_monoid_add) \<Rightarrow> player_container \<Rightarrow> 'a" where
  "window_total mu c = sum_list (map mu (ic_items (pc_items c)))"

definition stash_total ::
  "(item_instance \<Rightarrow> 'a::comm_monoid_add) \<Rightarrow> player_equipment \<Rightarrow> player_containers \<Rightarrow> 'a" where
  "stash_total mu eq cs = bt_sum mu eq + bt_sum (window_total mu) cs"

lemma sum_list_split_at:
  "i < length xs \<Longrightarrow> sum_list (map f xs) = f (xs ! i) + (sum_list (map f (remove_at i xs)) :: 'a::comm_monoid_add)"
  by (subst id_take_nth_drop [of i xs]) (auto simp: remove_at_def ac_simps)

lemma sum_list_insert_at:
  "sum_list (map f (insert_at i x xs)) = f x + (sum_list (map f xs) :: 'a::comm_monoid_add)"
proof -
  have "sum_list (map f xs) = sum_list (map f (take i xs)) + sum_list (map f (drop i xs))"
    by (metis append_take_drop_id map_append sum_list_append)
  then show ?thesis by (simp add: insert_at_def ac_simps)
qed

lemma sum_list_update_at:
  "i < length xs \<Longrightarrow>
     sum_list (map f (xs[i := y])) = f y + (sum_list (map f (remove_at i xs)) :: 'a::comm_monoid_add)"
  using sum_list_insert_at [of f i y "remove_at i xs"] by (simp add: insert_at_remove_at_update)

lemma take_slot_Ok:
  "take_slot p slot eq = Ok (it, eq1) \<longleftrightarrow> bt_get eq slot = Some it \<and> eq1 = bt_remove slot eq"
  by (auto simp: take_slot_def unequip_def)

lemma take_window_Ok:
  "take_window p cid cs = Ok (c, cs1) \<longleftrightarrow> bt_get cs cid = Some c \<and> cs1 = bt_remove cid cs"
  by (auto simp: take_window_def)

lemma take_entry_Ok:
  "take_entry p cid i c = Ok (it, c1) \<longleftrightarrow>
     i < length (ic_items (pc_items c)) \<and> it = ic_items (pc_items c) ! i \<and>
     c1 = c\<lparr>pc_items := (pc_items c)\<lparr>ic_items := remove_at i (ic_items (pc_items c))\<rparr>\<rparr>"
  by (auto simp: take_entry_def container_remove_Some)

lemma take_inner_Ok:
  "take_inner p cid i j c = Ok (it, c1) \<longleftrightarrow>
     (\<exists>items. container_take_content (pc_items c) i j = Some (it, items) \<and> c1 = c\<lparr>pc_items := items\<rparr>)"
  by (auto simp: take_inner_def)

lemmas take_Ok = take_slot_Ok take_window_Ok take_entry_Ok take_inner_Ok

text \<open>How each step changes the totals.\<close>

lemma total_take_slot:
  "take_slot p slot eq = Ok (it, eq1) \<Longrightarrow> bt_sum mu eq = mu it + bt_sum mu eq1 \<and> bt_get eq1 slot = None"
  by (simp add: take_Ok bt_sum_remove)

lemma total_equip: "bt_get eq slot = None \<Longrightarrow> bt_sum mu (equip slot it eq) = mu it + bt_sum mu eq"
  by (simp add: equip_def bt_sum_insert_new)

lemma total_take_window:
  assumes "take_window p cid cs = Ok (c, cs1)" and "containers_wf cs"
  shows "bt_sum (window_total mu) cs = window_total mu c + bt_sum (window_total mu) cs1"
    and "bt_get cs1 cid = None" and "pc_id c = cid"
  using assms by (auto simp: take_Ok bt_sum_remove window_wf_def dest: containers_wf_get)

lemma total_put_window:
  "containers_insert cs1 c = Ok cs2 \<Longrightarrow> bt_get cs1 (pc_id c) = None \<Longrightarrow>
     bt_sum (window_total mu) cs2 = window_total mu c + bt_sum (window_total mu) cs1"
  by (auto simp: containers_insert_Ok bt_sum_insert_new)

lemma total_take_entry:
  assumes "take_entry p cid i c = Ok (it, c1)"
  shows "window_total mu c = mu it + window_total mu c1" and "pc_id c1 = pc_id c"
  using assms by (auto simp: take_Ok window_total_def sum_list_split_at)

lemma put_entry_id [simp]: "pc_id (put_entry i it c) = pc_id c"
  by (simp add: put_entry_def)

lemma total_put_entry [simp]: "window_total mu (put_entry i it c) = mu it + window_total mu c"
  by (simp add: put_entry_def window_total_def sum_list_insert_at)

lemma total_append:
  "container_insert (pc_items c) it = Ok items \<Longrightarrow>
     window_total mu (c\<lparr>pc_items := items\<rparr>) = mu it + window_total mu c"
  by (auto simp: container_insert_Ok window_total_def ac_simps)

text \<open>How each step keeps well-formedness.\<close>

lemma take_slot_wf: "take_slot p slot eq = Ok (it, eq1) \<Longrightarrow> equipment_wf eq \<Longrightarrow> item_wf it \<and> equipment_wf eq1"
  by (auto simp: take_Ok equipment_wf_remove) (auto simp: equipment_wf_def)

lemma equip_wf: "equipment_wf eq \<Longrightarrow> item_wf it \<Longrightarrow> equipment_wf (equip slot it eq)"
  by (simp add: equip_def equipment_wf_insert)

lemma take_window_wf:
  "take_window p cid cs = Ok (c, cs1) \<Longrightarrow> containers_wf cs \<Longrightarrow> window_wf cid c \<and> containers_wf cs1"
  by (auto simp: take_Ok containers_wf_def bt_len_remove bt_get_remove)

lemma take_entry_wf:
  assumes "take_entry p cid i c = Ok (it, c1)" and "window_wf cid c"
  shows "item_wf it" and "window_wf cid c1" and "item_wf x \<Longrightarrow> window_wf cid (put_entry k x c1)"
proof -
  have c: "container_wf (pc_items c)" using assms(2) by (simp add: window_wf_def)
  have r: "container_remove (pc_items c) i = Some (it, pc_items c1)"
    and c1: "pc_id c1 = pc_id c" "pc_item c1 = pc_item c" "pc_name c1 = pc_name c"
    using assms(1) by (auto simp: take_Ok container_remove_Some)
  from container_remove_wf [OF r c] have wf: "item_wf it" "container_wf (pc_items c1)" by auto
  then show "item_wf it" by simp
  show "window_wf cid c1" using assms(2) wf(2) c1 by (simp add: window_wf_def)
  assume x: "item_wf x"
  have len: "length (ic_items (pc_items c1)) < ic_capacity (pc_items c1)"
    using r c by (auto simp: container_remove_Some container_wf_def length_remove_at)
  then have "container_wf ((pc_items c1)\<lparr>ic_items := insert_at k x (ic_items (pc_items c1))\<rparr>)"
    using wf(2) x by (auto simp: container_wf_def)
  with assms(2) c1 show "window_wf cid (put_entry k x c1)"
    by (simp add: window_wf_def put_entry_def)
qed

lemma take_inner_wf:
  "take_inner p cid i j c = Ok (it, c1) \<Longrightarrow> window_wf cid c \<Longrightarrow> item_wf it \<and> window_wf cid c1"
  by (auto simp: take_Ok window_wf_def dest: container_take_content_wf)

lemma put_window_wf:
  "containers_insert cs1 c = Ok cs2 \<Longrightarrow> containers_wf cs1 \<Longrightarrow> window_wf cid c \<Longrightarrow> containers_wf cs2"
  using containers_insert_wf [of cs1 c cs2] by (simp add: window_wf_def)

lemma append_wf:
  "container_insert (pc_items c) it = Ok items \<Longrightarrow> window_wf cid c \<Longrightarrow> item_wf it \<Longrightarrow>
     window_wf cid (c\<lparr>pc_items := items\<rparr>)"
  by (auto simp: window_wf_def dest: container_insert_wf)

lemma merge_wf:
  "merge_or_insert_stack (pc_items c) it = Ok (r, items) \<Longrightarrow> window_wf cid c \<Longrightarrow> item_wf it \<Longrightarrow>
     window_wf cid (c\<lparr>pc_items := items\<rparr>)"
  by (auto simp: window_wf_def dest: merge_or_insert_stack_wf)

section \<open>What a transfer leaves behind\<close>

text \<open>The player's slots and windows are replaced by well-formed ones whose total differs from the
  old one by what went to the ground; nothing else changes but the revision.\<close>

definition transferred ::
  "(item_instance \<Rightarrow> 'a::comm_monoid_add) \<Rightarrow> nat \<Rightarrow> 'a \<Rightarrow> world_state \<Rightarrow> world_state \<Rightarrow> bool" where
  "transferred mu p lost w w' \<longleftrightarrow>
     (\<exists>eq cs eq' cs'. bt_get (w_equipments w) p = Some eq \<and> bt_get (w_containers w) p = Some cs \<and>
        equipment_wf eq' \<and> containers_wf cs' \<and> w' = commit p eq' cs' w \<and>
        stash_total mu eq' cs' + lost = stash_total mu eq cs)"

lemma commit_eq:
  "bt_get (w_equipments w) p = Some eq \<Longrightarrow> commit_containers p cs w = commit p eq cs w"
  "bt_get (w_containers w) p = Some cs \<Longrightarrow> commit_equipment p eq w = commit p eq cs w"
  by (simp_all add: commit_def commit_containers_def commit_equipment_def bt_insert_idem)

lemma commit_wf:
  assumes "world_wf w" and "p \<in> registered w" and "equipment_wf eq" and "containers_wf cs"
  shows "world_wf (commit p eq cs w)"
  using assms by (simp add: commit_def world_simps)

lemma transferred_wf: "transferred mu p lost w w' \<Longrightarrow> world_wf w \<Longrightarrow> world_wf w'"
  by (auto simp: transferred_def dest: world_wf_get(3) intro: commit_wf)

lemma transferredI:
  assumes "bt_get (w_equipments w) p = Some eq" and "bt_get (w_containers w) p = Some cs"
    and "w' = commit p eq' cs' w" and "equipment_wf eq'" and "containers_wf cs'"
    and "stash_total mu eq' cs' + lost = stash_total mu eq cs"
  shows "transferred mu p lost w w'"
  using assms unfolding transferred_def by blast

text \<open>What one player carries, as the sum of a measure.\<close>

definition player_total :: "(item_instance \<Rightarrow> 'a::comm_monoid_add) \<Rightarrow> world_state \<Rightarrow> nat \<Rightarrow> 'a" where
  "player_total mu w p =
     (case bt_get (w_equipments w) p of None \<Rightarrow> 0 | Some eq \<Rightarrow> bt_sum mu eq) +
     (case bt_get (w_containers w) p of None \<Rightarrow> 0 | Some cs \<Rightarrow> bt_sum (window_total mu) cs)"

lemma transferred_total:
  assumes "transferred mu p lost w w'"
  shows "player_total mu w' p + lost = player_total mu w p"
    and "q \<noteq> p \<Longrightarrow> player_total mu w' q = player_total mu w q"
  using assms by (auto simp: transferred_def player_total_def commit_def mark_changed_def stash_total_def)


section \<open>Complete items: every measure is kept\<close>

lemma move_equipment_item_to_container_Ok:
  assumes "world_wf w" and "move_equipment_item_to_container p slot cid w = (Ok out, w')"
  shows "transferred mu p 0 w w'"
proof -
  from assms(2) obtain eq cs it eq1 c cs1 items cs2 where
    g: "bt_get (w_equipments w) p = Some eq" "bt_get (w_containers w) p = Some cs"
    and a: "take_slot p slot eq = Ok (it, eq1)" and b: "take_window p cid cs = Ok (c, cs1)"
    and d: "container_insert (pc_items c) it = Ok items"
    and f: "containers_insert cs1 (c\<lparr>pc_items := items\<rparr>) = Ok cs2" and w': "w' = commit p eq1 cs2 w"
    by (auto simp: move_equipment_item_to_container_def player_equipment_def player_containers_def)
  have wf: "equipment_wf eq" "containers_wf cs" using world_wf_get(3,4) [OF assms(1)] g by auto
  note wa = take_slot_wf [OF a wf(1)] and wb = take_window_wf [OF b wf(2)]
  note tb = total_take_window [OF b wf(2)]
  have "bt_sum (window_total mu) cs2 = window_total mu (c\<lparr>pc_items := items\<rparr>) + bt_sum (window_total mu) cs1"
    by (rule total_put_window [OF f]) (simp add: tb)
  then have "stash_total mu eq1 cs2 = stash_total mu eq cs"
    using total_take_slot [OF a, of mu] tb(1) [of mu] total_append [OF d, of mu]
    by (simp add: stash_total_def ac_simps)
  moreover have "containers_wf cs2"
    using put_window_wf [OF f] wa wb append_wf [OF d] by blast
  ultimately show ?thesis using wa by (intro transferredI [OF g w']) simp_all
qed

lemma move_container_item_to_equipment_Ok:
  assumes "world_wf w" and "move_container_item_to_equipment p cid i slot w = (Ok out, w')"
  shows "transferred mu p 0 w w'"
proof -
  from assms(2) obtain eq cs c cs1 it c1 cs2 where
    g: "bt_get (w_equipments w) p = Some eq" "bt_get (w_containers w) p = Some cs"
    and e: "bt_get eq slot = None" and b: "take_window p cid cs = Ok (c, cs1)"
    and d: "take_entry p cid i c = Ok (it, c1)"
    and f: "containers_insert cs1 c1 = Ok cs2" and w': "w' = commit p (equip slot it eq) cs2 w"
    by (auto simp: move_container_item_to_equipment_def player_equipment_def player_containers_def
        split: if_splits)
  have wf: "equipment_wf eq" "containers_wf cs" using world_wf_get(3,4) [OF assms(1)] g by auto
  note wb = take_window_wf [OF b wf(2)]
  note wd = take_entry_wf [OF d conjunct1 [OF wb]]
  note tb = total_take_window [OF b wf(2)] and td = total_take_entry [OF d]
  have "bt_sum (window_total mu) cs2 = window_total mu c1 + bt_sum (window_total mu) cs1"
    by (rule total_put_window [OF f]) (simp add: tb td)
  then have "stash_total mu (equip slot it eq) cs2 = stash_total mu eq cs"
    using tb(1) [of mu] td(1) [of mu] total_equip [OF e, of mu it]
    by (simp add: stash_total_def ac_simps)
  moreover have "containers_wf cs2" using put_window_wf [OF f] wb wd by blast
  ultimately show ?thesis using wd equip_wf [OF wf(1)] by (intro transferredI [OF g w']) simp_all
qed

lemma swap_container_item_with_equipment_Ok:
  assumes "world_wf w" and "swap_container_item_with_equipment p cid i slot w = (Ok out, w')"
  shows "transferred mu p 0 w w'"
proof -
  from assms(2) obtain eq cs x eq1 c cs1 y c1 cs2 where
    g: "bt_get (w_equipments w) p = Some eq" "bt_get (w_containers w) p = Some cs"
    and a: "take_slot p slot eq = Ok (x, eq1)" and b: "take_window p cid cs = Ok (c, cs1)"
    and d: "take_entry p cid i c = Ok (y, c1)"
    and f: "containers_insert cs1 (put_entry i x c1) = Ok cs2" and w': "w' = commit p (equip slot y eq1) cs2 w"
    by (auto simp: swap_container_item_with_equipment_def player_equipment_def player_containers_def)
  have wf: "equipment_wf eq" "containers_wf cs" using world_wf_get(3,4) [OF assms(1)] g by auto
  note wa = take_slot_wf [OF a wf(1)] and wb = take_window_wf [OF b wf(2)]
  note wd = take_entry_wf [OF d conjunct1 [OF wb]]
  note ta = total_take_slot [OF a] and tb = total_take_window [OF b wf(2)] and td = total_take_entry [OF d]
  have "bt_sum (window_total mu) cs2 = window_total mu (put_entry i x c1) + bt_sum (window_total mu) cs1"
    by (rule total_put_window [OF f]) (simp add: tb td)
  then have "stash_total mu (equip slot y eq1) cs2 = stash_total mu eq cs"
    using tb(1) [of mu] td(1) [of mu] ta [of mu] total_equip [of eq1 slot mu y]
    by (simp add: stash_total_def ac_simps)
  moreover have "containers_wf cs2" using put_window_wf [OF f] wa wb wd by blast
  ultimately show ?thesis using wa wd equip_wf by (intro transferredI [OF g w']) simp_all
qed

lemma swap_equipment_items_Ok:
  assumes "world_wf w" and "swap_equipment_items p a b w = (Ok out, w')"
  shows "transferred mu p 0 w w'"
    and "\<exists>eq x y eq'. bt_get (w_equipments w) p = Some eq \<and> bt_get eq a = Some x \<and> bt_get eq b = Some y \<and>
      bt_get (w_equipments w') p = Some eq' \<and> bt_get eq' a = Some y \<and> bt_get eq' b = Some x"
proof -
  from assms(2) obtain eq x eq1 y eq2 where g: "bt_get (w_equipments w) p = Some eq" and ne: "a \<noteq> b"
    and s: "take_slot p a eq = Ok (x, eq1)" and t: "take_slot p b eq1 = Ok (y, eq2)"
    and w': "w' = commit_equipment p (equip b x (equip a y eq2)) w"
    by (auto simp: swap_equipment_items_def player_equipment_def split: if_splits)
  from g obtain cs where cs: "bt_get (w_containers w) p = Some cs"
    using world_wf_dom(8,9) [OF assms(1)] by blast
  have wf: "equipment_wf eq" "containers_wf cs" using world_wf_get(3,4) [OF assms(1)] g cs by auto
  note ws = take_slot_wf [OF s wf(1)]
  note wt = take_slot_wf [OF t conjunct2 [OF ws]]
  have none: "bt_get eq2 a = None" "bt_get (equip a y eq2) b = None"
    using s t ne by (auto simp: take_Ok equip_def bt_get_remove)
  have "stash_total mu (equip b x (equip a y eq2)) cs = stash_total mu eq cs"
    using total_take_slot [OF s, of mu] total_take_slot [OF t, of mu]
      total_equip [OF none(1), of mu y] total_equip [OF none(2), of mu x]
    by (simp add: stash_total_def ac_simps)
  then show "transferred mu p 0 w w'"
    using ws wt wf by (intro transferredI [OF g cs w' [unfolded commit_eq(2) [OF cs]]]) (simp_all add: equip_wf)
  show "\<exists>eq x y eq'. bt_get (w_equipments w) p = Some eq \<and> bt_get eq a = Some x \<and> bt_get eq b = Some y \<and>
      bt_get (w_equipments w') p = Some eq' \<and> bt_get eq' a = Some y \<and> bt_get eq' b = Some x"
    using g s t ne w' by (auto simp: take_Ok equip_def commit_equipment_def mark_changed_def bt_get_remove)
qed

text \<open>Failed calls of these change nothing.\<close>

lemmas transfer_defs =
  move_equipment_item_to_container_def move_container_item_to_equipment_def
  move_content_item_to_equipment_def swap_container_item_with_equipment_def
  swap_equipment_items_def consume_player_equipment_item_unit_def
  consume_player_container_item_unit_def move_equipment_stack_to_container_def
  move_container_stack_to_equipment_def move_container_stack_to_container_def
  take_player_stack_for_ground_drop_def

lemma transfers_clean:
  "clean w (move_equipment_item_to_container p slot cid w)"
  "clean w (move_container_item_to_equipment p cid i slot w)"
  "clean w (move_content_item_to_equipment p cid i j slot w)"
  "clean w (swap_container_item_with_equipment p cid i slot w)"
  "clean w (swap_equipment_items p a b w)"
  "clean w (consume_player_equipment_item_unit p slot w)"
  "clean w (consume_player_container_item_unit p cid i w)"
  "clean w (move_equipment_stack_to_container p slot cid n w)"
  "clean w (move_container_stack_to_equipment p cid i slot n w)"
  "clean w (move_container_stack_to_container p from_cid i to_cid n w)"
  "clean w (take_player_stack_for_ground_drop p src n w)"
  unfolding transfer_defs Let_def by (intro clean_intros)+

section \<open>Contents, units and stacks\<close>

text \<open>Moving a nested item keeps the units counted with one level of contents.\<close>

definition item_deep :: "item_instance \<Rightarrow> unit_label multiset" where
  "item_deep it = item_units it + items_units (contents it)"

lemma take_content_deep:
  assumes "take_content it j = Some (x, it')" and "item_wf it"
  shows "item_deep it = item_deep x + item_deep it'"
proof -
  from assms(1) have j: "j < length (contents it)" and x: "x = contents it ! j"
    and it': "it' = with_contents (remove_at j (contents it)) it"
    by (auto simp: take_content_def split: if_splits)
  have "is_leaf x" using item_wf_inside [OF assms(2)] j x by simp
  then show ?thesis
    using items_units_split [OF j] take_content_units [OF assms(1)]
    by (simp add: item_deep_def is_leaf_def x it' ac_simps)
qed

lemma total_take_inner:
  assumes "take_inner p cid i j c = Ok (it, c1)" and "window_wf cid c"
  shows "window_total item_deep c = item_deep it + window_total item_deep c1" and "pc_id c1 = pc_id c"
proof -
  from assms(1) obtain items where t: "container_take_content (pc_items c) i j = Some (it, items)"
    and c1: "c1 = c\<lparr>pc_items := items\<rparr>" by (auto simp: take_Ok)
  from t obtain it' where i: "i < length (ic_items (pc_items c))"
    and tc: "take_content (ic_items (pc_items c) ! i) j = Some (it, it')"
    and items: "items = (pc_items c)\<lparr>ic_items := (ic_items (pc_items c))[i := it']\<rparr>"
    by (auto simp: container_take_content_Some)
  have "item_wf (ic_items (pc_items c) ! i)"
    using assms(2) i by (simp add: window_wf_def container_wf_nth)
  from take_content_deep [OF tc this]
  show "window_total item_deep c = item_deep it + window_total item_deep c1"
    using i by (simp add: window_total_def c1 items sum_list_update_at sum_list_split_at [OF i] ac_simps)
  show "pc_id c1 = pc_id c" by (simp add: c1)
qed

lemma move_content_item_to_equipment_Ok:
  assumes "world_wf w" and "move_content_item_to_equipment p cid i j slot w = (Ok out, w')"
  shows "transferred item_deep p 0 w w'"
proof -
  from assms(2) obtain eq cs c cs1 it c1 cs2 where
    g: "bt_get (w_equipments w) p = Some eq" "bt_get (w_containers w) p = Some cs"
    and e: "bt_get eq slot = None" and b: "take_window p cid cs = Ok (c, cs1)"
    and d: "take_inner p cid i j c = Ok (it, c1)"
    and f: "containers_insert cs1 c1 = Ok cs2" and w': "w' = commit p (equip slot it eq) cs2 w"
    by (auto simp: move_content_item_to_equipment_def player_equipment_def player_containers_def
        split: if_splits)
  have wf: "equipment_wf eq" "containers_wf cs" using world_wf_get(3,4) [OF assms(1)] g by auto
  note wb = take_window_wf [OF b wf(2)]
  note wd = take_inner_wf [OF d conjunct1 [OF wb]]
  note tb = total_take_window [OF b wf(2)] and td = total_take_inner [OF d conjunct1 [OF wb]]
  have "bt_sum (window_total item_deep) cs2 = window_total item_deep c1 + bt_sum (window_total item_deep) cs1"
    by (rule total_put_window [OF f]) (simp add: tb td)
  then have "stash_total item_deep (equip slot it eq) cs2 = stash_total item_deep eq cs"
    using tb(1) [of item_deep] td(1) total_equip [OF e, of item_deep it]
    by (simp add: stash_total_def ac_simps)
  moreover have "containers_wf cs2" using put_window_wf [OF f] wb wd by blast
  ultimately show ?thesis using wd equip_wf [OF wf(1)] by (intro transferredI [OF g w']) simp_all
qed


lemma merge_or_insert_cases:
  assumes "merge_or_insert_stack c it = Ok (r, c')"
  obtains (merged) i m where "i < length (ic_items c)" and "merge_stack (ic_items c ! i) it = Ok m"
      and "c' = c\<lparr>ic_items := (ic_items c)[i := m]\<rparr>"
    | (inserted) "container_insert c it = Ok c'"
proof (cases "find_index (\<lambda>ex. is_stack_compatible_with ex it \<and>
             sat_add u16_max (stack_count ex) (stack_count it) \<le> max_item_stack_count) (ic_items c)")
  case (Some k)
  with assms obtain m where "merge_stack (ic_items c ! k) it = Ok m"
    and "c' = c\<lparr>ic_items := (ic_items c)[k := m]\<rparr>"
    by (auto simp: merge_or_insert_stack_def)
  with find_index_Some [OF Some] show ?thesis by (intro merged [of k m]) simp_all
next
  case None
  with assms show ?thesis
    by (intro inserted) (auto simp: merge_or_insert_stack_def split: option.splits)
qed

lemma total_merge_leaf:
  assumes "merge_or_insert_stack (pc_items c) it = Ok (r, items)" and "is_leaf it"
  shows "window_total item_deep (c\<lparr>pc_items := items\<rparr>) = item_deep it + window_total item_deep c"
  using assms(1)
proof (cases rule: merge_or_insert_cases)
  case (merged i m)
  have "item_deep m = item_deep (ic_items (pc_items c) ! i) + item_deep it"
    using merge_stack_units [OF merged(2)] merge_stack_contents [OF merged(2)] assms(2)
    by (simp add: item_deep_def is_leaf_def ac_simps)
  with merged show ?thesis
    by (simp add: window_total_def sum_list_update_at sum_list_split_at [OF merged(1)] ac_simps)
next
  case inserted
  then show ?thesis using total_append by blast
qed

lemma take_inner_leaf: "take_inner p cid i j c = Ok (it, c1) \<Longrightarrow> window_wf cid c \<Longrightarrow> is_leaf it"
  by (auto simp: take_Ok container_take_content_Some take_content_def window_wf_def container_wf_def
      dest!: nth_mem [of i] item_wf_inside [OF _ nth_mem] split: if_splits)

lemma move_content_item_to_container_Ok:
  assumes "world_wf w" and "move_content_item_to_container p cid i j to_cid w = (Ok u, w')"
  shows "transferred item_deep p 0 w w'"
proof -
  from assms(2) obtain cs c cs1 it c1 cs2 target cs3 r items cs4 where
    g: "bt_get (w_containers w) p = Some cs"
    and b: "take_window p cid cs = Ok (c, cs1)" and d: "take_inner p cid i j c = Ok (it, c1)"
    and f: "containers_insert cs1 c1 = Ok cs2" and b': "take_window p to_cid cs2 = Ok (target, cs3)"
    and m: "merge_or_insert_stack (pc_items target) it = Ok (r, items)"
    and f': "containers_insert cs3 (target\<lparr>pc_items := items\<rparr>) = Ok cs4"
    and w': "w' = commit_containers p cs4 w"
    by (auto simp: move_content_item_to_container_def player_containers_def split: if_splits)
  from g obtain eq where e: "bt_get (w_equipments w) p = Some eq"
    using world_wf_dom(8,9) [OF assms(1)] by blast
  have wf: "equipment_wf eq" "containers_wf cs" using world_wf_get(3,4) [OF assms(1)] g e by auto
  note wb = take_window_wf [OF b wf(2)]
  note wd = take_inner_wf [OF d conjunct1 [OF wb]] and leaf = take_inner_leaf [OF d conjunct1 [OF wb]]
  note tb = total_take_window [OF b wf(2)] and td = total_take_inner [OF d conjunct1 [OF wb]]
  have cs2: "containers_wf cs2" using put_window_wf [OF f] wb wd by blast
  note wb' = take_window_wf [OF b' cs2] and tb' = total_take_window [OF b' cs2]
  have "bt_sum (window_total item_deep) cs2 = window_total item_deep c1 + bt_sum (window_total item_deep) cs1"
    by (rule total_put_window [OF f]) (simp add: tb td)
  moreover have "bt_sum (window_total item_deep) cs4 =
      window_total item_deep (target\<lparr>pc_items := items\<rparr>) + bt_sum (window_total item_deep) cs3"
    by (rule total_put_window [OF f']) (simp add: tb')
  ultimately have "stash_total item_deep eq cs4 = stash_total item_deep eq cs"
    using tb(1) [of item_deep] tb'(1) [of item_deep] td(1) total_merge_leaf [OF m leaf]
    by (simp add: stash_total_def ac_simps)
  moreover have "containers_wf cs4" using put_window_wf [OF f'] wb' merge_wf [OF m] wd by blast
  ultimately show ?thesis
    using wf by (intro transferredI [OF e g w' [unfolded commit_eq(1) [OF e]]]) simp_all
qed

text \<open>What a measure needs to survive the splitting and merging of stacks.\<close>

locale stack_measure =
  fixes mu :: "item_instance \<Rightarrow> 'a::comm_monoid_add"
  assumes split_measure: "split_off it n = Ok (rest, moved) \<Longrightarrow> mu rest + mu moved = mu it"
    and empty_measure: "stack_count it = 0 \<Longrightarrow> mu it = 0"
    and merge_measure: "merge_stack it inc = Ok m \<Longrightarrow> mu m = mu it + mu inc"
begin

lemma total_merge:
  assumes "merge_or_insert_stack (pc_items c) it = Ok (r, items)"
  shows "window_total mu (c\<lparr>pc_items := items\<rparr>) = mu it + window_total mu c"
  using assms
proof (cases rule: merge_or_insert_cases)
  case (merged i m)
  with merge_measure [OF merged(2)] show ?thesis
    by (simp add: window_total_def sum_list_update_at sum_list_split_at [OF merged(1)] ac_simps)
next
  case inserted
  then show ?thesis by (rule total_append)
qed

text \<open>Putting the rest of a stack back, or nothing when the whole stack moved.\<close>

lemma total_rest_slot:
  "bt_get eq slot = None \<Longrightarrow>
     bt_sum mu (if stack_count rest > 0 then equip slot rest eq else eq) = mu rest + bt_sum mu eq"
  by (simp add: total_equip empty_measure)

lemma total_rest_entry:
  "window_total mu (if stack_count rest > 0 then put_entry i rest c else c) = mu rest + window_total mu c"
  by (simp add: empty_measure)

lemma move_equipment_stack_to_container_Ok:
  assumes "world_wf w" and "move_equipment_stack_to_container p slot cid n w = (Ok out, w')"
  shows "transferred mu p 0 w w'"
proof -
  from assms(2) obtain eq source eq1 rest moved cs c cs1 di dn items cs2 where
    g: "bt_get (w_equipments w) p = Some eq" "bt_get (w_containers w) p = Some cs"
    and a: "take_slot p slot eq = Ok (source, eq1)" and s: "split_off source n = Ok (rest, moved)"
    and b: "take_window p cid cs = Ok (c, cs1)"
    and m: "merge_or_insert_stack (pc_items c) moved = Ok ((di, dn), items)"
    and f: "containers_insert cs1 (c\<lparr>pc_items := items\<rparr>) = Ok cs2"
    and w': "w' = commit p (if stack_count rest > 0 then equip slot rest eq1 else eq1) cs2 w"
    unfolding move_equipment_stack_to_container_def player_equipment_def player_containers_def Let_def
    by (auto simp del: split_paired_Ex)
  have wf: "equipment_wf eq" "containers_wf cs" using world_wf_get(3,4) [OF assms(1)] g by auto
  note wa = take_slot_wf [OF a wf(1)] and wb = take_window_wf [OF b wf(2)]
  note ws = split_off_wf [OF s conjunct1 [OF wa]] and tb = total_take_window [OF b wf(2)]
  let ?eq2 = "if stack_count rest > 0 then equip slot rest eq1 else eq1"
  have "bt_sum (window_total mu) cs2 = window_total mu (c\<lparr>pc_items := items\<rparr>) + bt_sum (window_total mu) cs1"
    by (rule total_put_window [OF f]) (simp add: tb)
  moreover have "bt_sum mu ?eq2 = mu rest + bt_sum mu eq1"
    using total_take_slot [OF a, of mu] by (intro total_rest_slot) simp
  ultimately have "stash_total mu ?eq2 cs2 + 0 = stash_total mu eq cs"
    using total_take_slot [OF a, of mu] tb(1) [of mu] total_merge [OF m] split_measure [OF s, symmetric]
    by (simp only: stash_total_def ac_simps add_0_left add_0_right)
  moreover have "containers_wf cs2" using put_window_wf [OF f] wb ws merge_wf [OF m] by blast
  moreover have "equipment_wf ?eq2" using wa ws by (simp add: equip_wf)
  ultimately show ?thesis by (intro transferredI [OF g w'])
qed

lemma move_container_stack_to_equipment_Ok:
  assumes "world_wf w" and "move_container_stack_to_equipment p cid i slot n w = (Ok out, w')"
  shows "transferred mu p 0 w w'"
proof -
  from assms(2) obtain eq cs c cs1 source c1 rest moved dn eq1 cs2 where
    g: "bt_get (w_equipments w) p = Some eq" "bt_get (w_containers w) p = Some cs"
    and b: "take_window p cid cs = Ok (c, cs1)" and d: "take_entry p cid i c = Ok (source, c1)"
    and s: "split_off source n = Ok (rest, moved)"
    and q: "(case bt_get eq slot of
                  Some destination \<Rightarrow> rbind (merge_stack destination moved) (\<lambda>m. Ok (stack_count m, equip slot m eq))
                | None \<Rightarrow> Ok (stack_count moved, equip slot moved eq)) = Ok (dn, eq1)"
    and f: "containers_insert cs1 (if stack_count rest > 0 then put_entry i rest c1 else c1) = Ok cs2"
    and w': "w' = commit p eq1 cs2 w"
    unfolding move_container_stack_to_equipment_def player_equipment_def player_containers_def Let_def
    by (auto simp del: split_paired_Ex)
  have wf: "equipment_wf eq" "containers_wf cs" using world_wf_get(3,4) [OF assms(1)] g by auto
  note wb = take_window_wf [OF b wf(2)]
  note wd = take_entry_wf [OF d conjunct1 [OF wb]]
  note ws = split_off_wf [OF s wd(1)] and tb = total_take_window [OF b wf(2)] and td = total_take_entry [OF d]
  have eq1: "bt_sum mu eq1 = mu moved + bt_sum mu eq \<and> equipment_wf eq1"
  proof (cases "bt_get eq slot")
    case None
    with q ws wf(1) show ?thesis by (auto simp: total_equip equip_wf)
  next
    case (Some x)
    with q obtain m where m: "merge_stack x moved = Ok m" and e: "eq1 = bt_insert slot m eq"
      by (auto simp: equip_def)
    have "item_wf x" using Some wf(1) by (simp add: equipment_wf_def)
    with merge_stack_wf [OF m] conjunct1 [OF ws] wf(1) e have "equipment_wf eq1" by (simp add: equipment_wf_insert)
    with merge_measure [OF m] Some e show ?thesis
      by (simp add: bt_sum_insert_removed bt_sum_remove [OF Some] ac_simps)
  qed
  have "pc_id (if stack_count rest > 0 then put_entry i rest c1 else c1) = cid" using tb td by simp
  then have "bt_sum (window_total mu) cs2 = mu rest + window_total mu c1 + bt_sum (window_total mu) cs1"
    using total_put_window [OF f, of mu] tb(2) total_rest_entry by simp
  then have "stash_total mu eq1 cs2 + 0 = stash_total mu eq cs"
    using tb(1) [of mu] td(1) [of mu] eq1 split_measure [OF s, symmetric]
    by (simp only: stash_total_def ac_simps add_0_left add_0_right)
  moreover have "containers_wf cs2"
    by (rule put_window_wf [OF f, of cid]) (use wb wd ws in auto)
  ultimately show ?thesis using eq1 by (intro transferredI [OF g w']) simp_all
qed

lemma move_container_stack_to_container_Ok:
  assumes "world_wf w" and "move_container_stack_to_container p from_cid i to_cid n w = (Ok out, w')"
  shows "transferred mu p 0 w w'"
proof -
  from assms(2) obtain cs c cs1 target cs2 stack c1 rest moved di dn items cs3 cs4 where
    g: "bt_get (w_containers w) p = Some cs" and ne: "from_cid \<noteq> to_cid"
    and b: "take_window p from_cid cs = Ok (c, cs1)" and b': "take_window p to_cid cs1 = Ok (target, cs2)"
    and d: "take_entry p from_cid i c = Ok (stack, c1)" and s: "split_off stack n = Ok (rest, moved)"
    and m: "merge_or_insert_stack (pc_items target) moved = Ok ((di, dn), items)"
    and f: "containers_insert cs2 (if stack_count rest > 0 then put_entry i rest c1 else c1) = Ok cs3"
    and f': "containers_insert cs3 (target\<lparr>pc_items := items\<rparr>) = Ok cs4"
    and w': "w' = commit_containers p cs4 w"
    unfolding move_container_stack_to_container_def player_containers_def Let_def
    by (auto simp del: split_paired_Ex split: if_split_asm)
  from g obtain eq where e: "bt_get (w_equipments w) p = Some eq"
    using world_wf_dom(8,9) [OF assms(1)] by blast
  have wf: "equipment_wf eq" "containers_wf cs" using world_wf_get(3,4) [OF assms(1)] g e by auto
  note wb = take_window_wf [OF b wf(2)] and tb = total_take_window [OF b wf(2)]
  note wb' = take_window_wf [OF b' conjunct2 [OF wb]] and tb' = total_take_window [OF b' conjunct2 [OF wb]]
  note wd = take_entry_wf [OF d conjunct1 [OF wb]] and td = total_take_entry [OF d]
  note ws = split_off_wf [OF s wd(1)]
  let ?c2 = "if stack_count rest > 0 then put_entry i rest c1 else c1"
  have id: "pc_id ?c2 = from_cid" using tb td by simp
  have cs3: "containers_wf cs3"
    by (rule put_window_wf [OF f, of from_cid]) (use wb wb' wd ws in auto)
  have free: "bt_get cs2 from_cid = None" "bt_get cs3 to_cid = None"
    using b b' f id ne by (auto simp: take_Ok containers_insert_Ok bt_get_remove bt_get_insert)
  have "bt_sum (window_total mu) cs3 = mu rest + window_total mu c1 + bt_sum (window_total mu) cs2"
    using total_put_window [OF f, of mu] free(1) id total_rest_entry by simp
  moreover have "bt_sum (window_total mu) cs4 =
      window_total mu (target\<lparr>pc_items := items\<rparr>) + bt_sum (window_total mu) cs3"
    by (rule total_put_window [OF f']) (simp add: tb' free)
  ultimately have "stash_total mu eq cs4 + 0 = stash_total mu eq cs"
    using tb(1) [of mu] tb'(1) [of mu] td(1) [of mu] total_merge [OF m] split_measure [OF s, symmetric]
    by (simp only: stash_total_def ac_simps add_0_left add_0_right)
  moreover have "containers_wf cs4"
    by (rule put_window_wf [OF f' cs3, of to_cid]) (rule merge_wf [OF m conjunct1 [OF wb'] conjunct1 [OF ws]])
  ultimately show ?thesis
    using wf by (intro transferredI [OF e g w' [unfolded commit_eq(1) [OF e]]]) simp_all
qed

text \<open>A drop takes exactly what it hands to the caller, from a slot or from an entry.\<close>

lemma take_player_stack_for_ground_drop_Ok:
  assumes "world_wf w" and "take_player_stack_for_ground_drop p src n w = (Ok out, w')"
    and "\<forall>cid i j. src \<noteq> Drop_Content cid i j"
  shows "transferred mu p (mu (gd_moved out)) w w'"
proof (cases src)
  case (Drop_Slot slot)
  with assms(2) obtain eq cs stack eq1 rest where
    g: "bt_get (w_equipments w) p = Some eq" "bt_get (w_containers w) p = Some cs"
    and a: "take_slot p slot eq = Ok (stack, eq1)" and s: "split_off stack n = Ok (rest, gd_moved out)"
    and w': "w' = commit p (if stack_count rest > 0 then equip slot rest eq1 else eq1) cs w"
    unfolding take_player_stack_for_ground_drop_def player_equipment_def player_containers_def take_drop_def
    by (auto simp del: split_paired_Ex)
  have wf: "equipment_wf eq" "containers_wf cs" using world_wf_get(3,4) [OF assms(1)] g by auto
  note wa = take_slot_wf [OF a wf(1)]
  note ws = split_off_wf [OF s conjunct1 [OF wa]]
  let ?eq2 = "if stack_count rest > 0 then equip slot rest eq1 else eq1"
  have "bt_sum mu ?eq2 = mu rest + bt_sum mu eq1"
    using total_take_slot [OF a, of mu] by (intro total_rest_slot) simp
  then have "stash_total mu ?eq2 cs + mu (gd_moved out) = stash_total mu eq cs"
    using total_take_slot [OF a, of mu] split_measure [OF s, symmetric]
    by (simp only: stash_total_def ac_simps)
  moreover have "equipment_wf ?eq2" using wa ws by (simp add: equip_wf)
  ultimately show ?thesis using wf by (intro transferredI [OF g w'])
next
  case (Drop_Entry cid i)
  with assms(2) obtain eq cs c cs1 stack c1 rest cs2 where
    g: "bt_get (w_equipments w) p = Some eq" "bt_get (w_containers w) p = Some cs"
    and b: "take_window p cid cs = Ok (c, cs1)" and d: "take_entry p cid i c = Ok (stack, c1)"
    and s: "split_off stack n = Ok (rest, gd_moved out)"
    and f: "containers_insert cs1 (if stack_count rest > 0 then put_entry i rest c1 else c1) = Ok cs2"
    and w': "w' = commit_containers p cs2 w"
    unfolding take_player_stack_for_ground_drop_def player_equipment_def player_containers_def take_drop_def
    by (auto simp del: split_paired_Ex)
  have wf: "equipment_wf eq" "containers_wf cs" using world_wf_get(3,4) [OF assms(1)] g by auto
  note wb = take_window_wf [OF b wf(2)] and tb = total_take_window [OF b wf(2)]
  note wd = take_entry_wf [OF d conjunct1 [OF wb]] and td = total_take_entry [OF d]
  note ws = split_off_wf [OF s wd(1)]
  have "pc_id (if stack_count rest > 0 then put_entry i rest c1 else c1) = cid" using tb td by simp
  then have "bt_sum (window_total mu) cs2 = mu rest + window_total mu c1 + bt_sum (window_total mu) cs1"
    using total_put_window [OF f, of mu] tb(2) total_rest_entry by simp
  then have "stash_total mu eq cs2 + mu (gd_moved out) = stash_total mu eq cs"
    using tb(1) [of mu] td(1) [of mu] split_measure [OF s, symmetric]
    by (simp only: stash_total_def ac_simps)
  moreover have "containers_wf cs2"
    by (rule put_window_wf [OF f, of cid]) (use wb wd ws in auto)
  ultimately show ?thesis
    using wf by (intro transferredI [OF g w' [unfolded commit_eq(1) [OF g(1)]]])
next
  case (Drop_Content cid i j)
  with assms(3) show ?thesis by simp
qed

end

interpretation units: stack_measure item_units
proof unfold_locales
  show "split_off it n = Ok (rest, moved) \<Longrightarrow> item_units rest + item_units moved = item_units it" for it n rest moved
    by (rule split_off_units)
  show "stack_count it = 0 \<Longrightarrow> item_units it = {#}" for it by (simp add: item_units_def)
  show "merge_stack it inc = Ok m \<Longrightarrow> item_units m = item_units it + item_units inc" for it inc m
    by (rule merge_stack_units)
qed

section \<open>Single units leave the player\<close>

lemma item_units_dec: "0 < stack_count it \<Longrightarrow>
    item_units it = add_mset (label it) (item_units (with_count (stack_count it - 1) it))"
  by (cases "stack_count it") (simp_all add: item_units_def label_def)

lemma consume_player_equipment_item_unit_Ok:
  assumes "world_wf w" and "consume_player_equipment_item_unit p slot w = (Ok consumed, w')"
  shows "consumed \<Longrightarrow> \<exists>it. transferred item_units p {#label it#} w w'"
    and "\<not> consumed \<Longrightarrow> w' = w"
proof -
  from assms(2) obtain eq where g: "bt_get (w_equipments w) p = Some eq"
    by (auto simp: consume_player_equipment_item_unit_def player_equipment_def)
  then obtain cs where cs: "bt_get (w_containers w) p = Some cs"
    using world_wf_dom(8,9) [OF assms(1)] by blast
  have wf: "equipment_wf eq" "containers_wf cs" using world_wf_get(3,4) [OF assms(1)] g cs by auto
  show "w' = w" if "\<not> consumed"
    using assms(2) g that
    by (auto simp: consume_player_equipment_item_unit_def player_equipment_def split: option.splits)
  assume consumed
  with assms(2) g obtain it where it: "bt_get eq slot = Some it" and w': "w' = commit_equipment p
      (if stack_count it > 1 then bt_insert slot (with_count (stack_count it - 1) it) eq
       else bt_remove slot eq) w"
    by (auto simp: consume_player_equipment_item_unit_def player_equipment_def split: option.splits)
  have i: "item_wf it" using it wf(1) by (simp add: equipment_wf_def)
  then have u: "item_units it = add_mset (label it) (item_units (with_count (stack_count it - 1) it))"
    by (intro item_units_dec) (simp add: item_wf_iff)
  have z: "item_units (with_count (stack_count it - 1) it) = {#}" if "\<not> stack_count it > 1"
    using that by (simp add: item_units_def)
  have "transferred item_units p {#label it#} w w'"
  proof (rule transferredI [OF g cs w' [unfolded commit_eq(2) [OF cs]]])
    show "equipment_wf (if stack_count it > 1 then bt_insert slot (with_count (stack_count it - 1) it) eq
        else bt_remove slot eq)"
      using wf(1) i by (simp add: equipment_wf_insert equipment_wf_remove item_wf_dec)
    show "stash_total item_units (if stack_count it > 1
          then bt_insert slot (with_count (stack_count it - 1) it) eq else bt_remove slot eq) cs
        + {#label it#} = stash_total item_units eq cs"
      using bt_sum_remove [OF it, of item_units] u z
      by (simp add: stash_total_def bt_sum_insert_removed)
  qed (rule wf(2))
  then show "\<exists>it. transferred item_units p {#label it#} w w'" ..
qed

lemma consume_item_unit_index: "consume_item_unit c i = (True, items) \<Longrightarrow> i < length (ic_items c)"
  by (auto simp: consume_item_unit_def nth_opt_def split: option.splits if_splits)

lemma consume_player_container_item_unit_Ok:
  assumes "world_wf w" and "consume_player_container_item_unit p cid i w = (Ok consumed, w')"
  shows "consumed \<Longrightarrow> \<exists>it. transferred item_units p {#label it#} w w'"
    and "\<not> consumed \<Longrightarrow> w' = w"
proof -
  from assms(2) obtain cs c cs1 where g: "bt_get (w_containers w) p = Some cs"
    and b: "take_window p cid cs = Ok (c, cs1)"
    by (auto simp: consume_player_container_item_unit_def player_containers_def)
  then obtain eq where e: "bt_get (w_equipments w) p = Some eq"
    using world_wf_dom(8,9) [OF assms(1)] by blast
  have wf: "equipment_wf eq" "containers_wf cs" using world_wf_get(3,4) [OF assms(1)] g e by auto
  note wb = take_window_wf [OF b wf(2)] and tb = total_take_window [OF b wf(2)]
  obtain r items where c: "consume_item_unit (pc_items c) i = (r, items)" by fastforce
  show "w' = w" if "\<not> consumed"
    using assms(2) g b c that
    by (auto simp: consume_player_container_item_unit_def player_containers_def split: if_splits)
  assume consumed
  with assms(2) g b c obtain cs2 where r: r and w': "w' = commit_containers p cs2 w"
    and f: "containers_insert cs1 (c\<lparr>pc_items := items\<rparr>) = Ok cs2"
    by (auto simp: consume_player_container_item_unit_def player_containers_def split: if_splits)
  have wc: "container_wf (pc_items c)" using wb by (simp add: window_wf_def)
  have "window_wf cid (c\<lparr>pc_items := items\<rparr>)"
    using wb consume_item_unit_wf [OF wc, of i] c by (simp add: window_wf_def)
  then have cs2: "containers_wf cs2" using put_window_wf [OF f] wb by blast
  have "bt_sum (window_total item_units) cs2 =
      window_total item_units (c\<lparr>pc_items := items\<rparr>) + bt_sum (window_total item_units) cs1"
    by (rule total_put_window [OF f]) (simp add: tb)
  moreover have "window_total item_units c =
      add_mset (label (ic_items (pc_items c) ! i)) (window_total item_units (c\<lparr>pc_items := items\<rparr>))"
    using consume_item_unit_units [of "pc_items c" i] consume_item_unit_index [of "pc_items c" i items] c r wc
    by (simp add: window_total_def items_units_def)
  ultimately have "stash_total item_units eq cs2 + {#label (ic_items (pc_items c) ! i)#} =
      stash_total item_units eq cs"
    using tb(1) [of item_units] by (simp add: stash_total_def)
  then show "\<exists>it. transferred item_units p {#label it#} w w'"
    using wf(1) cs2 transferredI [OF e g w' [unfolded commit_eq(1) [OF e]]] by blast
qed

section \<open>Dropping nested contents\<close>

text \<open>The whole nested stack leaves the player, whatever count the caller asked for; what is handed
  out holds only the count asked for.\<close>

lemma take_player_content_for_ground_drop_Ok:
  assumes "world_wf w" and "take_player_stack_for_ground_drop p (Drop_Content cid i j) n w = (Ok out, w')"
  shows "\<exists>stack rest. split_off stack n = Ok (rest, gd_moved out) \<and>
    transferred item_deep p (item_deep stack) w w' \<and> gd_source_remaining out = None"
proof -
  from assms(2) obtain eq cs c cs1 stack c1 rest cs2 where
    g: "bt_get (w_equipments w) p = Some eq" "bt_get (w_containers w) p = Some cs"
    and b: "take_window p cid cs = Ok (c, cs1)" and d: "take_inner p cid i j c = Ok (stack, c1)"
    and s: "split_off stack n = Ok (rest, gd_moved out)" and f: "containers_insert cs1 c1 = Ok cs2"
    and r: "gd_source_remaining out = None" and w': "w' = commit_containers p cs2 w"
    unfolding take_player_stack_for_ground_drop_def player_equipment_def player_containers_def take_drop_def
    by (auto simp del: split_paired_Ex)
  have wf: "equipment_wf eq" "containers_wf cs" using world_wf_get(3,4) [OF assms(1)] g by auto
  note wb = take_window_wf [OF b wf(2)] and tb = total_take_window [OF b wf(2)]
  note wd = take_inner_wf [OF d conjunct1 [OF wb]] and td = total_take_inner [OF d conjunct1 [OF wb]]
  have "bt_sum (window_total item_deep) cs2 = window_total item_deep c1 + bt_sum (window_total item_deep) cs1"
    by (rule total_put_window [OF f]) (simp add: tb td)
  then have "stash_total item_deep eq cs2 + item_deep stack = stash_total item_deep eq cs"
    using tb(1) [of item_deep] td(1) by (simp add: stash_total_def ac_simps)
  moreover have "containers_wf cs2" using put_window_wf [OF f] wb wd by blast
  ultimately have "transferred item_deep p (item_deep stack) w w'"
    using wf by (intro transferredI [OF g w' [unfolded commit_eq(1) [OF g(1)]]])
  with s r show ?thesis by blast
qed

section \<open>Well-formedness of every transfer\<close>

lemma clean_wf:
  "clean w r \<Longrightarrow> world_wf w \<Longrightarrow> (\<And>out w'. r = (Ok out, w') \<Longrightarrow> world_wf w') \<Longrightarrow> world_wf (snd r)"
  by (cases r; cases "fst r") (auto simp: clean_def)

lemma put_back_wf:
  assumes "world_wf w" and "player_containers w p = Ok cs" and "take_window p cid cs = Ok (source, cs1)"
    and "take_inner p cid i j source = Ok (moved, source1)" and "containers_insert cs1 source1 = Ok cs2"
    and "take_window p to_cid cs2 = Ok (target, cs3)" and "containers_insert cs3 target = Ok cs4"
  shows "world_wf (w\<lparr>w_containers := bt_insert p cs4 (w_containers w)\<rparr>)"
proof -
  have cs: "containers_wf cs" "p \<in> registered w"
    using world_wf_get(4) [OF assms(1)] assms(2)
    by (auto simp: player_containers_def)
  note a = take_window_wf [OF assms(3) cs(1)]
  have "containers_wf cs2" using put_window_wf [OF assms(5)] a take_inner_wf [OF assms(4)] by blast
  from put_window_wf [OF assms(7)] take_window_wf [OF assms(6) this] have "containers_wf cs4" by blast
  with assms(1) cs(2) show ?thesis by (simp add: world_simps)
qed

lemma move_content_item_to_container_wf:
  assumes w: "world_wf w"
  shows "world_wf (snd (move_content_item_to_container p cid i j to_cid w))"
proof (cases "move_content_item_to_container p cid i j to_cid w")
  case (Pair r w')
  show ?thesis
  proof (cases r)
    case (Inr u)
    with Pair transferred_wf [OF move_content_item_to_container_Ok [OF w] w] show ?thesis by simp
  next
    case (Inl e)
    with Pair have "move_content_item_to_container p cid i j to_cid w = (Inl e, w')" by simp
    then have "w' = w \<or> world_wf w'"
      unfolding move_content_item_to_container_def
      by (auto split: if_splits intro: put_back_wf [OF w])
    with Pair w show ?thesis by auto
  qed
qed

lemma transfers_wf:
  assumes "world_wf w"
  shows "world_wf (snd (move_equipment_item_to_container p slot cid w))"
    and "world_wf (snd (move_container_item_to_equipment p cid i slot w))"
    and "world_wf (snd (move_content_item_to_equipment p cid i j slot w))"
    and "world_wf (snd (swap_container_item_with_equipment p cid i slot w))"
    and "world_wf (snd (swap_equipment_items p a b w))"
    and "world_wf (snd (consume_player_equipment_item_unit p slot w))"
    and "world_wf (snd (consume_player_container_item_unit p cid i w))"
    and "world_wf (snd (move_equipment_stack_to_container p slot cid n w))"
    and "world_wf (snd (move_container_stack_to_equipment p cid i slot n w))"
    and "world_wf (snd (move_container_stack_to_container p from_cid i to_cid n w))"
    and "world_wf (snd (take_player_stack_for_ground_drop p src n w))"
proof -
  note t = transferred_wf [OF _ assms]
  note r = clean_wf [OF _ assms]
  have c: "world_wf w'"
    if "consumed \<Longrightarrow> \<exists>it. transferred item_units p {#label it#} w w'" and "\<not> consumed \<Longrightarrow> w' = w"
    for consumed p w'
    using that assms by (cases consumed) (auto intro: t)
  show "world_wf (snd (move_equipment_item_to_container p slot cid w))"
    by (rule r [OF transfers_clean(1)]) (rule t [OF move_equipment_item_to_container_Ok [OF assms]])
  show "world_wf (snd (move_container_item_to_equipment p cid i slot w))"
    by (rule r [OF transfers_clean(2)]) (rule t [OF move_container_item_to_equipment_Ok [OF assms]])
  show "world_wf (snd (move_content_item_to_equipment p cid i j slot w))"
    by (rule r [OF transfers_clean(3)]) (rule t [OF move_content_item_to_equipment_Ok [OF assms]])
  show "world_wf (snd (swap_container_item_with_equipment p cid i slot w))"
    by (rule r [OF transfers_clean(4)]) (rule t [OF swap_container_item_with_equipment_Ok [OF assms]])
  show "world_wf (snd (swap_equipment_items p a b w))"
    by (rule r [OF transfers_clean(5)]) (rule t [OF swap_equipment_items_Ok(1) [OF assms]])
  show "world_wf (snd (consume_player_equipment_item_unit p slot w))"
    by (rule r [OF transfers_clean(6)])
      (rule c [OF consume_player_equipment_item_unit_Ok [OF assms]])
  show "world_wf (snd (consume_player_container_item_unit p cid i w))"
    by (rule r [OF transfers_clean(7)])
      (rule c [OF consume_player_container_item_unit_Ok [OF assms]])
  show "world_wf (snd (move_equipment_stack_to_container p slot cid n w))"
    by (rule r [OF transfers_clean(8)]) (rule t [OF units.move_equipment_stack_to_container_Ok [OF assms]])
  show "world_wf (snd (move_container_stack_to_equipment p cid i slot n w))"
    by (rule r [OF transfers_clean(9)]) (rule t [OF units.move_container_stack_to_equipment_Ok [OF assms]])
  show "world_wf (snd (move_container_stack_to_container p from_cid i to_cid n w))"
    by (rule r [OF transfers_clean(10)]) (rule t [OF units.move_container_stack_to_container_Ok [OF assms]])
  show "world_wf (snd (take_player_stack_for_ground_drop p src n w))"
  proof (rule r [OF transfers_clean(11)])
    fix out w' assume o: "take_player_stack_for_ground_drop p src n w = (Ok out, w')"
    show "world_wf w'"
    proof (cases src)
      case (Drop_Content cid i j)
      with o take_player_content_for_ground_drop_Ok [OF assms] t show ?thesis by metis
    qed (use o t [OF units.take_player_stack_for_ground_drop_Ok [OF assms o]] in simp_all)
  qed
qed

end
