(* ===== verification/Generic_Move.thy ===== *)
theory Generic_Move
  imports Transfers
begin

text \<open>
  The generic inventory move (\<open>execute_generic_inventory_move\<close> and \<open>restore_moved_item\<close> of
  \<open>crates/forgotten-core/src/lib.rs\<close>): detach an item or a part of a stack from a slot or a window,
  then place it. The accounting lemma names the one case in which units disappear.
\<close>

section \<open>Plans and outcomes\<close>

datatype move_source = From_Slot equipment_slot | From_Entry nat nat

datatype move_target = To_Slot equipment_slot bool | To_Window nat

record move_plan =
  mp_source :: move_source
  mp_count :: "nat option"
  mp_target :: move_target

datatype placement = Placed | Merged_Or_Inserted | Swapped item_instance

record move_outcome =
  mo_player :: nat
  mo_moved :: item_instance
  mo_placement :: placement
  mo_remaining :: nat

section \<open>Detaching\<close>

definition requested :: "nat option \<Rightarrow> item_instance \<Rightarrow> nat" where
  "requested n it = (case n of None \<Rightarrow> stack_count it | Some k \<Rightarrow> k)"

definition check_take :: "nat \<Rightarrow> item_instance \<Rightarrow> unit result" where
  "check_take k it =
     (if k = 0 \<or> k > stack_count it
      then Inl (item_fault (InvalidItemTransferCount k (stack_count it))) else Ok ())"

definition detach ::
  "nat \<Rightarrow> move_source \<Rightarrow> nat option \<Rightarrow> player_equipment \<Rightarrow> player_containers \<Rightarrow>
     (item_instance \<times> nat \<times> player_equipment \<times> player_containers) result" where
  "detach p source n eq cs =
     (case source of
        From_Slot slot \<Rightarrow>
          rbind (ok_or (bt_get eq slot) (item_fault (EmptyEquipmentSlot p slot))) (\<lambda>it.
            let k = requested n it in
            rbind (check_take k it) (\<lambda>_.
            if k = stack_count it
            then Ok (it, stack_count it - k, bt_remove slot eq, cs)
            else rbind (split_off it k) (\<lambda>(whole, split).
              Ok (split, stack_count it - k, bt_insert slot whole eq, cs))))
      | From_Entry cid i \<Rightarrow>
          rbind (ok_or (bt_get cs cid) (item_fault (UnknownPlayerContainer p cid))) (\<lambda>c.
          rbind (ok_or (nth_opt (ic_items (pc_items c)) i) (item_fault (UnknownPlayerContainerItem p cid i))) (\<lambda>it.
            let k = requested n it in
            rbind (check_take k it) (\<lambda>_.
            if k = stack_count it
            then rbind (ok_or (container_remove (pc_items c) i) (item_fault (UnknownPlayerContainerItem p cid i)))
              (\<lambda>(moved, items).
                Ok (moved, stack_count it - k, eq, bt_insert cid (c\<lparr>pc_items := items\<rparr>) cs))
            else rbind (split_off it k) (\<lambda>(whole, split).
              Ok (split, stack_count it - k, eq,
                  bt_insert cid (c\<lparr>pc_items := (pc_items c)\<lparr>ic_items := (ic_items (pc_items c))[i := whole]\<rparr>\<rparr>) cs))))))"

section \<open>Placing\<close>

definition restore_moved_item ::
  "nat \<Rightarrow> player_equipment \<Rightarrow> player_containers \<Rightarrow> move_source \<Rightarrow> item_instance \<Rightarrow>
     (player_equipment \<times> player_containers) result" where
  "restore_moved_item p eq cs source it =
     (case source of
        From_Slot slot \<Rightarrow> Ok (equip slot it eq, cs)
      | From_Entry cid _ \<Rightarrow>
          rbind (ok_or (bt_get cs cid) (item_fault (UnknownPlayerContainer p cid))) (\<lambda>c.
          rbind (container_insert (pc_items c) it) (\<lambda>items.
            Ok (eq, bt_insert cid (c\<lparr>pc_items := items\<rparr>) cs))))"

text \<open>The displaced item goes back to a window source only.\<close>

definition return_displaced ::
  "move_source \<Rightarrow> item_instance \<Rightarrow> player_containers \<Rightarrow> player_containers result" where
  "return_displaced source current cs =
     (case source of
        From_Slot _ \<Rightarrow> Ok cs
      | From_Entry cid _ \<Rightarrow>
          (case bt_get cs cid of
             None \<Rightarrow> Ok cs
           | Some c \<Rightarrow> rbind (container_insert (pc_items c) current) (\<lambda>items.
               Ok (bt_insert cid (c\<lparr>pc_items := items\<rparr>) cs))))"

definition place ::
  "nat \<Rightarrow> move_source \<Rightarrow> move_target \<Rightarrow> item_instance \<Rightarrow> player_equipment \<Rightarrow> player_containers \<Rightarrow>
     (placement \<times> player_equipment \<times> player_containers) result" where
  "place p source target it eq cs =
     (case target of
        To_Slot slot allow_swap \<Rightarrow>
          (case bt_get eq slot of
             None \<Rightarrow> Ok (Placed, equip slot it eq, cs)
           | Some current \<Rightarrow>
               if allow_swap \<and> source \<noteq> From_Slot slot
               then rbind (return_displaced source current cs) (\<lambda>cs1.
                 Ok (Swapped current, equip slot it eq, cs1))
               else rbind (restore_moved_item p eq cs source it) (\<lambda>_.
                 Inl (item_fault (OccupiedEquipmentSlot p slot))))
      | To_Window cid \<Rightarrow>
          (case bt_get cs cid of
             None \<Rightarrow> rbind (restore_moved_item p eq cs source it) (\<lambda>_.
               Inl (item_fault (UnknownPlayerContainer p cid)))
           | Some c \<Rightarrow>
               (case merge_or_insert_stack (pc_items c) it of
                  Inr (_, items) \<Rightarrow> Ok (Merged_Or_Inserted, eq, bt_insert cid (c\<lparr>pc_items := items\<rparr>) cs)
                | Inl e \<Rightarrow> rbind (restore_moved_item p eq cs source it) (\<lambda>_. Inl e))))"

definition same_slot :: "move_source \<Rightarrow> move_target \<Rightarrow> equipment_slot option" where
  "same_slot source target =
     (case (source, target) of
        (From_Slot a, To_Slot b _) \<Rightarrow> if a = b then Some a else None
      | _ \<Rightarrow> None)"

definition execute_generic_inventory_move :: "nat \<Rightarrow> move_plan \<Rightarrow> move_outcome action" where
  "execute_generic_inventory_move p plan w =
     attempt w (require_player p w) (\<lambda>_.
       case same_slot (mp_source plan) (mp_target plan) of
         Some slot \<Rightarrow> (Inl (item_fault (SameEquipmentSlotTransfer p slot)), w)
       | None \<Rightarrow>
           attempt w (player_equipment w p) (\<lambda>eq.
           attempt w (player_containers w p) (\<lambda>cs.
           attempt w (detach p (mp_source plan) (mp_count plan) eq cs) (\<lambda>(it, remaining, eq1, cs1).
           attempt w (place p (mp_source plan) (mp_target plan) it eq1 cs1) (\<lambda>(placement, eq2, cs2).
             (Ok \<lparr>mo_player = p, mo_moved = it, mo_placement = placement, mo_remaining = remaining\<rparr>,
              commit p eq2 cs2 w))))))"

section \<open>Accounting\<close>

text \<open>What a placement drops: the displaced item of a move from slot to slot.\<close>

definition dropped :: "(item_instance \<Rightarrow> 'a::zero) \<Rightarrow> move_source \<Rightarrow> placement \<Rightarrow> 'a" where
  "dropped mu source pl =
     (case (source, pl) of (From_Slot _, Swapped it) \<Rightarrow> mu it | _ \<Rightarrow> 0)"

lemma total_replace_slot:
  "bt_get eq slot = Some x \<Longrightarrow> bt_sum mu (bt_insert slot y eq) + mu x = mu y + bt_sum mu eq"
  by (simp add: bt_sum_insert_removed bt_sum_remove [of eq slot x] ac_simps)

lemma total_replace_window:
  "bt_get cs cid = Some c \<Longrightarrow>
     bt_sum (window_total mu) (bt_insert cid c' cs) = window_total mu c' + bt_sum (window_total mu) (bt_remove cid cs)"
  "bt_get cs cid = Some c \<Longrightarrow>
     bt_sum (window_total mu) cs = window_total mu c + bt_sum (window_total mu) (bt_remove cid cs)"
  by (simp_all add: bt_sum_insert_removed bt_sum_remove)

lemma window_items_wf: "window_wf cid c \<Longrightarrow> container_wf items \<Longrightarrow> window_wf cid (c\<lparr>pc_items := items\<rparr>)"
  by (simp add: window_wf_def)

lemma check_take_Ok [simp]: "check_take n it = Ok u \<longleftrightarrow> 0 < n \<and> n \<le> stack_count it"
  by (auto simp: check_take_def)

lemma detach_wf:
  assumes "detach p source n eq cs = Ok (it, k, eq1, cs1)" and "equipment_wf eq" and "containers_wf cs"
  shows "item_wf it \<and> equipment_wf eq1 \<and> containers_wf cs1"
proof (cases source)
  case (From_Slot slot)
  with assms(1) obtain x where x: "bt_get eq slot = Some x" by (auto simp: detach_def)
  then have "item_wf x" using assms(2) by (simp add: equipment_wf_def)
  with From_Slot x assms show ?thesis
    by (auto simp: detach_def Let_def equipment_wf_remove split_off_Ok item_wf_with_count item_wf_iff
        intro!: equipment_wf_insert split: if_splits)
next
  case (From_Entry cid i)
  with assms(1) obtain c where c: "bt_get cs cid = Some c" and i: "i < length (ic_items (pc_items c))"
    by (auto simp: detach_def Let_def)
  have w: "window_wf cid c" by (rule containers_wf_get [OF assms(3) c])
  then have cw: "container_wf (pc_items c)" by (simp add: window_wf_def)
  let ?x = "ic_items (pc_items c) ! i"
  have x: "item_wf ?x" by (rule container_wf_nth [OF cw i])
  show ?thesis
  proof (cases "requested n ?x = stack_count ?x")
    case True
    with From_Entry c i assms(1) obtain items where r: "container_remove (pc_items c) i = Some (it, items)"
      and o: "eq1 = eq" "cs1 = bt_insert cid (c\<lparr>pc_items := items\<rparr>) cs"
      by (auto simp: detach_def Let_def)
    from container_remove_wf [OF r cw] show ?thesis
      using o assms(2) containers_wf_update [OF assms(3) c window_items_wf [OF w]] by simp
  next
    case False
    with From_Entry c i assms(1) obtain whole where s: "split_off ?x (requested n ?x) = Ok (whole, it)"
      and o: "eq1 = eq"
        "cs1 = bt_insert cid (c\<lparr>pc_items := (pc_items c)\<lparr>ic_items := (ic_items (pc_items c))[i := whole]\<rparr>\<rparr>) cs"
      and t: "requested n ?x < stack_count ?x"
      by (auto simp: detach_def Let_def)
    have "item_wf it" "item_wf whole" using split_off_wf [OF s x] s t by (auto simp: split_off_Ok)
    then show ?thesis
      using o assms(2) containers_wf_update [OF assms(3) c window_items_wf [OF w container_wf_update]] cw i by simp
  qed
qed

lemma place_Ok:
  assumes "place p source target it eq cs = Ok (pl, eq1, cs1)"
  obtains (empty) slot sw where "target = To_Slot slot sw" and "bt_get eq slot = None"
      and "pl = Placed" and "eq1 = equip slot it eq" and "cs1 = cs"
    | (swap) slot x where "target = To_Slot slot True" and "bt_get eq slot = Some x" and "pl = Swapped x"
      and "eq1 = bt_insert slot it eq" and "return_displaced source x cs = Ok cs1"
    | (window) cid c r items where "target = To_Window cid" and "bt_get cs cid = Some c"
      and "merge_or_insert_stack (pc_items c) it = Ok (r, items)" and "pl = Merged_Or_Inserted"
      and "eq1 = eq" and "cs1 = bt_insert cid (c\<lparr>pc_items := items\<rparr>) cs"
proof (cases target)
  case (To_Slot slot sw)
  show ?thesis
  proof (cases "bt_get eq slot")
    case None
    with assms To_Slot show ?thesis by (intro empty [OF To_Slot None]) (auto simp: place_def)
  next
    case (Some x)
    with assms To_Slot show ?thesis
      by (intro swap [of slot x]) (auto simp: place_def equip_def split: if_splits)
  qed
next
  case (To_Window cid)
  with assms obtain c r items where "bt_get cs cid = Some c"
    "merge_or_insert_stack (pc_items c) it = Ok (r, items)" "pl = Merged_Or_Inserted" "eq1 = eq"
    "cs1 = bt_insert cid (c\<lparr>pc_items := items\<rparr>) cs"
    by (auto simp: place_def split: option.splits sum.splits)
  from window [OF To_Window this] show ?thesis .
qed

lemma return_displaced_wf:
  assumes "return_displaced source x cs = Ok cs1" and "containers_wf cs" and "item_wf x"
  shows "containers_wf cs1"
proof (cases source)
  case (From_Entry cid i)
  show ?thesis
  proof (cases "bt_get cs cid")
    case (Some c)
    with From_Entry assms(1) obtain items where i: "container_insert (pc_items c) x = Ok items"
      and cs1: "cs1 = bt_insert cid (c\<lparr>pc_items := items\<rparr>) cs"
      by (auto simp: return_displaced_def)
    have w: "window_wf cid c" by (rule containers_wf_get [OF assms(2) Some])
    from containers_wf_update [OF assms(2) Some append_wf [OF i w assms(3)]] cs1 show ?thesis by simp
  qed (use From_Entry assms in \<open>auto simp: return_displaced_def\<close>)
qed (use assms in \<open>auto simp: return_displaced_def\<close>)

lemma place_wf:
  assumes "place p source target it eq cs = Ok (pl, eq1, cs1)"
    and "item_wf it" and "equipment_wf eq" and "containers_wf cs"
  shows "equipment_wf eq1 \<and> containers_wf cs1"
  using assms(1)
proof (cases rule: place_Ok)
  case (swap slot x)
  from swap(2) assms(3) have "item_wf x" by (simp add: equipment_wf_def)
  with swap assms return_displaced_wf [of source x cs cs1] show ?thesis
    by (simp add: equipment_wf_insert)
next
  case (window cid c r items)
  have w: "window_wf cid c" by (rule containers_wf_get [OF assms(4) window(2)])
  from containers_wf_update [OF assms(4) window(2) merge_wf [OF window(3) w assms(2)]] window assms(3)
  show ?thesis by simp
qed (use assms in \<open>simp_all add: equip_wf\<close>)

lemma return_displaced_total:
  "return_displaced source x cs = Ok cs1 \<Longrightarrow> (\<exists>c. source = From_Slot c) \<or> (\<exists>cid i. source = From_Entry cid i \<and> bt_get cs cid \<noteq> None) \<Longrightarrow>
     bt_sum (window_total mu) cs1 + dropped mu source (Swapped x) = mu x + bt_sum (window_total mu) cs"
  by (auto simp: return_displaced_def dropped_def total_replace_window total_append ac_simps)

context stack_measure
begin

lemma detach_total:
  assumes "detach p source n eq cs = Ok (it, k, eq1, cs1)"
  shows "mu it + stash_total mu eq1 cs1 = stash_total mu eq cs"
proof (cases source)
  case (From_Slot slot)
  with assms obtain x where x: "bt_get eq slot = Some x" by (auto simp: detach_def)
  show ?thesis
  proof (cases "requested n x = stack_count x")
    case True
    with From_Slot x assms show ?thesis
      by (auto simp: detach_def Let_def stash_total_def bt_sum_remove [OF x] ac_simps)
  next
    case False
    with From_Slot x assms obtain whole where s: "split_off x (requested n x) = Ok (whole, it)"
      and o: "eq1 = bt_insert slot whole eq" "cs1 = cs"
      by (auto simp: detach_def Let_def)
    from split_measure [OF s] show ?thesis
      by (simp add: o stash_total_def bt_sum_insert_removed bt_sum_remove [OF x] ac_simps flip: split_measure [OF s])
  qed
next
  case (From_Entry cid i)
  with assms obtain c where c: "bt_get cs cid = Some c" and i: "i < length (ic_items (pc_items c))"
    by (auto simp: detach_def Let_def)
  let ?x = "ic_items (pc_items c) ! i"
  show ?thesis
  proof (cases "requested n ?x = stack_count ?x")
    case True
    with From_Entry c i assms obtain items where r: "container_remove (pc_items c) i = Some (it, items)"
      and o: "eq1 = eq" "cs1 = bt_insert cid (c\<lparr>pc_items := items\<rparr>) cs"
      by (auto simp: detach_def Let_def)
    then show ?thesis
      by (simp add: stash_total_def total_replace_window [OF c] window_total_def container_remove_Some
          sum_list_split_at [of i] ac_simps)
  next
    case False
    with From_Entry c i assms obtain whole where s: "split_off ?x (requested n ?x) = Ok (whole, it)"
      and o: "eq1 = eq"
        "cs1 = bt_insert cid (c\<lparr>pc_items := (pc_items c)\<lparr>ic_items := (ic_items (pc_items c))[i := whole]\<rparr>\<rparr>) cs"
      by (auto simp: detach_def Let_def)
    show ?thesis
      using i by (simp add: o stash_total_def total_replace_window [OF c] window_total_def sum_list_update_at
          sum_list_split_at [OF i] ac_simps flip: split_measure [OF s])
  qed
qed

lemma place_total:
  assumes "place p source target it eq cs = Ok (pl, eq1, cs1)"
    and "(\<exists>a. source = From_Slot a) \<or> (\<exists>cid i. source = From_Entry cid i \<and> bt_get cs cid \<noteq> None)"
  shows "stash_total mu eq1 cs1 + dropped mu source pl = mu it + stash_total mu eq cs"
  using assms(1)
proof (cases rule: place_Ok)
  case (empty slot sw)
  then show ?thesis by (cases source) (simp_all add: stash_total_def dropped_def total_equip ac_simps)
next
  case (swap slot x)
  have "bt_sum mu eq1 + (mu x + bt_sum (window_total mu) cs) = mu it + bt_sum mu eq + bt_sum (window_total mu) cs"
    using arg_cong [OF total_replace_slot [OF swap(2), of mu it],
        of "\<lambda>s. s + bt_sum (window_total mu) cs"] swap(4)
    by (simp add: ac_simps)
  with return_displaced_total [OF swap(5) assms(2), of mu] swap(3) show ?thesis
    by (simp add: stash_total_def ac_simps)
next
  case (window cid c r items)
  then show ?thesis
    by (cases source)
      (simp_all add: stash_total_def dropped_def total_replace_window [OF window(2)] total_merge ac_simps)
qed

lemma generic_move_Ok:
  assumes "world_wf w" and "execute_generic_inventory_move p plan w = (Ok out, w')"
  shows "transferred mu p (dropped mu (mp_source plan) (mo_placement out)) w w'"
proof -
  from assms(2) obtain eq cs it k eq1 cs1 eq2 cs2 where
    g: "bt_get (w_equipments w) p = Some eq" "bt_get (w_containers w) p = Some cs"
    and d: "detach p (mp_source plan) (mp_count plan) eq cs = Ok (it, k, eq1, cs1)"
    and f: "place p (mp_source plan) (mp_target plan) it eq1 cs1 = Ok (mo_placement out, eq2, cs2)"
    and w': "w' = commit p eq2 cs2 w"
    unfolding execute_generic_inventory_move_def player_equipment_def player_containers_def
    by (auto simp del: split_paired_Ex split: option.splits)
  have wf: "equipment_wf eq" "containers_wf cs" using world_wf_get(3,4) [OF assms(1)] g by auto
  note wd = detach_wf [OF d wf]
  have "(\<exists>a. mp_source plan = From_Slot a) \<or> (\<exists>cid i. mp_source plan = From_Entry cid i \<and> bt_get cs1 cid \<noteq> None)"
    using d by (cases "mp_source plan") (auto simp: detach_def Let_def split: if_splits)
  from place_total [OF f this] detach_total [OF d]
  have "stash_total mu eq2 cs2 + dropped mu (mp_source plan) (mo_placement out) = stash_total mu eq cs"
    by simp
  with place_wf [OF f] wd show ?thesis by (intro transferredI [OF g w']) auto
qed

end

lemma execute_generic_inventory_move_clean: "clean w (execute_generic_inventory_move p plan w)"
  unfolding execute_generic_inventory_move_def by (intro clean_intros)+

lemma execute_generic_inventory_move_wf:
  assumes "world_wf w"
  shows "world_wf (snd (execute_generic_inventory_move p plan w))"
  by (rule clean_wf [OF execute_generic_inventory_move_clean assms])
    (rule transferred_wf [OF units.generic_move_Ok [OF assms] assms])

end
