(* ===== verification/Trade.thy ===== *)
theory Trade
  imports Generic_Move
begin

text \<open>
  Trades between two players (\<open>crates/forgotten-core/src/world_trade.rs\<close>): the session with its
  staged references and acceptances, and the execution that removes the offered items, then delivers
  them. The passes that mutate the inventories step by step, and their restore loops, are modelled as
  they are, on the table of all containers.
\<close>

abbreviation max_trade_items_per_side :: nat where "max_trade_items_per_side \<equiv> 20"

section \<open>Sessions\<close>

definition is_dead :: "world_state \<Rightarrow> nat \<Rightarrow> bool" where
  "is_dead w p = (case bt_get (w_respawn w) p of None \<Rightarrow> False | Some st \<Rightarrow> dead st)"

definition trade_party :: "nat \<Rightarrow> world_state \<Rightarrow> unit result" where
  "trade_party p w =
     rbind (require_player p w) (\<lambda>_.
       if is_dead w p then Inl (player_fault (PlayerIsDead p)) else Ok ())"

definition open_player_trade :: "nat \<Rightarrow> nat \<Rightarrow> trade_session action" where
  "open_player_trade initiator counterparty w =
     (if initiator = counterparty then (Inl (social_fault TradeWithSelf), w)
      else attempt w (trade_party initiator w) (\<lambda>_.
        attempt w (trade_party counterparty w) (\<lambda>_.
          if bt_mem initiator (trades w) \<or> bt_mem counterparty (trades w)
          then (Inl (social_fault (PlayerAlreadyTrading initiator)), w)
          else
            let s = \<lparr>ts_initiator = initiator, ts_counterparty = counterparty, ts_initiator_items = [],
                     ts_counterparty_items = [], ts_initiator_accepted = False,
                     ts_counterparty_accepted = False, ts_tick_opened = tick w\<rparr>
            in (Ok s, w\<lparr>trades := bt_insert initiator s (trades w)\<rparr>))))"

definition find_counterparty :: "nat \<Rightarrow> (nat, trade_session) btmap \<Rightarrow> trade_session option" where
  "find_counterparty p m = find (\<lambda>s. ts_counterparty s = p) (bt_vals m)"

definition player_trade :: "world_state \<Rightarrow> nat \<Rightarrow> trade_session option" where
  "player_trade w p =
     (case bt_get (trades w) p of Some s \<Rightarrow> Some s | None \<Rightarrow> find_counterparty p (trades w))"

text \<open>The key of the session that \<open>active_trade_entry_mut\<close> borrows, with the session.\<close>

definition active_trade_entry :: "nat \<Rightarrow> world_state \<Rightarrow> (nat \<times> trade_session) result" where
  "active_trade_entry p w =
     (case bt_get (trades w) p of
        Some s \<Rightarrow> Ok (p, s)
      | None \<Rightarrow>
          (case find_counterparty p (trades w) of
             None \<Rightarrow> Inl (social_fault (NoActiveTrade p))
           | Some s \<Rightarrow>
               rbind (ok_or (bt_get (trades w) (ts_initiator s)) (social_fault (NoActiveTrade p))) (\<lambda>entry.
                 Ok (ts_initiator s, entry))))"

definition store_trade :: "nat \<Rightarrow> trade_session \<Rightarrow> world_state \<Rightarrow> world_state" where
  "store_trade k s w = w\<lparr>trades := bt_insert k s (trades w)\<rparr>"

definition side_items :: "nat \<Rightarrow> trade_session \<Rightarrow> trade_reference list" where
  "side_items p s = (if ts_initiator s = p then ts_initiator_items s else ts_counterparty_items s)"

text \<open>The writes after a change of one side's offer: \<open>*other_side = false\<close>, then
  \<open>session.initiator_accepted = false\<close>.\<close>

definition change_offer :: "nat \<Rightarrow> trade_reference list \<Rightarrow> trade_session \<Rightarrow> trade_session" where
  "change_offer p refs s =
     (if ts_initiator s = p
      then s\<lparr>ts_initiator_items := refs, ts_counterparty_accepted := False, ts_initiator_accepted := False\<rparr>
      else s\<lparr>ts_counterparty_items := refs, ts_initiator_accepted := False\<rparr>)"

definition stage_trade_item :: "nat \<Rightarrow> trade_reference \<Rightarrow> nat action" where
  "stage_trade_item p r w =
     attempt w (active_trade_entry p w) (\<lambda>(k, s).
       if length (side_items p s) \<ge> max_trade_items_per_side
       then (Inl (social_fault (TradeItemLimit max_trade_items_per_side)), w)
       else if r \<in> set (side_items p s) then (Inl (social_fault DuplicateTradeItem), w)
       else (Ok (length (side_items p s) + 1), store_trade k (change_offer p (side_items p s @ [r]) s) w))"

definition unstage_trade_item :: "nat \<Rightarrow> trade_reference \<Rightarrow> unit action" where
  "unstage_trade_item p r w =
     attempt w (active_trade_entry p w) (\<lambda>(k, s).
       case find_index (\<lambda>staged. staged = r) (side_items p s) of
         None \<Rightarrow> (Inl (social_fault UnknownTradeItem), w)
       | Some i \<Rightarrow> (Ok (), store_trade k (change_offer p (remove_at i (side_items p s)) s) w))"

definition accept_player_trade :: "nat \<Rightarrow> bool action" where
  "accept_player_trade p w =
     attempt w (active_trade_entry p w) (\<lambda>(k, s).
       let s' = (if ts_initiator s = p then s\<lparr>ts_initiator_accepted := True\<rparr>
                 else s\<lparr>ts_counterparty_accepted := True\<rparr>)
       in (Ok (ts_initiator_accepted s' \<and> ts_counterparty_accepted s'), store_trade k s' w))"

definition cancel_player_trade :: "nat \<Rightarrow> world_state \<Rightarrow> nat option \<times> world_state" where
  "cancel_player_trade p w =
     (case bt_get (trades w) p of
        Some s \<Rightarrow>
          let (key, other) = (if ts_initiator s = p then (p, ts_counterparty s) else (ts_initiator s, p))
          in (Some other, w\<lparr>trades := bt_remove key (trades w)\<rparr>)
      | None \<Rightarrow>
          (case find (\<lambda>(_, s). ts_counterparty s = p) (entries (trades w)) of
             None \<Rightarrow> (None, w)
           | Some (key, _) \<Rightarrow> (Some p, w\<lparr>trades := bt_remove key (trades w)\<rparr>)))"

section \<open>Execution: resolving and removing\<close>

type_synonym inventories = "(nat, player_containers) btmap"

definition missing_item :: "nat \<Rightarrow> trade_reference \<Rightarrow> fault" where
  "missing_item p r = social_fault (TradeItemMissing p (tr_container r) (tr_index r))"

definition resolve_ref :: "inventories \<Rightarrow> nat \<Rightarrow> trade_reference \<Rightarrow> (trade_reference \<times> item_instance) result" where
  "resolve_ref m p r =
     (case bt_get m p of
        None \<Rightarrow> Inl (missing_item p r)
      | Some cs \<Rightarrow>
          (case bt_get cs (tr_container r) of
             None \<Rightarrow> Inl (missing_item p r)
           | Some c \<Rightarrow>
               rbind (ok_or (nth_opt (ic_items (pc_items c)) (tr_index r)) (missing_item p r)) (\<lambda>it. Ok (r, it))))"

text \<open>The restore loops ignore a failed insertion.\<close>

definition restore_one :: "nat \<Rightarrow> trade_reference \<times> item_instance \<Rightarrow> inventories \<Rightarrow> inventories" where
  "restore_one p ri m =
     (case bt_get m p of
        None \<Rightarrow> m
      | Some cs \<Rightarrow>
          (case bt_get cs (tr_container (fst ri)) of
             None \<Rightarrow> m
           | Some c \<Rightarrow>
               (case container_insert (pc_items c) (snd ri) of
                  Inl _ \<Rightarrow> m
                | Inr items \<Rightarrow> bt_insert p (bt_insert (tr_container (fst ri)) (c\<lparr>pc_items := items\<rparr>) cs) m)))"

definition restore_items :: "nat \<Rightarrow> (trade_reference \<times> item_instance) list \<Rightarrow> inventories \<Rightarrow> inventories" where
  "restore_items p removed m = fold (restore_one p) (rev removed) m"

fun remove_offered ::
  "nat \<Rightarrow> trade_reference list \<Rightarrow> (trade_reference \<times> item_instance) list \<Rightarrow> inventories \<Rightarrow>
     (trade_reference \<times> item_instance) list result \<times> inventories" where
  "remove_offered p [] removed m = (Ok removed, m)"
| "remove_offered p (r # rs) removed m =
     (case bt_get m p of
        None \<Rightarrow> (Inl (missing_item p r), m)
      | Some cs \<Rightarrow>
          (case bt_get cs (tr_container r) of
             None \<Rightarrow> (Inl (missing_item p r), m)
           | Some c \<Rightarrow>
               (case container_remove (pc_items c) (tr_index r) of
                  None \<Rightarrow> (Inl (missing_item p r), restore_items p removed m)
                | Some (it, items) \<Rightarrow>
                    remove_offered p rs (removed @ [(r, it)])
                      (bt_insert p (bt_insert (tr_container r) (c\<lparr>pc_items := items\<rparr>) cs) m))))"

section \<open>Execution: delivery\<close>

text \<open>The first window that takes the item; every window tried is taken out and put back.\<close>

fun deliver_one :: "nat \<Rightarrow> item_instance \<Rightarrow> nat list \<Rightarrow> inventories \<Rightarrow> bool \<times> inventories" where
  "deliver_one p it [] m = (False, m)"
| "deliver_one p it (cid # cids) m =
     (case bt_get m p of
        None \<Rightarrow> deliver_one p it cids m
      | Some cs \<Rightarrow>
          (case bt_take cid cs of
             None \<Rightarrow> deliver_one p it cids m
           | Some (c, cs1) \<Rightarrow>
               let (merged, c1) = (case merge_or_insert_stack (pc_items c) it of
                     Inr (_, items) \<Rightarrow> (True, c\<lparr>pc_items := items\<rparr>) | Inl _ \<Rightarrow> (False, c));
                   cs2 = (case containers_insert cs1 c1 of Inr cs2 \<Rightarrow> cs2 | Inl _ \<Rightarrow> cs1);
                   m1 = bt_insert p cs2 m
               in if merged then (True, m1) else deliver_one p it cids m1))"

definition no_space :: "nat \<Rightarrow> fault" where
  "no_space p =
     social_fault (TradeValidationFailed (''player '' @ dec p @ '' has no space for a traded item''))"

fun deliver :: "nat \<Rightarrow> item_instance list \<Rightarrow> inventories \<Rightarrow> unit result \<times> inventories" where
  "deliver p [] m = (Ok (), m)"
| "deliver p (it # its) m =
     (let cids = (case bt_get m p of None \<Rightarrow> [] | Some cs \<Rightarrow> bt_keys cs);
          (placed, m1) = deliver_one p it cids m
      in if placed then deliver p its m1 else (Inl (no_space p), m1))"

record trade_execution =
  te_initiator :: nat
  te_counterparty :: nat
  te_initiator_gave :: "item_instance list"
  te_counterparty_gave :: "item_instance list"

text \<open>The three passes over the table of containers.\<close>

definition swap_offers ::
  "trade_session \<Rightarrow> inventories \<Rightarrow> (item_instance list \<times> item_instance list) result \<times> inventories" where
  "swap_offers s m =
     (let a = ts_initiator s; b = ts_counterparty s in
      attempt m (traverse (resolve_ref m a) (ts_initiator_items s)) (\<lambda>ra.
      attempt m (traverse (resolve_ref m b) (ts_counterparty_items s)) (\<lambda>rb.
      chain (remove_offered a (map fst ra) [] m) (\<lambda>removed_a m1.
        case remove_offered b (map fst rb) [] m1 of
          (Inl e, m2) \<Rightarrow> (Inl e, restore_items a removed_a m2)
        | (Inr removed_b, m2) \<Rightarrow>
            chain (deliver a (map snd removed_b) m2) (\<lambda>_ m3.
            chain (deliver b (map snd removed_a) m3) (\<lambda>_ m4.
              (Ok (map snd removed_a, map snd removed_b), m4)))))))"

definition with_inventories :: "world_state \<Rightarrow> inventories \<Rightarrow> world_state" where
  "with_inventories w m = w\<lparr>w_containers := m\<rparr>"

definition execute_player_trade :: "nat \<Rightarrow> trade_execution action" where
  "execute_player_trade p w =
     attempt w (ok_or (player_trade w p) (social_fault (NoActiveTrade p))) (\<lambda>s.
       if \<not> (ts_initiator_accepted s \<and> ts_counterparty_accepted s)
       then (Inl (social_fault (NoActiveTrade p)), w)
       else (case swap_offers s (w_containers w) of
          (Inl e, m) \<Rightarrow> (Inl e, with_inventories w m)
        | (Inr (gave_a, gave_b), m) \<Rightarrow>
            (Ok \<lparr>te_initiator = ts_initiator s, te_counterparty = ts_counterparty s,
                 te_initiator_gave = gave_a, te_counterparty_gave = gave_b\<rparr>,
             mark_changed ((with_inventories w m)
               \<lparr>trades := bt_remove (ts_counterparty s) (bt_remove (ts_initiator s) (trades w))\<rparr>))))"

section \<open>Sessions keep their shape\<close>

text \<open>A session is stored under its initiator, links two different players, and holds bounded offers
  without repetitions.\<close>

definition session_ok :: "nat \<Rightarrow> trade_session \<Rightarrow> bool" where
  "session_ok k s \<longleftrightarrow> ts_initiator s = k \<and> ts_counterparty s \<noteq> k \<and>
     length (ts_initiator_items s) \<le> max_trade_items_per_side \<and> distinct (ts_initiator_items s) \<and>
     length (ts_counterparty_items s) \<le> max_trade_items_per_side \<and> distinct (ts_counterparty_items s)"

definition trades_wf :: "world_state \<Rightarrow> bool" where
  "trades_wf w \<longleftrightarrow> (\<forall>k s. bt_get (trades w) k = Some s \<longrightarrow> session_ok k s)"

lemma find_counterparty_Some:
  "find_counterparty p m = Some s \<Longrightarrow> ts_counterparty s = p \<and> (\<exists>k. bt_get m k = Some s)"
  by (auto simp: find_counterparty_def find_Some_iff in_bt_vals_iff [symmetric])

lemma active_trade_entry_Ok:
  assumes "trades_wf w" and "active_trade_entry p w = Ok (k, s)"
  shows "bt_get (trades w) k = Some s \<and> session_ok k s \<and> (p = ts_initiator s \<or> p = ts_counterparty s)"
  using assms
  by (auto simp: active_trade_entry_def trades_wf_def session_ok_def split: option.splits
      dest!: find_counterparty_Some)

lemma store_trade_wf: "trades_wf w \<Longrightarrow> session_ok k s \<Longrightarrow> trades_wf (store_trade k s w)"
  by (auto simp: trades_wf_def store_trade_def bt_get_insert)

lemma distinct_remove_at: "distinct xs \<Longrightarrow> distinct (remove_at i xs)"
  by (auto simp: remove_at_def dest: set_take_disj_set_drop_if_distinct [of xs i "Suc i"])

lemma length_remove_at_le: "length (remove_at i xs) \<le> length xs"
  by (simp add: remove_at_def)

lemma change_offer_ok:
  "session_ok k s \<Longrightarrow> length refs \<le> max_trade_items_per_side \<Longrightarrow> distinct refs \<Longrightarrow>
     session_ok k (change_offer p refs s)"
  by (auto simp: session_ok_def change_offer_def)

lemma side_items_ok:
  "session_ok k s \<Longrightarrow> length (side_items p s) \<le> max_trade_items_per_side \<and> distinct (side_items p s)"
  by (simp add: session_ok_def side_items_def)

lemma sessions_keep_shape:
  assumes "trades_wf w"
  shows "trades_wf (snd (open_player_trade a b w))" and "trades_wf (snd (stage_trade_item p r w))"
    and "trades_wf (snd (unstage_trade_item p r w))" and "trades_wf (snd (accept_player_trade p w))"
    and "trades_wf (snd (cancel_player_trade p w))"
proof -
  show "trades_wf (snd (open_player_trade a b w))"
    using assms
    by (auto simp: open_player_trade_def trades_wf_def attempt_def Let_def bt_get_insert session_ok_def split: sum.splits)
  show "trades_wf (snd (stage_trade_item p r w))"
  proof (cases "active_trade_entry p w")
    case (Inr e)
    obtain k s where e: "e = (k, s)" by (rule prod.exhaust)
    from active_trade_entry_Ok [OF assms] Inr e have ok: "session_ok k s" by simp
    with side_items_ok [OF ok, of p] assms Inr e show ?thesis
      by (auto simp: stage_trade_item_def intro!: store_trade_wf change_offer_ok)
  qed (use assms in \<open>simp add: stage_trade_item_def\<close>)
  show "trades_wf (snd (unstage_trade_item p r w))"
  proof (cases "active_trade_entry p w")
    case (Inr e)
    obtain k s where e: "e = (k, s)" by (rule prod.exhaust)
    from active_trade_entry_Ok [OF assms] Inr e have "session_ok k s" by simp
    then have "session_ok k (change_offer p (remove_at i (side_items p s)) s)" for i
      using side_items_ok [of k s p] length_remove_at_le [of i "side_items p s"]
      by (intro change_offer_ok) (auto intro: distinct_remove_at)
    with assms Inr e show ?thesis
      by (auto simp: unstage_trade_item_def intro!: store_trade_wf split: option.split)
  qed (use assms in \<open>simp add: unstage_trade_item_def\<close>)
  show "trades_wf (snd (accept_player_trade p w))"
  proof (cases "active_trade_entry p w")
    case (Inr e)
    with active_trade_entry_Ok [OF assms] assms show ?thesis
      by (cases e) (auto simp: accept_player_trade_def Let_def session_ok_def intro!: store_trade_wf)
  qed (use assms in \<open>simp add: accept_player_trade_def\<close>)
  show "trades_wf (snd (cancel_player_trade p w))"
    using assms
    by (auto simp: cancel_player_trade_def trades_wf_def Let_def bt_get_remove split: option.split)
qed

section \<open>Conservation\<close>

definition inventories_wf :: "inventories \<Rightarrow> bool" where
  "inventories_wf m \<longleftrightarrow> all_vals containers_wf m"

definition inventories_total :: "(item_instance \<Rightarrow> 'a::comm_monoid_add) \<Rightarrow> inventories \<Rightarrow> 'a" where
  "inventories_total mu m = bt_sum (bt_sum (window_total mu)) m"

text \<open>Replacing one window of one player.\<close>

definition set_window :: "nat \<Rightarrow> nat \<Rightarrow> player_container \<Rightarrow> inventories \<Rightarrow> inventories" where
  "set_window p cid c m =
     (case bt_get m p of None \<Rightarrow> m | Some cs \<Rightarrow> bt_insert p (bt_insert cid c cs) m)"

definition window_at :: "inventories \<Rightarrow> nat \<Rightarrow> nat \<Rightarrow> player_container option" where
  "window_at m p cid = (case bt_get m p of None \<Rightarrow> None | Some cs \<Rightarrow> bt_get cs cid)"

lemma set_window_total:
  assumes "window_at m p cid = Some c"
  obtains rest where "inventories_total mu m = window_total mu c + rest"
    and "\<And>c'. inventories_total mu (set_window p cid c' m) = window_total mu c' + rest"
proof -
  from assms obtain cs where m: "bt_get m p = Some cs" and c: "bt_get cs cid = Some c"
    by (auto simp: window_at_def split: option.splits)
  show ?thesis
    by (rule that [of "bt_sum (window_total mu) (bt_remove cid cs) + bt_sum (bt_sum (window_total mu)) (bt_remove p m)"])
      (simp_all add: inventories_total_def set_window_def m bt_sum_insert_removed bt_sum_remove [OF m]
        bt_sum_remove [OF c] ac_simps)
qed

lemma window_at_wf: "inventories_wf m \<Longrightarrow> window_at m p cid = Some c \<Longrightarrow> window_wf cid c"
  by (auto simp: window_at_def inventories_wf_def dest: all_vals_get intro: containers_wf_get split: option.splits)

lemma set_window_wf:
  assumes "inventories_wf m" and "window_at m p cid = Some c" and "window_wf cid c'"
  shows "inventories_wf (set_window p cid c' m)"
proof -
  from assms(2) obtain cs where m: "bt_get m p = Some cs" and c: "bt_get cs cid = Some c"
    by (auto simp: window_at_def split: option.splits)
  have "containers_wf cs" using assms(1) m by (auto simp: inventories_wf_def dest: all_vals_get)
  from containers_wf_update [OF this c assms(3)] assms(1) m show ?thesis
    by (simp add: inventories_wf_def set_window_def)
qed

lemma set_window_other: "q \<noteq> p \<Longrightarrow> bt_get (set_window p cid c m) q = bt_get m q"
  by (simp add: set_window_def split: option.split)

lemma dom_set_window [simp]: "dom (bt_get (set_window p cid c m)) = dom (bt_get m)"
  by (auto simp: set_window_def split: option.split)

text \<open>The steps of the passes in terms of windows.\<close>

lemma remove_offered_Cons:
  "remove_offered p (r # rs) removed m =
     (case window_at m p (tr_container r) of
        None \<Rightarrow> (Inl (missing_item p r), m)
      | Some c \<Rightarrow>
          (case container_remove (pc_items c) (tr_index r) of
             None \<Rightarrow> (Inl (missing_item p r), restore_items p removed m)
           | Some (it, items) \<Rightarrow>
               remove_offered p rs (removed @ [(r, it)])
                 (set_window p (tr_container r) (c\<lparr>pc_items := items\<rparr>) m)))"
  by (simp add: window_at_def set_window_def split: option.split)

declare remove_offered.simps(2) [simp del]

lemma restore_one_window:
  "restore_one p ri m =
     (case window_at m p (tr_container (fst ri)) of
        None \<Rightarrow> m
      | Some c \<Rightarrow>
          (case container_insert (pc_items c) (snd ri) of
             Inl _ \<Rightarrow> m
           | Inr items \<Rightarrow> set_window p (tr_container (fst ri)) (c\<lparr>pc_items := items\<rparr>) m))"
  by (simp add: restore_one_def window_at_def set_window_def split: option.split sum.split)

declare deliver_one.simps(2) [simp del]

lemma deliver_one_Cons:
  assumes "inventories_wf m"
  shows "deliver_one p it (cid # cids) m =
     (case window_at m p cid of
        None \<Rightarrow> deliver_one p it cids m
      | Some c \<Rightarrow>
          (case merge_or_insert_stack (pc_items c) it of
             Inr (r, items) \<Rightarrow> (True, set_window p cid (c\<lparr>pc_items := items\<rparr>) m)
           | Inl e \<Rightarrow> deliver_one p it cids m))"
proof (cases "window_at m p cid")
  case None
  then show ?thesis by (auto simp: window_at_def deliver_one.simps(2) split: option.split option.split_asm)
next
  case (Some c)
  then obtain cs where m: "bt_get m p = Some cs" and c: "bt_get cs cid = Some c"
    by (auto simp: window_at_def split: option.splits)
  have cs: "containers_wf cs" using assms m by (auto simp: inventories_wf_def dest: all_vals_get)
  have id: "pc_id c = cid" using containers_wf_get [OF cs c] by (simp add: window_wf_def)
  have put: "containers_insert (bt_remove cid cs) c' = Ok (bt_insert cid c' cs)" if "pc_id c' = cid" for c'
    by (rule containers_put_back [OF c cs that])
  have same: "bt_insert cid c cs = cs" "bt_insert p cs m = m" using m c by (simp_all add: bt_insert_idem)
  have "bt_take cid cs = Some (c, bt_remove cid cs)" using c by (simp add: bt_take_def)
  note step = deliver_one.simps(2) [of p it cid cids m, unfolded m option.case this prod.case]
  show ?thesis
  proof (cases "merge_or_insert_stack (pc_items c) it")
    case (Inl e)
    with Some put [OF id] same show ?thesis by (simp add: step Let_def)
  next
    case (Inr x)
    obtain r items where x: "x = (r, items)" by (rule prod.exhaust)
    have "containers_insert (bt_remove cid cs) (c\<lparr>pc_items := items\<rparr>) = Ok (bt_insert cid (c\<lparr>pc_items := items\<rparr>) cs)"
      by (rule put) (simp add: id)
    with Some m Inr x show ?thesis by (simp add: step Let_def set_window_def)
  qed
qed

text \<open>Every pass keeps the inventories well formed and the players registered in them.\<close>

definition same_owners :: "inventories \<Rightarrow> inventories \<Rightarrow> bool" where
  "same_owners m m' \<longleftrightarrow> inventories_wf m' \<and> dom (bt_get m') = dom (bt_get m)"

lemma restore_one_owners:
  "inventories_wf m \<Longrightarrow> item_wf (snd ri) \<Longrightarrow> same_owners m (restore_one p ri m)"
  using window_at_wf [of m p "tr_container (fst ri)"]
  by (auto simp: restore_one_window same_owners_def intro: set_window_wf append_wf split: option.split sum.split)

lemma restore_items_owners:
  assumes "inventories_wf m" and "\<forall>ri \<in> set removed. item_wf (snd ri)"
  shows "same_owners m (restore_items p removed m)"
proof -
  have "same_owners m (fold (restore_one p) rs m')" if "same_owners m m'" "\<forall>ri \<in> set rs. item_wf (snd ri)" for rs m'
    using that
  proof (induction rs arbitrary: m')
    case (Cons ri rs)
    then have "same_owners m (restore_one p ri m')"
      using restore_one_owners [of m' ri p] by (auto simp: same_owners_def)
    with Cons show ?case by simp
  qed simp
  then show ?thesis using assms by (simp add: restore_items_def same_owners_def)
qed

lemma removed_window:
  assumes "inventories_wf m" and "window_at m p cid = Some c" and "container_remove (pc_items c) i = Some (it, items)"
  shows "item_wf it" and "window_wf cid (c\<lparr>pc_items := items\<rparr>)"
proof -
  have w: "window_wf cid c" by (rule window_at_wf [OF assms(1,2)])
  then have "container_wf (pc_items c)" by (simp add: window_wf_def)
  from container_remove_wf [OF assms(3) this] show "item_wf it" "window_wf cid (c\<lparr>pc_items := items\<rparr>)"
    using window_items_wf [OF w] by auto
qed

lemma remove_offered_owners:
  assumes "inventories_wf m" and "\<forall>ri \<in> set removed. item_wf (snd ri)"
  shows "same_owners m (snd (remove_offered p rs removed m))"
    and "remove_offered p rs removed m = (Ok out, m') \<Longrightarrow> \<forall>ri \<in> set out. item_wf (snd ri)"
proof -
  have "same_owners m (snd (remove_offered p rs removed m)) \<and>
      (\<forall>out m'. remove_offered p rs removed m = (Ok out, m') \<longrightarrow> (\<forall>ri \<in> set out. item_wf (snd ri)))"
    using assms
  proof (induction rs arbitrary: removed m)
    case Nil
    then show ?case by (simp add: same_owners_def)
  next
    case (Cons r rs)
    show ?case
    proof (cases "window_at m p (tr_container r)")
      case None
      with Cons.prems show ?thesis by (simp add: remove_offered_Cons same_owners_def)
    next
      case (Some c)
      show ?thesis
      proof (cases "container_remove (pc_items c) (tr_index r)")
        case None
        with Some Cons.prems restore_items_owners [OF Cons.prems] show ?thesis
          by (simp add: remove_offered_Cons)
      next
        case (Some x)
        obtain it items where x: "x = (it, items)" by (rule prod.exhaust)
        note w = removed_window [OF Cons.prems(1) \<open>window_at m p (tr_container r) = Some c\<close> Some [unfolded x]]
        let ?m = "set_window p (tr_container r) (c\<lparr>pc_items := items\<rparr>) m"
        have m: "inventories_wf ?m"
          by (rule set_window_wf [OF Cons.prems(1) \<open>window_at m p (tr_container r) = Some c\<close> w(2)])
        have "\<forall>ri \<in> set (removed @ [(r, it)]). item_wf (snd ri)" using Cons.prems(2) w(1) by auto
        from Cons.IH [OF m this] Some x \<open>window_at m p (tr_container r) = Some c\<close> show ?thesis
          by (simp add: remove_offered_Cons same_owners_def)
      qed
    qed
  qed
  then show "same_owners m (snd (remove_offered p rs removed m))"
    and "remove_offered p rs removed m = (Ok out, m') \<Longrightarrow> \<forall>ri \<in> set out. item_wf (snd ri)" by blast+
qed

section \<open>What removing and restoring do to the totals\<close>

definition goods_total :: "(item_instance \<Rightarrow> 'a::comm_monoid_add) \<Rightarrow> (trade_reference \<times> item_instance) list \<Rightarrow> 'a" where
  "goods_total mu goods = sum_list (map (mu \<circ> snd) goods)"

lemma goods_total_simps [simp]:
  "goods_total mu [] = 0" "goods_total mu (g # gs) = mu (snd g) + goods_total mu gs"
  "goods_total mu (gs @ hs) = goods_total mu gs + goods_total mu hs"
  by (simp_all add: goods_total_def)

lemma set_window_append:
  assumes "window_at m p cid = Some c" and "container_insert (pc_items c) it = Ok items"
  shows "inventories_total mu (set_window p cid (c\<lparr>pc_items := items\<rparr>) m) = mu it + inventories_total mu m"
proof -
  obtain rest where "inventories_total mu m = window_total mu c + rest"
    "\<And>c'. inventories_total mu (set_window p cid c' m) = window_total mu c' + rest"
    by (rule set_window_total [OF assms(1)]) blast
  then show ?thesis using total_append [OF assms(2), of mu] by (simp add: ac_simps)
qed

lemma set_window_removed:
  assumes "window_at m p cid = Some c" and "container_remove (pc_items c) i = Some (it, items)"
  shows "mu it + inventories_total mu (set_window p cid (c\<lparr>pc_items := items\<rparr>) m) = inventories_total mu m"
proof -
  obtain rest where "inventories_total mu m = window_total mu c + rest"
    "\<And>c'. inventories_total mu (set_window p cid c' m) = window_total mu c' + rest"
    by (rule set_window_total [OF assms(1)]) blast
  then show ?thesis
    using assms(2) by (auto simp: container_remove_Some window_total_def sum_list_split_at ac_simps)
qed

lemma window_at_set_window:
  assumes "window_at m p cid = Some c"
  shows "window_at (set_window p cid c' m) q k = (if q = p \<and> k = cid then Some c' else window_at m q k)"
  using assms by (auto simp: window_at_def set_window_def bt_get_insert split: option.splits)

text \<open>There is room for removed goods when every window they came from is still there and has as many
  free places as goods came from it.\<close>

definition room :: "nat \<Rightarrow> (trade_reference \<times> item_instance) list \<Rightarrow> inventories \<Rightarrow> bool" where
  "room p goods m \<longleftrightarrow>
     (\<forall>g \<in> set goods. \<exists>c. window_at m p (tr_container (fst g)) = Some c \<and>
        length (ic_items (pc_items c)) + length (filter (\<lambda>h. tr_container (fst h) = tr_container (fst g)) goods)
          \<le> ic_capacity (pc_items c))"

lemma restore_one_room:
  assumes "room p (g # goods) m"
  shows "inventories_total mu (restore_one p g m) = mu (snd g) + inventories_total mu m"
    and "room p goods (restore_one p g m)"
proof -
  let ?k = "tr_container (fst g)"
  from assms obtain c where c: "window_at m p ?k = Some c"
    and r: "length (ic_items (pc_items c)) + Suc (length (filter (\<lambda>h. tr_container (fst h) = ?k) goods))
      \<le> ic_capacity (pc_items c)"
    by (auto simp: room_def)
  obtain items where i: "container_insert (pc_items c) (snd g) = Ok items"
    and items: "items = (pc_items c)\<lparr>ic_items := ic_items (pc_items c) @ [snd g]\<rparr>"
    using r by (auto simp: container_insert_def)
  then have one: "restore_one p g m = set_window p ?k (c\<lparr>pc_items := items\<rparr>) m"
    by (simp add: restore_one_window c)
  show "inventories_total mu (restore_one p g m) = mu (snd g) + inventories_total mu m"
    by (simp add: one set_window_append [OF c i])
  show "room p goods (restore_one p g m)"
    unfolding room_def
  proof
    fix h assume h: "h \<in> set goods"
    with assms obtain d where d: "window_at m p (tr_container (fst h)) = Some d"
      and rd: "length (ic_items (pc_items d)) +
          length (filter (\<lambda>x. tr_container (fst x) = tr_container (fst h)) (g # goods)) \<le> ic_capacity (pc_items d)"
      unfolding room_def by (meson list.set_intros(2))
    show "\<exists>c. window_at (restore_one p g m) p (tr_container (fst h)) = Some c \<and>
        length (ic_items (pc_items c)) + length (filter (\<lambda>x. tr_container (fst x) = tr_container (fst h)) goods)
          \<le> ic_capacity (pc_items c)"
      using c d r rd
      by (cases "tr_container (fst h) = ?k") (auto simp: one window_at_set_window [OF c] items split: if_splits)
  qed
qed

lemma restore_items_room:
  assumes "room p goods m"
  shows "inventories_total mu (restore_items p goods m) = goods_total mu goods + inventories_total mu m"
proof -
  have "room p goods m \<Longrightarrow>
      inventories_total mu (fold (restore_one p) goods m) = goods_total mu goods + inventories_total mu m"
    for goods m
    by (induction goods arbitrary: m) (simp_all add: restore_one_room ac_simps)
  moreover have "room p (rev goods) m"
    using assms by (simp add: room_def flip: rev_filter)
  moreover have "goods_total mu (rev goods) = goods_total mu goods"
    by (induction goods) (simp_all add: ac_simps)
  ultimately show ?thesis by (simp add: restore_items_def)
qed

lemma room_removed:
  assumes "room p goods m" and "inventories_wf m" and "window_at m p (tr_container r) = Some c"
    and "container_remove (pc_items c) (tr_index r) = Some (it, items)"
  shows "room p (goods @ [(r, it)]) (set_window p (tr_container r) (c\<lparr>pc_items := items\<rparr>) m)"
  unfolding room_def
proof
  fix g assume g: "g \<in> set (goods @ [(r, it)])"
  have items: "items = (pc_items c)\<lparr>ic_items := remove_at (tr_index r) (ic_items (pc_items c))\<rparr>"
    and i: "tr_index r < length (ic_items (pc_items c))"
    using assms(4) by (auto simp: container_remove_Some)
  have cap: "length (ic_items (pc_items c)) \<le> ic_capacity (pc_items c)"
    using window_at_wf [OF assms(2,3)] by (simp add: window_wf_def container_wf_def)
  let ?n = "\<lambda>k. length (filter (\<lambda>h. tr_container (fst h) = k) goods)"
  have fits: "length (ic_items (pc_items c)) + ?n (tr_container r) \<le> ic_capacity (pc_items c)"
  proof (cases "?n (tr_container r) = 0")
    case False
    then obtain h where "h \<in> set goods" "tr_container (fst h) = tr_container r"
      by (auto simp: filter_empty_conv)
    with assms(1,3) show ?thesis by (fastforce simp: room_def)
  qed (use cap in simp)
  show "\<exists>d. window_at (set_window p (tr_container r) (c\<lparr>pc_items := items\<rparr>) m) p (tr_container (fst g)) = Some d \<and>
      length (ic_items (pc_items d)) +
        length (filter (\<lambda>h. tr_container (fst h) = tr_container (fst g)) (goods @ [(r, it)])) \<le> ic_capacity (pc_items d)"
  proof (cases "tr_container (fst g) = tr_container r")
    case True
    with fits i show ?thesis by (simp add: window_at_set_window [OF assms(3)] items length_remove_at)
  next
    case False
    with g have "g \<in> set goods" by auto
    with False assms(1) show ?thesis by (auto simp: window_at_set_window [OF assms(3)] room_def)
  qed
qed

text \<open>Removing one side's goods: the goods leave the total; when an item turns out to be missing, the
  ones already removed are all put back.\<close>

lemma remove_offered_total:
  assumes "inventories_wf m" and "room p removed m"
    and "\<forall>r \<in> set rs. window_at m p (tr_container r) \<noteq> None"
  shows "case remove_offered p rs removed m of
      (Ok out, m') \<Rightarrow> goods_total mu out + inventories_total mu m' = goods_total mu removed + inventories_total mu m \<and>
         room p out m' \<and> map fst out = map fst removed @ rs
    | (Inl e, m') \<Rightarrow> inventories_total mu m' = goods_total mu removed + inventories_total mu m"
  using assms
proof (induction rs arbitrary: removed m)
  case (Cons r rs)
  from Cons.prems(3) obtain c where c: "window_at m p (tr_container r) = Some c" by auto
  show ?case
  proof (cases "container_remove (pc_items c) (tr_index r)")
    case None
    then show ?thesis by (simp add: remove_offered_Cons c restore_items_room [OF Cons.prems(2)])
  next
    case (Some x)
    obtain it items where x: "x = (it, items)" by (rule prod.exhaust)
    note rm = Some [unfolded x]
    let ?m = "set_window p (tr_container r) (c\<lparr>pc_items := items\<rparr>) m"
    have "inventories_wf ?m"
      by (rule set_window_wf [OF Cons.prems(1) c removed_window(2) [OF Cons.prems(1) c rm]])
    moreover have "room p (removed @ [(r, it)]) ?m" by (rule room_removed [OF Cons.prems(2,1) c rm])
    moreover have "\<forall>r \<in> set rs. window_at ?m p (tr_container r) \<noteq> None"
      using Cons.prems(3) by (auto simp: window_at_set_window [OF c])
    ultimately show ?thesis
      using Cons.IH [of ?m "removed @ [(r, it)]"] rm
      by (simp add: remove_offered_Cons c ac_simps split: prod.splits sum.splits
          flip: set_window_removed [OF c rm, of mu])
  qed
qed simp

text \<open>Which players a pass touches.\<close>

definition only_touches :: "nat set \<Rightarrow> inventories \<Rightarrow> inventories \<Rightarrow> bool" where
  "only_touches ps m m' \<longleftrightarrow> (\<forall>q. q \<notin> ps \<longrightarrow> bt_get m' q = bt_get m q)"

lemma only_touches_refl [simp]: "only_touches ps m m"
  by (simp add: only_touches_def)

lemma only_touches_trans: "only_touches ps m m' \<Longrightarrow> only_touches qs m' m'' \<Longrightarrow> only_touches (ps \<union> qs) m m''"
  by (simp add: only_touches_def)

lemma only_touches_again: "only_touches ps m m' \<Longrightarrow> only_touches ps m' m'' \<Longrightarrow> only_touches ps m m''"
  by (simp add: only_touches_def)

lemma set_window_owners [simp]:
  "same_owners m (set_window p cid c m) \<longleftrightarrow> inventories_wf (set_window p cid c m)"
  unfolding same_owners_def dom_set_window by simp

lemma only_touches_set_window [simp]: "only_touches {p} m (set_window p cid c m)"
  by (simp add: only_touches_def set_window_other)

lemma restore_items_touches: "only_touches {p} m (restore_items p goods m)"
proof -
  have one: "only_touches {p} m (restore_one p g m)" for g m
    by (simp add: restore_one_window split: option.split sum.split)
  have "only_touches {p} m (fold (restore_one p) gs m)" for gs m
  proof (induction gs arbitrary: m)
    case (Cons g gs)
    from only_touches_trans [OF one Cons] show ?case by simp
  qed simp
  then show ?thesis by (simp add: restore_items_def)
qed

lemma remove_offered_touches: "only_touches {p} m (snd (remove_offered p rs removed m))"
proof (induction rs arbitrary: removed m)
  case (Cons r rs)
  show ?case
  proof (cases "window_at m p (tr_container r)")
    case (Some c)
    then show ?thesis
      using restore_items_touches [of p m removed] only_touches_again [OF only_touches_set_window Cons.IH]
      by (auto simp: remove_offered_Cons split: option.split)
  qed (simp add: remove_offered_Cons)
qed simp

lemma room_touches: "only_touches qs m m' \<Longrightarrow> p \<notin> qs \<Longrightarrow> room p goods m' \<longleftrightarrow> room p goods m"
  by (simp add: only_touches_def room_def window_at_def)

section \<open>Delivering\<close>

lemma deliver_one_outcome:
  assumes "inventories_wf m" and "item_wf it" and "deliver_one p it cids m = (b, m')"
  shows "same_owners m m' \<and> only_touches {p} m m' \<and> (\<not> b \<longrightarrow> m' = m)"
  using assms(3)
proof (induction cids)
  case (Cons cid cids)
  show ?case
  proof (cases "window_at m p cid")
    case (Some c)
    note w = window_at_wf [OF assms(1) Some]
    show ?thesis
    proof (cases "merge_or_insert_stack (pc_items c) it")
      case (Inr x)
      obtain r items where x: "x = (r, items)" by (rule prod.exhaust)
      have "inventories_wf (set_window p cid (c\<lparr>pc_items := items\<rparr>) m)"
        by (rule set_window_wf [OF assms(1) Some merge_wf [OF Inr [unfolded x] w assms(2)]])
      with Cons.prems Some Inr x show ?thesis by (auto simp: deliver_one_Cons [OF assms(1)])
    qed (use Cons Some in \<open>simp add: deliver_one_Cons [OF assms(1)]\<close>)
  qed (use Cons in \<open>simp add: deliver_one_Cons [OF assms(1)]\<close>)
qed (use assms(1) in \<open>simp add: same_owners_def\<close>)

declare deliver.simps(2) [simp del]

lemma deliver_Cons:
  "deliver p (it # its) m =
     (let (placed, m1) = deliver_one p it (case bt_get m p of None \<Rightarrow> [] | Some cs \<Rightarrow> bt_keys cs) m
      in if placed then deliver p its m1 else (Inl (no_space p), m1))"
  by (simp add: deliver.simps(2) Let_def)

lemma deliver_outcome:
  assumes "inventories_wf m" and "\<forall>it \<in> set its. item_wf it"
  shows "same_owners m (snd (deliver p its m)) \<and> only_touches {p} m (snd (deliver p its m)) \<and>
    (\<forall>e. fst (deliver p its m) = Inl e \<longrightarrow> e = no_space p)"
  using assms
proof (induction its arbitrary: m)
  case (Cons it its)
  obtain b m1 where d: "deliver_one p it (case bt_get m p of None \<Rightarrow> [] | Some cs \<Rightarrow> bt_keys cs) m = (b, m1)"
    by (rule prod.exhaust)
  have o: "same_owners m m1" "only_touches {p} m m1" and it: "item_wf it"
    using deliver_one_outcome [OF Cons.prems(1) _ d] Cons.prems(2) by auto
  then have "inventories_wf m1" by (simp add: same_owners_def)
  from Cons.IH [OF this] Cons.prems(2) o only_touches_again [OF o(2)] show ?case
    by (auto simp: deliver_Cons d same_owners_def)
qed (simp add: same_owners_def)

context stack_measure
begin

lemma set_window_merge:
  assumes "window_at m p cid = Some c" and "merge_or_insert_stack (pc_items c) it = Ok (r, items)"
  shows "inventories_total mu (set_window p cid (c\<lparr>pc_items := items\<rparr>) m) = mu it + inventories_total mu m"
proof -
  obtain rest where "inventories_total mu m = window_total mu c + rest"
    "\<And>c'. inventories_total mu (set_window p cid c' m) = window_total mu c' + rest"
    by (rule set_window_total [OF assms(1)]) blast
  then show ?thesis using total_merge [OF assms(2)] by (simp add: ac_simps)
qed

lemma deliver_one_total:
  assumes "inventories_wf m" and "deliver_one p it cids m = (True, m')"
  shows "inventories_total mu m' = mu it + inventories_total mu m"
  using assms(2)
  by (induction cids)
    (auto simp: deliver_one_Cons [OF assms(1)] dest: set_window_merge split: option.splits sum.splits)

text \<open>A complete delivery adds all the goods; a failed one has delivered a proper prefix of them.\<close>

lemma deliver_total:
  assumes "inventories_wf m" and "\<forall>it \<in> set its. item_wf it"
  shows "case deliver p its m of
      (Ok u, m') \<Rightarrow> inventories_total mu m' = sum_list (map mu its) + inventories_total mu m
    | (Inl e, m') \<Rightarrow> \<exists>given rest. its = given @ rest \<and> rest \<noteq> [] \<and>
         inventories_total mu m' = sum_list (map mu given) + inventories_total mu m"
  using assms
proof (induction its arbitrary: m)
  case (Cons it its)
  obtain b m1 where d: "deliver_one p it (case bt_get m p of None \<Rightarrow> [] | Some cs \<Rightarrow> bt_keys cs) m = (b, m1)"
    by (rule prod.exhaust)
  have o: "inventories_wf m1" "\<not> b \<Longrightarrow> m1 = m"
    using deliver_one_outcome [OF Cons.prems(1) _ d] Cons.prems(2) by (auto simp: same_owners_def)
  show ?case
  proof (cases b)
    case False
    with o have "m1 = m" by simp
    with False d show ?thesis
      by (simp add: deliver_Cons) (rule exI [of _ "[]"], simp)
  next
    case True
    have t: "inventories_total mu m1 = mu it + inventories_total mu m"
      by (rule deliver_one_total [OF Cons.prems(1)]) (use d True in simp)
    note ih = Cons.IH [OF o(1)]
    show ?thesis
    proof (cases "deliver p its m1")
      case (Pair r m2)
      show ?thesis
      proof (cases r)
        case (Inl e)
        with Pair ih Cons.prems(2) obtain ds rest where "its = ds @ rest" "rest \<noteq> []"
          "inventories_total mu m2 = sum_list (map mu ds) + inventories_total mu m1" by auto
        then have "it # its = (it # ds) @ rest \<and> rest \<noteq> [] \<and>
            inventories_total mu m2 = sum_list (map mu (it # ds)) + inventories_total mu m"
          by (simp add: t ac_simps)
        then have "\<exists>given rest. it # its = given @ rest \<and> rest \<noteq> [] \<and>
            inventories_total mu m2 = sum_list (map mu given) + inventories_total mu m" by (intro exI)
        with Pair Inl d True show ?thesis by (simp add: deliver_Cons)
      next
        case (Inr u)
        with Pair ih Cons.prems(2) d t True show ?thesis by (simp add: deliver_Cons ac_simps)
      qed
    qed
  qed
qed simp

end

section \<open>The three passes together\<close>

lemma resolved_refs:
  assumes "traverse (resolve_ref m p) rs = Ok ra"
  shows "map fst ra = rs" and "\<forall>r \<in> set rs. window_at m p (tr_container r) \<noteq> None"
proof -
  from assms have l: "list_all2 (\<lambda>r x. resolve_ref m p r = Ok x) rs ra" by (simp add: traverse_Inr_iff)
  have one: "fst x = r \<and> window_at m p (tr_container r) \<noteq> None" if "resolve_ref m p r = Ok x" for r x
    using that by (auto simp: resolve_ref_def window_at_def split: option.splits)
  show "map fst ra = rs" using l by induction (auto dest: one)
  show "\<forall>r \<in> set rs. window_at m p (tr_container r) \<noteq> None" using l by induction (auto dest: one)
qed

lemma window_at_touches: "only_touches qs m m' \<Longrightarrow> p \<notin> qs \<Longrightarrow> window_at m' p cid = window_at m p cid"
  by (simp add: only_touches_def window_at_def)

lemma room_Nil [simp]: "room p [] m"
  by (simp add: room_def)

lemma map_snd_total: "sum_list (map mu (map snd goods)) = goods_total mu goods"
  by (simp add: goods_total_def)

text \<open>Where the passes can end.\<close>

lemma swap_offers_cases:
  assumes "swap_offers s m = (r, m')"
  obtains (unresolved) e where "r = Inl e" and "m' = m"
    | (missing_a) e where "r = Inl e" and "\<forall>r \<in> set (ts_initiator_items s). window_at m (ts_initiator s) (tr_container r) \<noteq> None"
        and "remove_offered (ts_initiator s) (ts_initiator_items s) [] m = (Inl e, m')"
    | (resolved) ga m1 y m2 where
        "\<forall>r \<in> set (ts_initiator_items s). window_at m (ts_initiator s) (tr_container r) \<noteq> None"
        and "\<forall>r \<in> set (ts_counterparty_items s). window_at m (ts_counterparty s) (tr_container r) \<noteq> None"
        and "remove_offered (ts_initiator s) (ts_initiator_items s) [] m = (Ok ga, m1)"
        and "remove_offered (ts_counterparty s) (ts_counterparty_items s) [] m1 = (y, m2)"
        and "(r, m') = (case y of Inl e \<Rightarrow> (Inl e, restore_items (ts_initiator s) ga m2)
          | Inr gb \<Rightarrow> chain (deliver (ts_initiator s) (map snd gb) m2) (\<lambda>_ m3.
              chain (deliver (ts_counterparty s) (map snd ga) m3) (\<lambda>_ m4. (Ok (map snd ga, map snd gb), m4))))"
proof -
  let ?a = "ts_initiator s" and ?b = "ts_counterparty s"
  show thesis
  proof (cases "traverse (resolve_ref m ?a) (ts_initiator_items s)")
    case (Inl e)
    with assms show thesis by (intro unresolved [of e]) (simp_all add: swap_offers_def)
  next
    case (Inr ra)
    note ra = Inr and a = resolved_refs [OF Inr]
    show thesis
    proof (cases "traverse (resolve_ref m ?b) (ts_counterparty_items s)")
      case (Inl e)
      with assms ra show thesis by (intro unresolved [of e]) (simp_all add: swap_offers_def)
    next
      case (Inr rb)
      note b = resolved_refs [OF Inr]
      obtain x m1 where A: "remove_offered ?a (ts_initiator_items s) [] m = (x, m1)" by (rule prod.exhaust)
      show thesis
      proof (cases x)
        case (Inl e)
        with A ra Inr assms a b(1) show thesis by (intro missing_a [of e]) (simp_all add: swap_offers_def)
      next
        case (Inr ga)
        obtain y m2 where B: "remove_offered ?b (ts_counterparty_items s) [] m1 = (y, m2)" by (rule prod.exhaust)
        show thesis
          by (rule resolved [OF a(2) b(2) A [unfolded Inr] B])
            (use assms ra \<open>traverse _ (ts_counterparty_items s) = Ok rb\<close> a(1) b(1) A B Inr in
              \<open>cases y; simp add: swap_offers_def\<close>)
      qed
    qed
  qed
qed

lemma goods_total_comp [simp]: "sum_list (map (mu \<circ> snd) goods) = goods_total mu goods"
  by (simp add: goods_total_def)

lemma swap_offers_owners:
  assumes "inventories_wf m" and "swap_offers s m = (r, m')"
  shows "same_owners m m' \<and> only_touches {ts_initiator s, ts_counterparty s} m m'"
proof -
  let ?a = "ts_initiator s" and ?b = "ts_counterparty s"
  let ?P = "\<lambda>m'. same_owners m m' \<and> only_touches {?a, ?b} m m'"
  have P0: "?P m" using assms(1) by (simp add: same_owners_def)
  have step: "?P m2" if "?P m1" "same_owners m1 m2 \<and> only_touches {q} m1 m2" "q = ?a \<or> q = ?b" for m1 m2 q
    using that by (auto simp: same_owners_def only_touches_def)
  have wf: "inventories_wf m1" if "?P m1" for m1 using that by (simp add: same_owners_def)
  have rem: "?P m2 \<and> (\<forall>gs. x = Ok gs \<longrightarrow> (\<forall>g \<in> set gs. item_wf (snd g)))"
    if "?P m1" "remove_offered q rs [] m1 = (x, m2)" "q = ?a \<or> q = ?b" for m1 m2 q rs x
    using step [OF that(1) _ that(3), of m2] that(2) remove_offered_owners(1) [OF wf [OF that(1)], of "[]" q rs]
      remove_offered_touches [of q m1 rs "[]"] remove_offered_owners(2) [OF wf [OF that(1)], of "[]" q rs]
    by auto
  have del: "?P (snd (deliver q its m1))" if "?P m1" "\<forall>it \<in> set its. item_wf it" "q = ?a \<or> q = ?b" for m1 q its
    using step [OF that(1) _ that(3)] deliver_outcome [OF wf [OF that(1)] that(2)] by blast
  show ?thesis
    using assms(2)
  proof (cases rule: swap_offers_cases)
    case (missing_a e)
    from rem [OF P0 missing_a(3)] show ?thesis by blast
  next
    case (resolved ga m1 y m2)
    from rem [OF P0 resolved(3)] have P1: "?P m1" and ga: "\<forall>g \<in> set ga. item_wf (snd g)" by auto
    from rem [OF P1 resolved(4)] have P2: "?P m2" and gb: "\<And>gb. y = Ok gb \<Longrightarrow> \<forall>g \<in> set gb. item_wf (snd g)"
      by auto
    show ?thesis
    proof (cases y)
      case (Inl e)
      then show ?thesis
        using resolved(5) step [OF P2, of _ ?a] restore_items_owners [OF wf [OF P2] ga] restore_items_touches
        by auto
    next
      case (Inr gb)
      obtain u m3 where D: "deliver ?a (map snd gb) m2 = (u, m3)" by (rule prod.exhaust)
      have P3: "?P m3" using del [OF P2, of "map snd gb" ?a] gb [OF Inr] D by simp
      obtain v m4 where E: "deliver ?b (map snd ga) m3 = (v, m4)" by (rule prod.exhaust)
      have "?P m4" using del [OF P3, of "map snd ga" ?b] ga E by simp
      with P3 resolved(5) Inr D E show ?thesis by (cases u; cases v) simp_all
    qed
  qed (use P0 in simp)
qed

text \<open>A completed swap keeps the total of any measure that stacks respect; so does a swap that stops
  before the delivery. A failed delivery loses the goods that were still to be delivered.\<close>

context stack_measure
begin

lemma swap_offers_total:
  assumes "inventories_wf m" and "ts_initiator s \<noteq> ts_counterparty s" and "swap_offers s m = (r, m')"
  shows "case r of
      Ok (ga, gb) \<Rightarrow> inventories_total mu m' = inventories_total mu m \<and>
         length ga = length (ts_initiator_items s) \<and> length gb = length (ts_counterparty_items s)
    | Inl e \<Rightarrow> inventories_total mu m' = inventories_total mu m \<or>
         (e = no_space (ts_initiator s) \<or> e = no_space (ts_counterparty s)) \<and>
         (\<exists>lost. lost \<noteq> [] \<and> inventories_total mu m' + sum_list (map mu lost) = inventories_total mu m)"
  using assms(3)
proof (cases rule: swap_offers_cases)
  case (missing_a e)
  with remove_offered_total [OF assms(1) room_Nil missing_a(2), of mu] show ?thesis by simp
next
  case (resolved ga m1 y m2)
  let ?a = "ts_initiator s" and ?b = "ts_counterparty s"
  have m1: "inventories_wf m1" "only_touches {?a} m m1" and ga: "\<forall>g \<in> set ga. item_wf (snd g)"
    using remove_offered_owners(1) [OF assms(1), of "[]" ?a "ts_initiator_items s"]
      remove_offered_touches [of ?a m "ts_initiator_items s" "[]"]
      remove_offered_owners(2) [OF assms(1) _ resolved(3)] resolved(3) by (simp_all add: same_owners_def)
  have m2: "inventories_wf m2" "only_touches {?b} m1 m2"
    using remove_offered_owners(1) [OF m1(1), of "[]" ?b "ts_counterparty_items s"]
      remove_offered_touches [of ?b m1 "ts_counterparty_items s" "[]"] resolved(4) by (simp_all add: same_owners_def)
  have A: "goods_total mu ga + inventories_total mu m1 = inventories_total mu m" "room ?a ga m1"
    "map fst ga = ts_initiator_items s"
    using remove_offered_total [OF assms(1) room_Nil resolved(1), of mu] resolved(3) by simp_all
  have "\<forall>r \<in> set (ts_counterparty_items s). window_at m1 ?b (tr_container r) \<noteq> None"
    using resolved(2) window_at_touches [OF m1(2)] assms(2) by simp
  note B = remove_offered_total [OF m1(1) room_Nil this, of mu]
  show ?thesis
  proof (cases y)
    case (Inl e)
    have "room ?a ga m2" using A(2) room_touches [OF m2(2)] assms(2) by simp
    from restore_items_room [OF this, of mu] A(1) B resolved(4,5) Inl show ?thesis by simp
  next
    case (Inr gb)
    have gb: "\<forall>it \<in> set (map snd gb). item_wf it"
      using remove_offered_owners(2) [OF m1(1) _ resolved(4) [unfolded Inr]] by auto
    have B': "goods_total mu gb + inventories_total mu m2 = inventories_total mu m1"
      "map fst gb = ts_counterparty_items s" using B resolved(4) Inr by simp_all
    have len: "length ga = length (ts_initiator_items s)" "length gb = length (ts_counterparty_items s)"
      using A(3) B'(2) by (metis length_map)+
    obtain u m3 where D: "deliver ?a (map snd gb) m2 = (u, m3)" by (rule prod.exhaust)
    note d = deliver_total [OF m2(1) gb, of ?a] deliver_outcome [OF m2(1) gb, of ?a]
    show ?thesis
    proof (cases u)
      case (Inl e)
      with d D obtain given rest where g: "map snd gb = given @ rest" "rest \<noteq> []"
        "inventories_total mu m3 = sum_list (map mu given) + inventories_total mu m2" "e = no_space ?a" by auto
      have "goods_total mu gb = sum_list (map mu given) + sum_list (map mu rest)"
        using g(1) map_snd_total [of mu gb] by simp
      then have "inventories_total mu m3 + sum_list (map mu (rest @ map snd ga)) = inventories_total mu m"
        unfolding map_append sum_list_append map_snd_total by (simp add: g(3) ac_simps flip: A(1) B'(1))
      then have "\<exists>lost. lost \<noteq> [] \<and> inventories_total mu m3 + sum_list (map mu lost) = inventories_total mu m"
        using g(2) by (intro exI [of _ "rest @ map snd ga"]) simp
      with resolved(5) Inr Inl D g(4) show ?thesis by simp
    next
      case (Inr u')
      with d D have t3: "inventories_total mu m3 = goods_total mu gb + inventories_total mu m2"
        and m3: "inventories_wf m3" by (simp_all add: map_snd_total same_owners_def)
      obtain v m4 where E: "deliver ?b (map snd ga) m3 = (v, m4)" by (rule prod.exhaust)
      have gs: "\<forall>it \<in> set (map snd ga). item_wf it" using ga by auto
      note e = deliver_total [OF m3 gs, of ?b] deliver_outcome [OF m3 gs, of ?b]
      show ?thesis
      proof (cases v)
        case (Inl err)
        with e E obtain given rest where g: "map snd ga = given @ rest" "rest \<noteq> []"
          "inventories_total mu m4 = sum_list (map mu given) + inventories_total mu m3" "err = no_space ?b" by auto
        have "goods_total mu ga = sum_list (map mu given) + sum_list (map mu rest)"
          using g(1) map_snd_total [of mu ga] by simp
        then have "inventories_total mu m4 + sum_list (map mu rest) = inventories_total mu m"
          by (simp add: g(3) t3 ac_simps flip: A(1) B'(1))
        then have "\<exists>lost. lost \<noteq> [] \<and> inventories_total mu m4 + sum_list (map mu lost) = inventories_total mu m"
          using g(2) by (intro exI [of _ rest]) simp
        with resolved(5) \<open>y = Ok gb\<close> Inr Inl D E g(4) show ?thesis by simp
      next
        case (Inr v')
        with e E have "inventories_total mu m4 = goods_total mu ga + inventories_total mu m3"
          by (simp add: map_snd_total)
        then have "inventories_total mu m4 = inventories_total mu m"
          by (simp add: t3 ac_simps flip: A(1) B'(1))
        with resolved(5) \<open>y = Ok gb\<close> \<open>u = Ok u'\<close> Inr D E len show ?thesis by simp
      qed
    qed
  qed
qed simp

end

section \<open>The operations on the world\<close>

lemma with_inventories_wf:
  "world_wf w \<Longrightarrow> same_owners (w_containers w) m \<Longrightarrow> world_wf (with_inventories w m)"
  by (simp add: with_inventories_def same_owners_def inventories_wf_def tracks_def world_simps)
    (metis world_wf_tables(9) tracks_def world_wf_update(12))

lemma inventories_wf_world: "world_wf w \<Longrightarrow> inventories_wf (w_containers w)"
  by (simp add: inventories_wf_def world_simps)

lemma trade_sessions_wf:
  assumes "world_wf w"
  shows "world_wf (snd (open_player_trade a b w))" and "world_wf (snd (stage_trade_item p r w))"
    and "world_wf (snd (unstage_trade_item p r w))" and "world_wf (snd (accept_player_trade p w))"
    and "world_wf (snd (cancel_player_trade p w))"
  using assms
  by (auto simp: open_player_trade_def stage_trade_item_def unstage_trade_item_def accept_player_trade_def
      cancel_player_trade_def store_trade_def attempt_def Let_def split: sum.split option.split)

text \<open>The two ways an execution goes: refused before anything is touched, or through the passes.\<close>

lemma execute_player_trade_cases:
  assumes "execute_player_trade p w = (r, w')"
  obtains (refused) "r = Inl (social_fault (NoActiveTrade p))" and "w' = w"
    | (passes) s x m where "player_trade w p = Some s" and "ts_initiator_accepted s" and "ts_counterparty_accepted s"
        and "swap_offers s (w_containers w) = (x, m)"
        and "case x of Inl e \<Rightarrow> r = Inl e \<and> w' = with_inventories w m
          | Inr (ga, gb) \<Rightarrow> r = Ok \<lparr>te_initiator = ts_initiator s, te_counterparty = ts_counterparty s,
                 te_initiator_gave = ga, te_counterparty_gave = gb\<rparr> \<and>
              w' = mark_changed ((with_inventories w m)
               \<lparr>trades := bt_remove (ts_counterparty s) (bt_remove (ts_initiator s) (trades w))\<rparr>)"
proof (cases "player_trade w p")
  case None
  with assms show thesis by (intro refused) (simp_all add: execute_player_trade_def)
next
  case (Some s)
  show thesis
  proof (cases "ts_initiator_accepted s \<and> ts_counterparty_accepted s")
    case False
    with Some assms show thesis by (intro refused) (auto simp: execute_player_trade_def)
  next
    case True
    obtain x m where "swap_offers s (w_containers w) = (x, m)" by (rule prod.exhaust)
    from passes [OF Some _ _ this] True Some assms this show thesis
      by (auto simp: execute_player_trade_def split: sum.splits)
  qed
qed

lemma execute_player_trade_wf:
  assumes "world_wf w"
  shows "world_wf (snd (execute_player_trade p w))"
proof -
  obtain r w' where e: "execute_player_trade p w = (r, w')" by (rule prod.exhaust)
  from e have "world_wf w'"
  proof (cases rule: execute_player_trade_cases)
    case (passes s x m)
    from with_inventories_wf [OF assms] swap_offers_owners [OF inventories_wf_world [OF assms] passes(4)] passes(5)
    show ?thesis by (auto split: sum.splits)
  qed (use assms in simp)
  with e show ?thesis by simp
qed

lemma player_trade_ok:
  "trades_wf w \<Longrightarrow> player_trade w p = Some s \<Longrightarrow>
     session_ok (ts_initiator s) s \<and> bt_get (trades w) (ts_initiator s) = Some s"
  by (auto simp: player_trade_def trades_wf_def session_ok_def dest!: find_counterparty_Some split: option.splits)

lemma execute_keeps_trades:
  assumes "trades_wf w"
  shows "trades_wf (snd (execute_player_trade p w))"
proof -
  obtain r w' where e: "execute_player_trade p w = (r, w')" by (rule prod.exhaust)
  from e have "trades_wf w'"
    by (cases rule: execute_player_trade_cases)
      (use assms in \<open>auto simp: trades_wf_def with_inventories_def mark_changed_def bt_get_remove split: sum.splits if_splits\<close>)
  with e show ?thesis by simp
qed

end
