(* ===== verification/World_Machine.thy ===== *)
theory World_Machine
  imports Vitals_Ops Condition_Ops Combat_Ops Movement Generic_Move Trade
begin

text \<open>
  The operations on players as one machine: a command for every public operation of \<open>WorldState\<close> that
  changes players, their tables, parties, items or trades, the execution of a command by the operation of
  the component it belongs to, and the invariant of the whole world over every sequence of these
  commands. The operations on static creatures (\<open>world_static.rs\<close>) are the commands of \<open>Engine\<close>, which
  joins both. The shorthands \<open>add_player\<close>, \<open>add_player_with_vitals\<close> and \<open>award_player_experience\<close> are
  calls of \<open>Join\<close> and \<open>Award\<close> with default arguments; \<open>active_trade_entry_mut\<close> hands out a reference that
  only \<open>world_trade.rs\<close> itself uses. The map and the \<open>f64\<close> curve of the progression requirements are
  the environment a run shares.
\<close>

section \<open>Commands\<close>

datatype item_command =
  Stow equipment_slot nat
| Draw nat nat equipment_slot
| Draw_Content nat nat nat equipment_slot
| Move_Content nat nat nat nat
| Exchange nat nat equipment_slot
| Swap_Slots equipment_slot equipment_slot
| Consume_Slot equipment_slot
| Consume_Entry nat nat
| Stow_Stack equipment_slot nat nat
| Draw_Stack nat nat equipment_slot nat
| Move_Stack nat nat nat nat
| Drop drop_source nat
| Generic move_plan

fun exec_item :: "nat \<Rightarrow> item_command \<Rightarrow> unit action" where
  "exec_item p (Stow slot cid) w = discard (move_equipment_item_to_container p slot cid w)"
| "exec_item p (Draw cid i slot) w = discard (move_container_item_to_equipment p cid i slot w)"
| "exec_item p (Draw_Content cid i j slot) w = discard (move_content_item_to_equipment p cid i j slot w)"
| "exec_item p (Move_Content cid i j to) w = move_content_item_to_container p cid i j to w"
| "exec_item p (Exchange cid i slot) w = discard (swap_container_item_with_equipment p cid i slot w)"
| "exec_item p (Swap_Slots a b) w = discard (swap_equipment_items p a b w)"
| "exec_item p (Consume_Slot slot) w = discard (consume_player_equipment_item_unit p slot w)"
| "exec_item p (Consume_Entry cid i) w = discard (consume_player_container_item_unit p cid i w)"
| "exec_item p (Stow_Stack slot cid n) w = discard (move_equipment_stack_to_container p slot cid n w)"
| "exec_item p (Draw_Stack cid i slot n) w = discard (move_container_stack_to_equipment p cid i slot n w)"
| "exec_item p (Move_Stack a i b n) w = discard (move_container_stack_to_container p a i b n w)"
| "exec_item p (Drop src n) w = discard (take_player_stack_for_ground_drop p src n w)"
| "exec_item p (Generic plan) w = discard (execute_generic_inventory_move p plan w)"

lemma exec_item_wf: "world_wf w \<Longrightarrow> world_wf (snd (exec_item p c w))"
  by (cases c) (simp_all add: transfers_wf move_content_item_to_container_wf execute_generic_inventory_move_wf)

datatype trade_command =
  Open_Trade nat nat
| Stage nat trade_reference
| Unstage nat trade_reference
| Accept nat
| Cancel nat
| Execute nat

fun exec_trade :: "trade_command \<Rightarrow> unit action" where
  "exec_trade (Open_Trade a b) w = discard (open_player_trade a b w)"
| "exec_trade (Stage p r) w = discard (stage_trade_item p r w)"
| "exec_trade (Unstage p r) w = unstage_trade_item p r w"
| "exec_trade (Accept p) w = discard (accept_player_trade p w)"
| "exec_trade (Cancel p) w = (Ok (), snd (cancel_player_trade p w))"
| "exec_trade (Execute p) w = discard (execute_player_trade p w)"

lemma exec_trade_wf: "world_wf w \<Longrightarrow> world_wf (snd (exec_trade c w))"
  by (cases c) (simp_all add: trade_sessions_wf execute_player_trade_wf)

lemma exec_trade_sessions: "trades_wf w \<Longrightarrow> trades_wf (snd (exec_trade c w))"
  by (cases c) (simp_all add: sessions_keep_shape execute_keeps_trades)

datatype world_command =
  Advance nat
| Join player player_vitals player_progression
| Remove nat
| Award nat nat award_policy level_up_gains
| Target nat "nat option"
| Follow nat "nat option"
| Target_Creature nat "nat option"
| Fight_Mode nat fight_mode_state
| Set_Defense nat nat
| Set_Attempts nat progression_attempts
| Set_Equipment nat player_equipment
| Set_Containers nat player_containers
| Load_Containers nat player_containers
| Party party_command
| Set_Vitals nat player_vitals
| Eat nat nat
| God_Mode nat bool
| Invisible nat bool
| Regenerate nat regeneration_rules nat
| Set_Progression nat player_progression
| Train nat player_skill nat progression_rules
| Spend_Mana nat nat progression_rules
| Set_Conditions nat condition_set
| Afflict nat player_condition
| Haste_For nat nat nat
| Heartbeat nat nat
| Mortal_Heartbeat nat nat nat
| Set_Town nat nat
| Hydrate_Respawn nat respawn_state
| Die nat nat
| Death_Loss nat nat progression_rules
| Respawn nat
| Damage nat nat nat
| Bare_Damage nat nat
| Melee nat nat nat
| Combat combat_event
| Cast spell_event
| Walk nat position
| Walk_Cardinal nat cardinal_direction
| Teleport nat position
| Follow_Pass
| Item nat item_command
| Trade_Step trade_command

text \<open>\<open>fs\<close> scales requirements, \<open>m\<close> is the loaded map.\<close>

fun exec_world :: "float_scale \<Rightarrow> world_map \<Rightarrow> world_command \<Rightarrow> unit action" where
  "exec_world fs m (Advance n) w = (Ok (), snd (advance_ticks n w))"
| "exec_world fs m (Join pl v pr) w = add_player_with_vitals_and_progression pl v pr w"
| "exec_world fs m (Remove p) w = discard (remove_player p w)"
| "exec_world fs m (Award p raw pol g) w = discard (award_player_experience_with_vocation_gains p raw pol g w)"
| "exec_world fs m (Target p t) w = discard (set_player_target p t w)"
| "exec_world fs m (Follow p t) w = discard (set_player_follow p t w)"
| "exec_world fs m (Target_Creature p c) w = discard (set_player_static_target p c w)"
| "exec_world fs m (Fight_Mode p st) w = discard (replace_player_fight_mode_state p st w)"
| "exec_world fs m (Set_Defense p d) w = discard (replace_player_combat_defense p d w)"
| "exec_world fs m (Set_Attempts p a) w = discard (replace_player_progression_attempts p a w)"
| "exec_world fs m (Set_Equipment p eq) w = discard (replace_player_equipment p eq w)"
| "exec_world fs m (Set_Containers p cs) w = discard (replace_player_containers p cs w)"
| "exec_world fs m (Load_Containers p cs) w = discard (replace_player_containers_quiet p cs w)"
| "exec_world fs m (Party c) w = exec_party c w"
| "exec_world fs m (Set_Vitals p v) w = update_player_vitals p v w"
| "exec_world fs m (Eat p n) w = discard (grant_player_food_window p n w)"
| "exec_world fs m (God_Mode p b) w = discard (set_player_god_mode p b w)"
| "exec_world fs m (Invisible p b) w = discard (set_player_invisible p b w)"
| "exec_world fs m (Regenerate p r e) w = discard (apply_player_regeneration p r e w)"
| "exec_world fs m (Set_Progression p pr) w = discard (replace_player_progression p pr w)"
| "exec_world fs m (Train p s n r) w = discard (apply_player_skill_tries fs p s n r w)"
| "exec_world fs m (Spend_Mana p n r) w = discard (apply_player_magic_mana fs p n r w)"
| "exec_world fs m (Set_Conditions p cs) w = discard (replace_player_conditions p cs w)"
| "exec_world fs m (Afflict p c) w = discard (apply_player_condition p c w)"
| "exec_world fs m (Haste_For p b r) w = discard (apply_player_speed_condition p b r w)"
| "exec_world fs m (Heartbeat p e) w = discard (apply_player_conditions p e w)"
| "exec_world fs m (Mortal_Heartbeat p t e) w = discard (apply_player_conditions_with_death p t m e w)"
| "exec_world fs m (Set_Town p t) w = discard (replace_player_town p t w)"
| "exec_world fs m (Hydrate_Respawn p st) w = discard (hydrate_player_respawn_state p st w)"
| "exec_world fs m (Die p t) w = discard (apply_player_death p t m w)"
| "exec_world fs m (Death_Loss p k r) w = discard (apply_fixed_percent_death_loss fs p k r w)"
| "exec_world fs m (Respawn p) w = discard (respawn_player p w)"
| "exec_world fs m (Damage a t n) w = discard (apply_player_damage a t n w)"
| "exec_world fs m (Bare_Damage t n) w = discard (apply_damage_to_known_target t n w)"
| "exec_world fs m (Melee a t n) w = discard (apply_player_melee_damage a t n w)"
| "exec_world fs m (Combat ev) w = discard (apply_player_combat_event ev w)"
| "exec_world fs m (Cast ev) w = discard (apply_player_spell_cast_event ev w)"
| "exec_world fs m (Walk p q) w = move_player p q w"
| "exec_world fs m (Walk_Cardinal p d) w = discard (move_player_cardinal p d w)"
| "exec_world fs m (Teleport p q) w = discard (teleport_player p q w)"
| "exec_world fs m Follow_Pass w = discard (follow_player_targets_once m w)"
| "exec_world fs m (Item p c) w = exec_item p c w"
| "exec_world fs m (Trade_Step c) w = exec_trade c w"

text \<open>
  The arguments the Rust types or the constructors of the rule modules already bound: 16-bit vitals,
  conditions, equipment and containers built by their validating constructors.
\<close>

fun well_typed :: "world_command \<Rightarrow> bool" where
  "well_typed (Join pl v pr) \<longleftrightarrow> max_health v \<le> u16_max \<and> max_mana v \<le> u16_max"
| "well_typed (Set_Vitals p v) \<longleftrightarrow> max_health v \<le> u16_max \<and> max_mana v \<le> u16_max"
| "well_typed (Set_Equipment p eq) \<longleftrightarrow> equipment_wf eq"
| "well_typed (Set_Containers p cs) \<longleftrightarrow> containers_wf cs"
| "well_typed (Load_Containers p cs) \<longleftrightarrow> containers_wf cs"
| "well_typed (Set_Conditions p cs) \<longleftrightarrow> condition_set_wf cs"
| "well_typed (Afflict p c) \<longleftrightarrow> condition_wf c"
| "well_typed c \<longleftrightarrow> True"

section \<open>The invariant over every run\<close>

lemma exec_party_wf: "world_wf w \<Longrightarrow> world_wf (snd (exec_party c w))"
  by (simp add: party.exec_inv)

lemma advance_ticks_wf: "world_wf w \<Longrightarrow> world_wf (snd (advance_ticks n w))"
  by (simp add: advance_ticks_def Let_def)

lemmas world_command_wf =
  advance_ticks_wf add_player_wf remove_player_wf award_wf interaction_wf set_player_static_target_wf
  replacements_wf exec_party_wf vitals_flags_wf apply_player_regeneration_wf apply_player_skill_tries_wf
  apply_player_magic_mana_wf conditions_set_wf apply_player_conditions_wf
  apply_player_conditions_with_death_wf replace_player_town_wf hydrate_player_respawn_state_wf
  apply_player_death_wf apply_fixed_percent_death_loss_wf respawn_player_wf combat_wf move_player_wf
  move_player_cardinal_wf teleport_player_wf follow_pass_wf exec_item_wf exec_trade_wf

interpretation world: invariant_machine "exec_world fs m" world_wf well_typed for fs m
proof
  show "world_wf (snd (exec_world fs m c w))" if "well_typed c" and "world_wf w" for c w
    using that by (cases c) (simp_all add: world_command_wf apply_damage_wf [unfolded keeps_def] set_player_target_def set_player_follow_def)
qed

end
