(* ===== verification/Static_Creatures.thy ===== *)
theory Static_Creatures
  imports Combat_Ops Movement "HOL-Library.Word"
begin

text \<open>
  The life cycle of static creatures (\<open>crates/forgotten-core/src/world_static.rs\<close>): installation,
  operator summons, restart snapshots, display health, loot, defeat, reset and due reactivation. Every
  operation rebuilds the occupancy index as the source does; the lemmas show that the index and the
  creature table stay consistent.
\<close>

section \<open>Shared pieces\<close>

definition unplaced_origin :: position where
  "unplaced_origin = Position 0 0 0"

definition dynamic_id_base :: nat where
  "dynamic_id_base = 0x70000000"

definition entity_position :: "creature_runtime \<Rightarrow> position" where
  "entity_position rt = se_position (cr_entity rt)"

definition active_positions :: "(nat, creature_runtime) btmap \<Rightarrow> position btset" where
  "active_positions m = bs_of_list (map entity_position (filter cr_active (bt_vals m)))"

definition refresh_static_creature_occupancy :: "world_state \<Rightarrow> world_state" where
  "refresh_static_creature_occupancy w = w\<lparr>occupied := active_positions (creatures w)\<rparr>"

definition standing_tiles :: "world_state \<Rightarrow> position btset" where
  "standing_tiles w = bs_of_list (map pl_position (bt_vals (players w)))"

definition creature :: "world_state \<Rightarrow> nat \<Rightarrow> creature_runtime result" where
  "creature w c = ok_or (bt_get (creatures w) c) (unknown_creature c)"

definition put_creature :: "nat \<Rightarrow> creature_runtime \<Rightarrow> world_state \<Rightarrow> world_state" where
  "put_creature c rt w = w\<lparr>creatures := bt_insert c rt (creatures w)\<rparr>"

section \<open>Installation\<close>

definition placed_runtime :: "spawn_collection \<Rightarrow> nat \<Rightarrow> static_entity \<Rightarrow> creature_runtime" where
  "placed_runtime col now e =
     \<lparr>cr_entity = e, cr_is_npc = is_npc col (se_id e), cr_experience_reward = experience_reward col (se_id e),
      cr_loot = loot_table col (se_id e), cr_spawn_position = se_position e,
      cr_spawn_area = monster_spawn_area col (se_id e), cr_active = (se_position e \<noteq> unplaced_origin),
      cr_health_percent = se_health_percent e, cr_activated_at = now, cr_inactive_since = None,
      cr_reactivation_due = None, cr_respawn_interval = respawn_interval_seconds col (se_id e),
      cr_melee_cooldown = map_option (\<lambda>n. (n + 999) div 1000) (bt_get (sc_melee_intervals col) (se_id e)),
      cr_next_melee_due = now, cr_damage_range = bt_get (sc_damage_ranges col) (se_id e),
      cr_melee_condition = bt_get (sc_melee_conditions col) (se_id e), cr_damage_sequence = 0,
      cr_target = None\<rparr>"

fun install_loop ::
  "spawn_collection \<Rightarrow> world_state \<Rightarrow> static_entity list \<Rightarrow> (nat, creature_runtime) btmap \<Rightarrow>
     (nat, creature_runtime) btmap result" where
  "install_loop col w [] m = Ok m"
| "install_loop col w (e # es) m =
     (if blank (se_name e) then Inl (static_fault EmptyStaticSpawnName)
      else if bt_mem (se_id e) m then Inl (static_fault (DuplicateStaticSpawnId (se_id e)))
      else if is_player_occupied w (se_position e)
      then Inl (static_fault (PlayerOccupiesStaticCreaturePosition (se_position e)))
      else install_loop col w es (bt_insert (se_id e) (placed_runtime col (tick w) e) m))"

definition install_static_creatures :: "spawn_collection \<Rightarrow> unit action" where
  "install_static_creatures col w =
     (if length (sc_entities col) > max_tfs_static_spawns
      then (Inl (static_fault (StaticSpawnLimit max_tfs_static_spawns)), w)
      else attempt w (install_loop col w (sc_entities col) bt_empty) (\<lambda>m.
        (Ok (), mark_changed (refresh_static_creature_occupancy (w\<lparr>creatures := m\<rparr>)))))"

section \<open>Operator summons\<close>

definition summon_offsets :: "(int \<times> int) list" where
  "summon_offsets = [(0, 0), (1, 0), (-1, 0), (0, 1), (0, -1), (1, 1), (-1, -1), (1, -1), (-1, 1)]"

text \<open>\<open>(c as i32 + d).max(0) as u16\<close>: the cast keeps the low 16 bits.\<close>

definition shifted_coordinate :: "nat \<Rightarrow> int \<Rightarrow> nat" where
  "shifted_coordinate c d = nat (max 0 (int c + d)) mod 65536"

definition summon_candidate :: "position \<Rightarrow> int \<times> int \<Rightarrow> position" where
  "summon_candidate p d = Position (shifted_coordinate (pos_x p) (fst d)) (shifted_coordinate (pos_y p) (snd d)) (pos_z p)"

definition tile_taken :: "world_state \<Rightarrow> position \<Rightarrow> bool" where
  "tile_taken w q \<longleftrightarrow> is_player_occupied w q \<or>
     list_ex (\<lambda>rt. cr_active rt \<and> entity_position rt = q) (bt_vals (creatures w))"

text \<open>\<open>(BASE..).find(..)\<close>; among one more candidate than there are keys one is free.\<close>

fun first_free :: "(nat, 'v) btmap \<Rightarrow> nat \<Rightarrow> nat \<Rightarrow> nat option" where
  "first_free m 0 c = None"
| "first_free m (Suc n) c = (if bt_mem c m then first_free m n (c + 1) else Some c)"

definition summoned_runtime ::
  "creature_runtime \<Rightarrow> nat \<Rightarrow> position \<Rightarrow> nat \<Rightarrow> nat \<Rightarrow> creature_runtime" where
  "summoned_runtime template i p direction now =
     \<lparr>cr_entity = (cr_entity template)\<lparr>se_id := i, se_position := p, se_direction := direction\<rparr>,
      cr_is_npc = False, cr_experience_reward = cr_experience_reward template, cr_loot = cr_loot template,
      cr_spawn_position = p, cr_spawn_area = None, cr_active = True,
      cr_health_percent = cr_health_percent template, cr_activated_at = now, cr_inactive_since = None,
      cr_reactivation_due = None, cr_respawn_interval = 0, cr_melee_cooldown = cr_melee_cooldown template,
      cr_next_melee_due = now, cr_damage_range = cr_damage_range template,
      cr_melee_condition = cr_melee_condition template, cr_damage_sequence = 0, cr_target = None\<rparr>"

definition spawn_dynamic_entity :: "(string \<Rightarrow> string) \<Rightarrow> string \<Rightarrow> position \<Rightarrow> nat \<Rightarrow> nat action" where
  "spawn_dynamic_entity lower name p direction w =
     (if bt_len (creatures w) \<ge> max_tfs_static_spawns
      then (Inl (static_fault (StaticSpawnLimit max_tfs_static_spawns)), w)
      else let lowered = lower (trim name) in
        if lowered = [] then (Inl (static_fault EmptyStaticSpawnName), w)
        else attempt w (ok_or (find (\<lambda>rt. lower (se_name (cr_entity rt)) = lowered) (bt_vals (creatures w)))
               (static_fault (UnknownEntityName (trim name)))) (\<lambda>template.
          attempt w (ok_or (find (\<lambda>q. \<not> tile_taken w q) (map (summon_candidate p) summon_offsets))
               (static_fault (SpawnPositionRejected p))) (\<lambda>q.
          attempt w (ok_or (first_free (creatures w) (Suc (bt_len (creatures w))) dynamic_id_base)
               (static_fault (DynamicSpawnLimit max_tfs_static_spawns))) (\<lambda>i.
            (Ok i, mark_changed (refresh_static_creature_occupancy
                     (put_creature i (summoned_runtime template i q direction (tick w)) w)))))))"

definition despawn_dynamic_entity :: "nat \<Rightarrow> unit action" where
  "despawn_dynamic_entity i w =
     (if i < dynamic_id_base then (Inl (unknown_creature i), w)
      else if \<not> bt_mem i (creatures w) then (Inl (unknown_creature i), w)
      else (Ok (), mark_changed (refresh_static_creature_occupancy (w\<lparr>creatures := bt_remove i (creatures w)\<rparr>))))"

definition dynamic_spawn_records :: "world_state \<Rightarrow> (nat \<times> string \<times> position) list" where
  "dynamic_spawn_records w =
     map (\<lambda>(i, rt). (i, se_name (cr_entity rt), entity_position rt))
       (filter (\<lambda>(i, _). i \<ge> dynamic_id_base) (entries (creatures w)))"

definition player_frag_count :: "world_state \<Rightarrow> nat \<Rightarrow> nat" where
  "player_frag_count w p = (case bt_get (w_frags w) p of None \<Rightarrow> 0 | Some n \<Rightarrow> n)"

definition record_player_frag :: "nat \<Rightarrow> world_state \<Rightarrow> nat \<times> world_state" where
  "record_player_frag p w =
     (let total = sat_add u32_max (player_frag_count w p) 1
      in (total, mark_changed (w\<lparr>w_frags := bt_insert p total (w_frags w)\<rparr>)))"

definition player_has_white_skull :: "world_state \<Rightarrow> nat \<Rightarrow> bool" where
  "player_has_white_skull w p \<longleftrightarrow> player_frag_count w p > 0"

section \<open>Restart snapshots\<close>

record lifecycle_view =
  lv_id :: nat
  lv_spawn_position :: position
  lv_position :: position
  lv_active :: bool
  lv_health_percent :: nat
  lv_activated_at :: nat
  lv_inactive_since :: "nat option"
  lv_reactivation_due :: "nat option"
  lv_respawn_interval :: nat

definition static_creature_lifecycle :: "world_state \<Rightarrow> nat \<Rightarrow> lifecycle_view option" where
  "static_creature_lifecycle w c =
     map_option (\<lambda>rt. \<lparr>lv_id = c, lv_spawn_position = cr_spawn_position rt, lv_position = entity_position rt,
        lv_active = cr_active rt, lv_health_percent = cr_health_percent rt,
        lv_activated_at = cr_activated_at rt, lv_inactive_since = cr_inactive_since rt,
        lv_reactivation_due = cr_reactivation_due rt, lv_respawn_interval = cr_respawn_interval rt\<rparr>)
       (bt_get (creatures w) c)"

record runtime_snapshot =
  sn_id :: nat
  sn_position :: position
  sn_active :: bool
  sn_health_percent :: nat
  sn_reactivation :: "nat option"
  sn_cooldown :: "nat option"
  sn_sequence :: nat

text \<open>\<open>u32::try_from(due.saturating_sub(tick)).unwrap_or(u32::MAX)\<close>.\<close>

definition remaining_until :: "nat \<Rightarrow> nat \<Rightarrow> nat" where
  "remaining_until now due = min (due - now) u32_max"

definition snapshot_of :: "nat \<Rightarrow> nat \<times> creature_runtime \<Rightarrow> runtime_snapshot" where
  "snapshot_of now = (\<lambda>(i, rt).
     \<lparr>sn_id = i, sn_position = entity_position rt, sn_active = cr_active rt,
      sn_health_percent = cr_health_percent rt,
      sn_reactivation = map_option (remaining_until now) (cr_reactivation_due rt),
      sn_cooldown = map_option (\<lambda>_. remaining_until now (cr_next_melee_due rt)) (cr_melee_cooldown rt),
      sn_sequence = cr_damage_sequence rt\<rparr>)"

definition static_creature_runtime_snapshot :: "world_state \<Rightarrow> runtime_snapshot list" where
  "static_creature_runtime_snapshot w =
     map (snapshot_of (tick w))
       (filter (\<lambda>(i, rt). cr_active rt \<or> entity_position rt \<noteq> unplaced_origin) (entries (creatures w)))"

record restore_summary =
  rm_restored :: nat
  rm_ignored :: nat

definition invalid_delay :: "runtime_snapshot \<Rightarrow> nat \<Rightarrow> nat \<Rightarrow> fault" where
  "invalid_delay r remaining interval =
     static_fault (InvalidStaticCreatureReactivationDelay (sn_id r) remaining interval)"

definition invalid_cooldown :: "runtime_snapshot \<Rightarrow> nat \<Rightarrow> nat \<Rightarrow> fault" where
  "invalid_cooldown r remaining cooldown =
     static_fault (InvalidStaticCreatureMeleeCooldownDelay (sn_id r) remaining cooldown)"

text \<open>The checks of one record against its creature.\<close>

definition check_record :: "creature_runtime \<Rightarrow> runtime_snapshot \<Rightarrow> unit result" where
  "check_record rt r =
     (let interval = cr_respawn_interval rt in
      if sn_active r \<and> sn_reactivation r \<noteq> None
      then Inl (invalid_delay r (case sn_reactivation r of None \<Rightarrow> 0 | Some n \<Rightarrow> n) interval)
      else if (case sn_reactivation r of None \<Rightarrow> False | Some n \<Rightarrow> interval = 0 \<or> n > interval)
      then Inl (invalid_delay r (case sn_reactivation r of None \<Rightarrow> 0 | Some n \<Rightarrow> n) interval)
      else if sn_cooldown r \<noteq> None \<and> (\<not> sn_active r \<or> cr_melee_cooldown rt = None)
      then Inl (invalid_cooldown r (case sn_cooldown r of None \<Rightarrow> 0 | Some n \<Rightarrow> n)
             (case cr_melee_cooldown rt of None \<Rightarrow> 0 | Some n \<Rightarrow> n))
      else (case (sn_cooldown r, cr_melee_cooldown rt) of
          (Some n, Some cooldown) \<Rightarrow> if n > cooldown then Inl (invalid_cooldown r n cooldown) else Ok ()
        | _ \<Rightarrow> Ok ()))"

text \<open>The first pass: the known records in order and the number of ignored ones.\<close>

fun screen_records ::
  "(nat, creature_runtime) btmap \<Rightarrow> runtime_snapshot list \<Rightarrow> nat btset \<Rightarrow>
     (runtime_snapshot list \<times> nat) result" where
  "screen_records m [] seen = Ok ([], 0)"
| "screen_records m (r # rs) seen =
     (if bt_mem (sn_id r) seen then Inl (static_fault (DuplicateStaticSpawnId (sn_id r)))
      else let seen1 = bs_insert (sn_id r) seen in
        if sn_position r = unplaced_origin
        then rbind (screen_records m rs seen1) (\<lambda>(known, ignored). Ok (known, Suc ignored))
        else if sn_health_percent r > 100
        then Inl (static_fault (InvalidStaticCreatureHealthPercent (sn_health_percent r)))
        else (case bt_get m (sn_id r) of
            None \<Rightarrow> rbind (screen_records m rs seen1) (\<lambda>(known, ignored). Ok (known, Suc ignored))
          | Some rt \<Rightarrow>
              rbind (check_record rt r) (\<lambda>_.
              rbind (screen_records m rs seen1) (\<lambda>(known, ignored). Ok (r # known, ignored)))))"

text \<open>The second pass: the tiles of the active records.\<close>

fun reserve_tiles :: "world_state \<Rightarrow> runtime_snapshot list \<Rightarrow> position btset \<Rightarrow> unit result" where
  "reserve_tiles w [] tiles = Ok ()"
| "reserve_tiles w (r # rs) tiles =
     (if \<not> sn_active r then reserve_tiles w rs tiles
      else if is_player_occupied w (sn_position r)
      then Inl (static_fault (PlayerOccupiesStaticCreaturePosition (sn_position r)))
      else if bt_mem (sn_position r) tiles
      then Inl (static_fault (StaticCreatureOccupiesPosition (sn_position r)))
      else reserve_tiles w rs (bs_insert (sn_position r) tiles))"

definition due_after :: "nat \<Rightarrow> nat \<Rightarrow> nat" where
  "due_after now n = sat_add u64_max now n"

definition restored_melee_due :: "nat \<Rightarrow> runtime_snapshot \<Rightarrow> nat" where
  "restored_melee_due now r = (case sn_cooldown r of None \<Rightarrow> now | Some n \<Rightarrow> due_after now n)"

definition differs :: "nat \<Rightarrow> runtime_snapshot \<Rightarrow> creature_runtime \<Rightarrow> bool" where
  "differs now r rt \<longleftrightarrow>
     entity_position rt \<noteq> sn_position r \<or> cr_active rt \<noteq> sn_active r \<or>
     cr_health_percent rt \<noteq> sn_health_percent r \<or> cr_target rt \<noteq> None \<or>
     cr_reactivation_due rt \<noteq> map_option (due_after now) (sn_reactivation r) \<or>
     cr_next_melee_due rt \<noteq> restored_melee_due now r \<or> cr_damage_sequence rt \<noteq> sn_sequence r"

definition restored_runtime :: "nat \<Rightarrow> runtime_snapshot \<Rightarrow> creature_runtime \<Rightarrow> creature_runtime" where
  "restored_runtime now r rt =
     (let rt1 = rt\<lparr>cr_entity := (cr_entity rt)\<lparr>se_position := sn_position r\<rparr>, cr_active := sn_active r,
                   cr_health_percent := sn_health_percent r, cr_target := None,
                   cr_damage_sequence := sn_sequence r, cr_next_melee_due := restored_melee_due now r\<rparr>
      in if sn_active r
         then rt1\<lparr>cr_activated_at := now, cr_inactive_since := None, cr_reactivation_due := None\<rparr>
         else rt1\<lparr>cr_inactive_since := Some now,
                  cr_reactivation_due := map_option (due_after now) (sn_reactivation r)\<rparr>)"

text \<open>The writing pass, with the flag \<open>changed\<close>.\<close>

fun apply_records ::
  "nat \<Rightarrow> runtime_snapshot list \<Rightarrow> bool \<Rightarrow> (nat, creature_runtime) btmap \<Rightarrow> bool \<times> (nat, creature_runtime) btmap" where
  "apply_records now [] changed m = (changed, m)"
| "apply_records now (r # rs) changed m =
     (case bt_get m (sn_id r) of
        None \<Rightarrow> apply_records now rs changed m
      | Some rt \<Rightarrow> apply_records now rs (changed \<or> differs now r rt)
                     (bt_insert (sn_id r) (restored_runtime now r rt) m))"

text \<open>Intents towards an inactive or missing creature are dropped.\<close>

definition keep_live_targets :: "(nat, creature_runtime) btmap \<Rightarrow> (nat, interaction_intent) btmap \<Rightarrow>
     (nat, interaction_intent) btmap" where
  "keep_live_targets m intents =
     bt_retain (\<lambda>_ i. case target_static i of None \<Rightarrow> True
         | Some c \<Rightarrow> (case bt_get m c of None \<Rightarrow> False | Some rt \<Rightarrow> cr_active rt)) intents"

definition restore_static_creature_runtime :: "runtime_snapshot list \<Rightarrow> restore_summary action" where
  "restore_static_creature_runtime records w =
     attempt w (screen_records (creatures w) records bt_empty) (\<lambda>(known, ignored).
       let ids = bs_of_list (map sn_id known);
           tiles = bs_of_list (map (\<lambda>(_, rt). entity_position rt)
             (filter (\<lambda>(i, rt). cr_active rt \<and> \<not> bt_mem i ids) (entries (creatures w))))
       in attempt w (reserve_tiles w known tiles) (\<lambda>_.
         let (changed, m) = apply_records (tick w) known False (creatures w);
             w1 = w\<lparr>creatures := m\<rparr>
         in (Ok \<lparr>rm_restored = bt_len ids, rm_ignored = ignored\<rparr>,
             if changed
             then mark_changed ((refresh_static_creature_occupancy w1)
                    \<lparr>w_interactions := keep_live_targets m (w_interactions w1)\<rparr>)
             else w1)))"

section \<open>Queries, loot and display health\<close>

definition active_static_creature_count :: "world_state \<Rightarrow> nat" where
  "active_static_creature_count w = length (filter cr_active (bt_vals (creatures w)))"

definition static_creature_health_percent :: "world_state \<Rightarrow> nat \<Rightarrow> nat result" where
  "static_creature_health_percent w c = rbind (creature w c) (\<lambda>rt. Ok (cr_health_percent rt))"

definition static_creature_experience_reward :: "world_state \<Rightarrow> nat \<Rightarrow> nat result" where
  "static_creature_experience_reward w c = rbind (creature w c) (\<lambda>rt. Ok (cr_experience_reward rt))"

unbundle bit_operations_syntax

text \<open>The linear congruential step on \<open>u64\<close> and the 31 bits a draw uses.\<close>

definition lcg :: "64 word \<Rightarrow> 64 word" where
  "lcg s = s * 6364136223846793005 + 1442695040888963407"

definition draw :: "64 word \<Rightarrow> nat" where
  "draw s = unat (drop_bit 33 s)"

definition loot_seed :: "nat \<Rightarrow> position \<Rightarrow> nat \<Rightarrow> 64 word" where
  "loot_seed c p seed =
     ((word_of_nat seed XOR push_bit 32 (word_of_nat c)) XOR word_of_nat (pos_x p)) XOR
       push_bit 16 (word_of_nat (pos_y p))"

text \<open>\<open>u64::from(max) - u64::from(min) + 1\<close>: the subtraction panics when \<open>max < min\<close>.\<close>

definition inclusive_span :: "nat \<Rightarrow> nat \<Rightarrow> nat result" where
  "inclusive_span low high = (if high < low then Inl Panic else Ok (high - low + 1))"

fun roll_entries :: "64 word \<Rightarrow> loot_entry list \<Rightarrow> (nat \<times> nat) list result" where
  "roll_entries s [] = Ok []"
| "roll_entries s (e # es) =
     (let s1 = lcg s in
      if draw s1 mod loot_chance_scale < min (le_chance e) loot_chance_scale
      then rbind (inclusive_span (le_min_count e) (le_max_count e)) (\<lambda>span.
        let s2 = lcg s1;
            n = le_min_count e + draw s2 mod span
        in rbind (roll_entries s2 es) (\<lambda>items.
             Ok ((le_item_id e, if n \<le> u16_max then n else le_max_count e) # items)))
      else roll_entries s1 es)"

record loot_roll =
  lr_creature :: nat
  lr_items :: "(nat \<times> nat) list"

definition roll_defeated_static_creature_loot :: "world_state \<Rightarrow> nat \<Rightarrow> nat \<Rightarrow> loot_roll result" where
  "roll_defeated_static_creature_loot w c seed =
     rbind (creature w c) (\<lambda>rt.
       if cr_is_npc rt \<or> cr_loot rt = [] then Ok \<lparr>lr_creature = c, lr_items = []\<rparr>
       else rbind (roll_entries (loot_seed c (entity_position rt) seed) (cr_loot rt)) (\<lambda>items.
         Ok \<lparr>lr_creature = c, lr_items = items\<rparr>))"

definition roll_static_creature_loot :: "world_state \<Rightarrow> nat \<Rightarrow> nat \<Rightarrow> loot_roll result" where
  "roll_static_creature_loot w c seed =
     rbind (creature w c) (\<lambda>rt.
       if \<not> cr_active rt then Ok \<lparr>lr_creature = c, lr_items = []\<rparr>
       else roll_defeated_static_creature_loot w c seed)"

definition set_static_creature_health_percent :: "nat \<Rightarrow> nat \<Rightarrow> bool action" where
  "set_static_creature_health_percent c h w =
     (if h > 100 then (Inl (static_fault (InvalidStaticCreatureHealthPercent h)), w)
      else attempt w (creature w c) (\<lambda>rt.
        if \<not> cr_active rt then (Inl (static_fault (InactiveStaticCreature c)), w)
        else if cr_health_percent rt = h then (Ok False, w)
        else (Ok True, mark_changed (put_creature c (rt\<lparr>cr_health_percent := h\<rparr>) w))))"

definition table_of :: "(creature_runtime \<Rightarrow> 'v option) \<Rightarrow> (nat, creature_runtime) btmap \<Rightarrow> (nat, 'v) btmap" where
  "table_of f m =
     bt_of_list (List.map_filter (\<lambda>(i, rt). if cr_active rt then map_option (Pair i) (f rt) else None) (entries m))"

definition active_static_spawn_collection :: "world_state \<Rightarrow> spawn_collection" where
  "active_static_spawn_collection w =
     (let m = creatures w in
      \<lparr>sc_entities = map (\<lambda>rt. (cr_entity rt)\<lparr>se_health_percent := cr_health_percent rt\<rparr>) (filter cr_active (bt_vals m)),
       sc_respawn_intervals = bt_empty,
       sc_experience_rewards = table_of (\<lambda>rt. if cr_experience_reward rt > 0 then Some (cr_experience_reward rt) else None) m,
       sc_melee_intervals = bt_empty, sc_damage_ranges = table_of cr_damage_range m,
       sc_melee_conditions = table_of cr_melee_condition m,
       sc_loot_tables = table_of (\<lambda>rt. if cr_loot rt = [] then None else Some (cr_loot rt)) m,
       sc_npc_ids = table_of (\<lambda>rt. if cr_is_npc rt then Some () else None) m,
       sc_spawn_areas = bt_empty\<rparr>)"

section \<open>Defeat\<close>

definition drop_static_target :: "nat \<Rightarrow> interaction_intent \<Rightarrow> interaction_intent" where
  "drop_static_target c i = (if target_static i = Some c then i\<lparr>target_static := None\<rparr> else i)"

definition intent_is_set :: "interaction_intent \<Rightarrow> bool" where
  "intent_is_set i \<longleftrightarrow> target_player i \<noteq> None \<or> target_static i \<noteq> None \<or> follow_player i \<noteq> None"

definition deactivate_static_creature :: "nat \<Rightarrow> bool action" where
  "deactivate_static_creature c w =
     attempt w (creature w c) (\<lambda>rt.
       let changed = cr_active rt;
           rt1 = rt\<lparr>cr_active := False, cr_target := None\<rparr>;
           rt2 = (if changed
                  then rt1\<lparr>cr_inactive_since := Some (tick w),
                           cr_reactivation_due := (if cr_respawn_interval rt > 0
                             then Some (sat_add u64_max (tick w) (cr_respawn_interval rt)) else None)\<rparr>
                  else rt1);
           w1 = put_creature c rt2 w;
           w2 = (if changed
                 then w1\<lparr>w_interactions := bt_retain (\<lambda>_. intent_is_set)
                            (bt_map (\<lambda>_. drop_static_target c) (w_interactions w1))\<rparr>
                 else w1);
           w3 = refresh_static_creature_occupancy w2
       in (Ok changed, if changed then mark_changed w3 else w3))"

record creature_damage_outcome =
  cd_attacker :: nat
  cd_target :: nat
  cd_requested :: nat
  cd_applied :: nat
  cd_remaining :: nat
  cd_deactivated :: bool

definition apply_static_creature_melee_damage :: "nat \<Rightarrow> nat \<Rightarrow> nat \<Rightarrow> creature_damage_outcome action" where
  "apply_static_creature_melee_damage attacker target requested w =
     (if requested = 0 then (Inl (rule_fault InvalidCombatEvent), w)
      else attempt w (lookup (players w) attacker) (\<lambda>a.
      attempt w (creature w target) (\<lambda>rt.
        if \<not> cr_active rt then (Inl (static_fault (InactiveStaticCreature target)), w)
        else if cr_is_npc rt then (Inl (static_fault (StaticNpcNotAttackable target)), w)
        else if \<not> is_adjacent_to (pl_position a) (entity_position rt)
        then (Inl (rule_fault (StaticCreatureCombatOutOfRange attacker target)), w)
        else attempt w (player_combat_cooldown w attacker) (\<lambda>ready.
          if tick w < ready then (Inl (rule_fault (CombatCooldownActive attacker (tick w) ready)), w)
          else
            let applied = min (cr_health_percent rt) (min requested 100);
                left = cr_health_percent rt - applied;
                dead = (applied > 0 \<and> left = 0);
                outcome = \<lparr>cd_attacker = attacker, cd_target = target, cd_requested = requested,
                           cd_applied = applied, cd_remaining = left, cd_deactivated = dead\<rparr>
            in if applied = 0 then (Ok outcome, w)
               else
                 let w1 = (put_creature target (rt\<lparr>cr_health_percent := left\<rparr>) w)
                       \<lparr>w_combat_cooldowns := bt_insert attacker (sat_add u64_max (tick w) 1) (w_combat_cooldowns w)\<rparr>
                 in if dead then chain (deactivate_static_creature target w1) (\<lambda>_ w2. (Ok outcome, w2))
                    else (Ok outcome, mark_changed w1)))))"

section \<open>Reset and due reactivation\<close>

record reset_summary =
  re_reactivated :: nat
  re_deferred_by_player :: nat
  re_deferred_by_creature :: nat

definition respawned :: "nat \<Rightarrow> creature_runtime \<Rightarrow> creature_runtime" where
  "respawned now rt =
     rt\<lparr>cr_entity := (cr_entity rt)\<lparr>se_position := cr_spawn_position rt\<rparr>,
        cr_health_percent := se_health_percent (cr_entity rt), cr_active := True,
        cr_activated_at := now, cr_inactive_since := None, cr_reactivation_due := None\<rparr>"

text \<open>One creature of the pass over \<open>values_mut()\<close>: the runtime it leaves, the summary and the
  occupied tiles. \<open>due\<close> says whether its turn has come, \<open>guarded\<close> whether a player in its area
  holds it back, \<open>deferred\<close> what a blocked attempt leaves.\<close>

definition reactivate_one ::
  "nat \<Rightarrow> position btset \<Rightarrow> (creature_runtime \<Rightarrow> bool) \<Rightarrow> (creature_runtime \<Rightarrow> bool) \<Rightarrow>
     (creature_runtime \<Rightarrow> creature_runtime) \<Rightarrow> creature_runtime \<Rightarrow> reset_summary \<times> position btset \<Rightarrow>
     creature_runtime \<times> reset_summary \<times> position btset" where
  "reactivate_one now standing due guarded deferred rt = (\<lambda>(s, tiles).
     if cr_active rt \<or> \<not> due rt then (rt, s, tiles)
     else if bt_mem (cr_spawn_position rt) standing \<or> guarded rt
     then (deferred rt, s\<lparr>re_deferred_by_player := re_deferred_by_player s + 1\<rparr>, tiles)
     else if bt_mem (cr_spawn_position rt) tiles
     then (deferred rt, s\<lparr>re_deferred_by_creature := re_deferred_by_creature s + 1\<rparr>, tiles)
     else (respawned now rt, s\<lparr>re_reactivated := re_reactivated s + 1\<rparr>,
           bs_insert (cr_spawn_position rt) tiles))"

fun reactivate_all ::
  "nat \<Rightarrow> position btset \<Rightarrow> (creature_runtime \<Rightarrow> bool) \<Rightarrow> (creature_runtime \<Rightarrow> bool) \<Rightarrow>
     (creature_runtime \<Rightarrow> creature_runtime) \<Rightarrow> (nat \<times> creature_runtime) list \<Rightarrow>
     (nat, creature_runtime) btmap \<Rightarrow> reset_summary \<times> position btset \<Rightarrow>
     (nat, creature_runtime) btmap \<times> reset_summary" where
  "reactivate_all now standing due guarded deferred [] m st = (m, fst st)"
| "reactivate_all now standing due guarded deferred ((i, rt) # rest) m st =
     (let (rt1, st1) = reactivate_one now standing due guarded deferred rt st
      in reactivate_all now standing due guarded deferred rest (bt_insert i rt1 m) st1)"

definition reactivation_pass ::
  "(creature_runtime \<Rightarrow> bool) \<Rightarrow> (creature_runtime \<Rightarrow> bool) \<Rightarrow> (creature_runtime \<Rightarrow> creature_runtime) \<Rightarrow>
     world_state \<Rightarrow> reset_summary \<times> world_state" where
  "reactivation_pass due guarded deferred w =
     (let (m, s) = reactivate_all (tick w) (standing_tiles w) due guarded deferred (entries (creatures w))
                     (creatures w) (\<lparr>re_reactivated = 0, re_deferred_by_player = 0, re_deferred_by_creature = 0\<rparr>, occupied w);
          w1 = refresh_static_creature_occupancy (w\<lparr>creatures := m\<rparr>)
      in (s, if re_reactivated s > 0 then mark_changed w1 else w1))"

definition reset_static_creatures :: "world_state \<Rightarrow> reset_summary \<times> world_state" where
  "reset_static_creatures w = reactivation_pass (\<lambda>_. True) (\<lambda>_. False) id w"

text \<open>A blocked attempt re-arms one full interval.\<close>

definition reactivate_due_static_creatures :: "world_state \<Rightarrow> reset_summary \<times> world_state" where
  "reactivate_due_static_creatures w =
     reactivation_pass
       (\<lambda>rt. case cr_reactivation_due rt of None \<Rightarrow> False | Some t \<Rightarrow> t \<le> tick w)
       (\<lambda>rt. case cr_spawn_area rt of None \<Rightarrow> False
           | Some area \<Rightarrow> list_ex (area_contains area) (bt_keys (standing_tiles w)))
       (\<lambda>rt. rt\<lparr>cr_reactivation_due := Some (sat_add u64_max (tick w) (cr_respawn_interval rt))\<rparr>) w"

section \<open>The table and its index\<close>

lemma active_at_positions: "bt_mem q (active_positions m) \<longleftrightarrow> active_at m q"
  by (auto simp: active_positions_def active_at_def entity_position_def in_bt_vals_iff)

lemma occupancy_active: "occupancy_wf m (active_positions m)"
  by (simp add: occupancy_wf_def active_at_positions)

lemma standing_tiles_mem: "bt_mem q (standing_tiles w) \<longleftrightarrow> is_player_occupied w q"
  by (auto simp: standing_tiles_def is_player_occupied_def list_ex_iff)

lemma world_creatures [world_simps]:
  assumes "world_wf w"
  shows "all_creatures_ok (registered w) (creatures w)" and "occupancy_wf (creatures w) (occupied w)"
  using assms by (simp_all add: world_wf_def)

lemma creature_get [simp]: "creature w c = Ok rt \<longleftrightarrow> bt_get (creatures w) c = Some rt"
  by (simp add: creature_def)

lemma creature_get_ok: "world_wf w \<Longrightarrow> bt_get (creatures w) c = Some rt \<Longrightarrow> creature_ok (registered w) c rt"
  using world_creatures(1) by (auto simp: all_creatures_ok_def)

lemma all_creatures_put:
  "all_creatures_ok D m \<Longrightarrow> creature_ok D c rt \<Longrightarrow> all_creatures_ok D (bt_insert c rt m)"
  by (auto simp: all_creatures_ok_def bt_get_insert)

lemma refresh_wf:
  assumes "world_wf w" and "all_creatures_ok (registered w) m"
  shows "world_wf (refresh_static_creature_occupancy (w\<lparr>creatures := m\<rparr>))"
  using world_wf_creatures [OF assms occupancy_active] by (simp add: refresh_static_creature_occupancy_def)

lemma put_refresh_wf:
  "world_wf w \<Longrightarrow> creature_ok (registered w) c rt \<Longrightarrow>
     world_wf (refresh_static_creature_occupancy (put_creature c rt w))"
  unfolding put_creature_def by (intro refresh_wf all_creatures_put) (simp_all add: world_creatures)

text \<open>An update that moves nothing needs no refresh.\<close>

definition same_spot :: "creature_runtime \<Rightarrow> creature_runtime \<Rightarrow> bool" where
  "same_spot rt rt' \<longleftrightarrow> cr_active rt' = cr_active rt \<and> entity_position rt' = entity_position rt"

lemma active_at_put:
  assumes "bt_get m c = Some rt" and "same_spot rt rt'"
  shows "active_at (bt_insert c rt' m) q \<longleftrightarrow> active_at m q"
  using assms unfolding active_at_def same_spot_def entity_position_def bt_get_insert
  by (metis option.inject)

lemma put_same_wf:
  assumes "world_wf w" and "bt_get (creatures w) c = Some rt" and "creature_ok (registered w) c rt'"
    and "same_spot rt rt'"
  shows "world_wf (put_creature c rt' w)"
proof -
  have "occupancy_wf (bt_insert c rt' (creatures w)) (occupied w)"
    using world_creatures(2) [OF assms(1)] active_at_put [OF assms(2,4)] by (simp add: occupancy_wf_def)
  from world_wf_creatures [OF assms(1) all_creatures_put [OF world_creatures(1) [OF assms(1)] assms(3)] this]
  show ?thesis by (simp add: put_creature_def)
qed

text \<open>No two active creatures share a tile, and no player stands on one.\<close>

definition creatures_apart :: "(nat, creature_runtime) btmap \<Rightarrow> bool" where
  "creatures_apart m \<longleftrightarrow>
     (\<forall>i j a b. bt_get m i = Some a \<and> bt_get m j = Some b \<and> cr_active a \<and> cr_active b \<and>
        entity_position a = entity_position b \<longrightarrow> i = j)"

definition tiles_exclusive :: "world_state \<Rightarrow> bool" where
  "tiles_exclusive w \<longleftrightarrow> creatures_apart (creatures w) \<and> (\<forall>q. active_at (creatures w) q \<longrightarrow> \<not> is_player_occupied w q)"

lemma creatures_apart_put:
  assumes "creatures_apart m"
    and "cr_active rt \<Longrightarrow> \<forall>i a. bt_get m i = Some a \<and> i \<noteq> c \<and> cr_active a \<longrightarrow> entity_position a \<noteq> entity_position rt"
  shows "creatures_apart (bt_insert c rt m)"
  using assms unfolding creatures_apart_def bt_get_insert by (metis option.inject)

lemma active_at_insert:
  "active_at (bt_insert c rt m) q \<longleftrightarrow>
     cr_active rt \<and> entity_position rt = q \<or> active_at (bt_remove c m) q"
  unfolding active_at_def entity_position_def by (auto simp: bt_get_insert bt_get_remove)

lemma active_at_remove: "active_at (bt_remove c m) q \<Longrightarrow> active_at m q"
  by (auto simp: active_at_def bt_get_remove split: if_splits)

section \<open>The reactivation passes\<close>

text \<open>\<open>ex\<close> tells whether the tiles are exclusive when the pass begins.\<close>

definition pass_inv ::
  "bool \<Rightarrow> nat set \<Rightarrow> position btset \<Rightarrow> (nat, creature_runtime) btmap \<Rightarrow> position btset \<Rightarrow> bool" where
  "pass_inv ex D standing m tiles \<longleftrightarrow>
     all_creatures_ok D m \<and> (\<forall>q. bt_mem q tiles \<longleftrightarrow> active_at m q) \<and>
     (ex \<longrightarrow> creatures_apart m \<and> (\<forall>q. active_at m q \<longrightarrow> \<not> bt_mem q standing))"

definition defers :: "nat set \<Rightarrow> (creature_runtime \<Rightarrow> creature_runtime) \<Rightarrow> bool" where
  "defers D deferred \<longleftrightarrow>
     (\<forall>c rt. creature_ok D c rt \<and> \<not> cr_active rt \<longrightarrow> creature_ok D c (deferred rt) \<and> \<not> cr_active (deferred rt))"

lemma creatures_apartD:
  "creatures_apart m \<Longrightarrow> bt_get m i = Some a \<Longrightarrow> bt_get m j = Some b \<Longrightarrow> cr_active a \<Longrightarrow> cr_active b \<Longrightarrow>
     entity_position a = entity_position b \<Longrightarrow> i = j"
  unfolding creatures_apart_def by blast

lemma active_at_idle:
  assumes "bt_get m i = Some rt" and "\<not> cr_active rt"
  shows "active_at (bt_remove i m) q \<longleftrightarrow> active_at m q"
  using assms unfolding active_at_def bt_get_remove by (metis option.inject option.distinct(1))

lemma pass_inv_idle:
  assumes "pass_inv ex D standing m tiles" and "bt_get m i = Some rt" and "\<not> cr_active rt"
    and "creature_ok D i rt'" and "\<not> cr_active rt'"
  shows "pass_inv ex D standing (bt_insert i rt' m) tiles"
proof -
  have "active_at (bt_insert i rt' m) q \<longleftrightarrow> active_at m q" for q
    using assms(5) active_at_idle [OF assms(2,3)] by (simp add: active_at_insert)
  moreover have "creatures_apart (bt_insert i rt' m)" if ex
    using that assms(1,5) by (intro creatures_apart_put) (simp_all add: pass_inv_def)
  ultimately show ?thesis using assms(1,4) by (simp add: pass_inv_def all_creatures_put)
qed

lemma respawned_facts:
  "entity_position (respawned now rt) = cr_spawn_position rt" "cr_active (respawned now rt)"
  by (simp_all add: respawned_def entity_position_def)

lemma respawned_ok: "creature_ok D c rt \<Longrightarrow> \<not> cr_active rt \<Longrightarrow> creature_ok D c (respawned now rt)"
  by (simp add: creature_ok_def respawned_def)

lemma pass_inv_respawn:
  assumes "pass_inv ex D standing m tiles" and "bt_get m i = Some rt" and "\<not> cr_active rt"
    and "\<not> bt_mem (cr_spawn_position rt) standing" and "\<not> bt_mem (cr_spawn_position rt) tiles"
  shows "pass_inv ex D standing (bt_insert i (respawned now rt) m) (bs_insert (cr_spawn_position rt) tiles)"
proof -
  have ok: "creature_ok D i rt" using assms(1,2) by (auto simp: pass_inv_def all_creatures_ok_def)
  have free: "\<not> active_at m (cr_spawn_position rt)" using assms(1,5) by (simp add: pass_inv_def)
  have at: "active_at (bt_insert i (respawned now rt) m) q \<longleftrightarrow> q = cr_spawn_position rt \<or> active_at m q" for q
    using active_at_idle [OF assms(2,3)] by (auto simp: active_at_insert respawned_facts)
  have "creatures_apart (bt_insert i (respawned now rt) m)" if ex
  proof (rule creatures_apart_put)
    show "creatures_apart m" using that assms(1) by (simp add: pass_inv_def)
    show "\<forall>j a. bt_get m j = Some a \<and> j \<noteq> i \<and> cr_active a \<longrightarrow> entity_position a \<noteq> entity_position (respawned now rt)"
      using free unfolding respawned_facts active_at_def by (auto simp: entity_position_def)
  qed
  with assms(1,4) ok at respawned_ok [OF ok assms(3)] show ?thesis by (auto simp: pass_inv_def all_creatures_put)
qed

lemma reactivate_all_inv:
  assumes "pass_inv ex D standing m (snd st)" and "defers D deferred"
    and "\<forall>i rt. (i, rt) \<in> set rest \<longrightarrow> bt_get m i = Some rt" and "distinct (map fst rest)"
  shows "\<exists>tiles. pass_inv ex D standing (fst (reactivate_all now standing due guarded deferred rest m st)) tiles"
  using assms(1,3,4)
proof (induction rest arbitrary: m st)
  case Nil
  then show ?case by auto
next
  case (Cons x rest)
  obtain i rt where x: "x = (i, rt)" by (rule prod.exhaust)
  obtain s tiles where st: "st = (s, tiles)" by (rule prod.exhaust)
  from Cons.prems x st have m: "bt_get m i = Some rt" and inv: "pass_inv ex D standing m tiles"
    and rest: "\<forall>j a. (j, a) \<in> set rest \<longrightarrow> bt_get m j = Some a" "\<forall>a. (i, a) \<notin> set rest" by force+
  have ok: "creature_ok D i rt" using inv m by (auto simp: pass_inv_def all_creatures_ok_def)
  let ?r = "reactivate_one now standing due guarded deferred rt st"
  have "pass_inv ex D standing (bt_insert i (fst ?r) m) (snd (snd ?r))"
    using inv bt_insert_idem [OF m] assms(2) ok
      pass_inv_idle [OF inv m, of "deferred rt"] pass_inv_respawn [OF inv m, of now]
    by (auto simp: reactivate_one_def st defers_def)
  moreover have "\<forall>j a. (j, a) \<in> set rest \<longrightarrow> bt_get (bt_insert i (fst ?r) m) j = Some a"
    using rest by (auto simp: bt_get_insert)
  ultimately show ?case
    using Cons.IH [of "bt_insert i (fst ?r) m" "snd ?r"] Cons.prems(3) by (simp add: x split_beta Let_def)
qed

lemma active_at_exclusive: "tiles_exclusive w \<Longrightarrow> active_at (creatures w) q \<Longrightarrow> \<not> bt_mem q (standing_tiles w)"
  by (simp add: tiles_exclusive_def standing_tiles_mem)

lemma exclusive_mark [simp]: "tiles_exclusive (mark_changed w) = tiles_exclusive w"
  by (simp add: tiles_exclusive_def mark_changed_def is_player_occupied_def)

lemma exclusive_refresh [simp]: "tiles_exclusive (refresh_static_creature_occupancy w) = tiles_exclusive w"
  by (simp add: tiles_exclusive_def refresh_static_creature_occupancy_def is_player_occupied_def)

text \<open>The invariant of the world; with \<open>ex\<close> also the exclusive tiles. The operations keep it for either
  value, so the invariant of the world needs no exclusive tiles to begin with.\<close>

definition world_inv :: "bool \<Rightarrow> world_state \<Rightarrow> bool" where
  "world_inv ex w \<longleftrightarrow> world_wf w \<and> (ex \<longrightarrow> tiles_exclusive w)"

abbreviation creature_inv :: "world_state \<Rightarrow> bool" where
  "creature_inv \<equiv> world_inv True"

lemma creature_inv_def: "creature_inv w \<longleftrightarrow> world_wf w \<and> tiles_exclusive w"
  by (simp add: world_inv_def)

lemma world_inv_False: "world_inv False = world_wf"
  by (rule ext) (simp add: world_inv_def)

lemma world_inv_mark [simp]: "world_inv ex (mark_changed w) = world_inv ex w"
  by (simp add: world_inv_def)

lemma reactivation_pass_inv:
  assumes "world_inv ex w" and "defers (registered w) deferred"
  shows "world_inv ex (snd (reactivation_pass due guarded deferred w))"
proof -
  let ?st = "(\<lparr>re_reactivated = 0, re_deferred_by_player = 0, re_deferred_by_creature = 0\<rparr>, occupied w)"
  let ?r = "reactivate_all (tick w) (standing_tiles w) due guarded deferred (entries (creatures w)) (creatures w) ?st"
  have w: "world_wf w" using assms(1) by (simp add: world_inv_def)
  have "pass_inv ex (registered w) (standing_tiles w) (creatures w) (snd ?st)"
    using assms(1) world_creatures [OF w] active_at_exclusive [of w]
    by (auto simp: pass_inv_def occupancy_wf_def tiles_exclusive_def world_inv_def)
  then have "\<exists>tiles. pass_inv ex (registered w) (standing_tiles w) (fst ?r) tiles"
    by (rule reactivate_all_inv [OF _ assms(2)]) (simp_all add: in_entries_iff)
  then obtain tiles where p: "pass_inv ex (registered w) (standing_tiles w) (fst ?r) tiles" by (rule exE)
  have "world_wf (refresh_static_creature_occupancy (w\<lparr>creatures := fst ?r\<rparr>))"
    using p by (intro refresh_wf [OF w]) (simp add: pass_inv_def)
  moreover have "ex \<longrightarrow> tiles_exclusive (w\<lparr>creatures := fst ?r\<rparr>)"
    using p by (auto simp: tiles_exclusive_def pass_inv_def standing_tiles_mem is_player_occupied_def)
  ultimately show ?thesis by (simp add: reactivation_pass_def world_inv_def split_beta Let_def)
qed

lemma reset_inv:
  assumes "world_inv ex w"
  shows "world_inv ex (snd (reset_static_creatures w))"
    and "world_inv ex (snd (reactivate_due_static_creatures w))"
  unfolding reset_static_creatures_def reactivate_due_static_creatures_def
  by (intro reactivation_pass_inv assms; simp add: defers_def creature_ok_def)+

section \<open>The other operations keep both invariants\<close>

text \<open>Writing one creature: it may stay where it is, or take a tile nobody holds.\<close>

lemma put_inv_same:
  assumes "world_inv ex w" and "bt_get (creatures w) c = Some rt" and "creature_ok (registered w) c rt'"
    and "same_spot rt rt'"
  shows "world_inv ex (put_creature c rt' w)"
proof -
  have "creatures_apart (bt_insert c rt' (creatures w))" if ex
  proof (rule creatures_apart_put)
    show "creatures_apart (creatures w)" using that assms(1) by (simp add: world_inv_def tiles_exclusive_def)
    from creatures_apartD [OF this _ assms(2)]
    show "\<forall>i a. bt_get (creatures w) i = Some a \<and> i \<noteq> c \<and> cr_active a \<longrightarrow> entity_position a \<noteq> entity_position rt'"
      if "cr_active rt'" using that assms(4) by (auto simp: same_spot_def)
  qed
  then have "tiles_exclusive (put_creature c rt' w)" if ex
    using that assms(1) active_at_put [OF assms(2,4)]
    by (simp add: tiles_exclusive_def put_creature_def world_inv_def is_player_occupied_def)
  with put_same_wf [OF _ assms(2-4)] assms(1) show ?thesis by (simp add: world_inv_def)
qed

lemma put_inv_idle:
  assumes "world_inv ex w" and "creature_ok (registered w) c rt" and "\<not> cr_active rt"
  shows "world_inv ex (refresh_static_creature_occupancy (put_creature c rt w))"
proof -
  have "creatures_apart (bt_insert c rt (creatures w))" if ex
    using that assms(1,3) by (intro creatures_apart_put) (simp_all add: world_inv_def tiles_exclusive_def)
  then have "tiles_exclusive (put_creature c rt w)" if ex
    using that assms(1,3) active_at_remove
    by (auto simp: tiles_exclusive_def put_creature_def world_inv_def is_player_occupied_def active_at_insert)
  with put_refresh_wf [OF _ assms(2)] assms(1) show ?thesis by (simp add: world_inv_def)
qed

lemma put_inv_free:
  assumes "world_inv ex w" and "creature_ok (registered w) c rt"
    and "\<not> active_at (bt_remove c (creatures w)) (entity_position rt)"
    and "\<not> is_player_occupied w (entity_position rt)"
  shows "world_inv ex (refresh_static_creature_occupancy (put_creature c rt w))"
proof -
  have "creatures_apart (bt_insert c rt (creatures w))" if ex
  proof (rule creatures_apart_put)
    show "creatures_apart (creatures w)" using that assms(1) by (simp add: world_inv_def tiles_exclusive_def)
    have "active_at (bt_remove c (creatures w)) (entity_position a)"
      if "bt_get (creatures w) i = Some a" "i \<noteq> c" "cr_active a" for i a
      unfolding active_at_def using that by (intro exI [of _ i] exI [of _ a]) (simp add: entity_position_def)
    with assms(3) show "\<forall>i a. bt_get (creatures w) i = Some a \<and> i \<noteq> c \<and> cr_active a \<longrightarrow>
        entity_position a \<noteq> entity_position rt" by metis
  qed
  then have "tiles_exclusive (put_creature c rt w)" if ex
    using that assms(1,4) active_at_remove
    by (auto simp: tiles_exclusive_def put_creature_def world_inv_def is_player_occupied_def active_at_insert)
  with put_refresh_wf [OF _ assms(2)] assms(1) show ?thesis by (simp add: world_inv_def)
qed

lemma first_free_Some: "first_free m n c = Some i \<Longrightarrow> \<not> bt_mem i m \<and> c \<le> i"
  by (induction m n c rule: first_free.induct) (auto split: if_splits)

text \<open>The search for an identifier always succeeds.\<close>

lemma first_free_None: "first_free m n c = None \<Longrightarrow> c \<le> i \<Longrightarrow> i < c + n \<Longrightarrow> bt_mem i m"
proof (induction m n c rule: first_free.induct)
  case (2 m n c)
  then show ?case by (cases "i = c") (auto split: if_splits)
qed simp

lemma first_free_total: "first_free m (Suc (bt_len m)) c \<noteq> None"
proof
  assume "first_free m (Suc (bt_len m)) c = None"
  from first_free_None [OF this] have "bt_mem i m" if "i \<in> {c..<c + Suc (bt_len m)}" for i
    using that by simp
  then have "{c..<c + Suc (bt_len m)} \<subseteq> dom (bt_get m)" unfolding bt_mem_iff by (rule subsetI)
  from card_mono [OF finite_dom_bt_get this] show False by (simp add: bt_len_eq_card)
qed

lemma find_Some_set: "find P xs = Some x \<Longrightarrow> x \<in> set xs \<and> P x"
  by (induction xs) (auto split: if_splits)

lemma tile_taken_iff: "tile_taken w q \<longleftrightarrow> is_player_occupied w q \<or> active_at (creatures w) q"
  by (auto simp: tile_taken_def list_ex_iff Bex_def in_bt_vals_iff active_at_def entity_position_def)

lemma spawn_dynamic_entity_inv:
  assumes "world_inv ex w"
  shows "world_inv ex (snd (spawn_dynamic_entity lower name p direction w))"
proof -
  have put: "world_inv ex (refresh_static_creature_occupancy (put_creature i (summoned_runtime template i q direction now) w))"
    if found: "find P (bt_vals (creatures w)) = Some template" and free: "\<not> tile_taken w q" for P template q i now
  proof (rule put_inv_free [OF assms])
    from found obtain j where "bt_get (creatures w) j = Some template"
      using find_Some_set [OF found] by (auto simp: in_bt_vals_iff)
    then have "creature_ok (registered w) j template" using assms creature_get_ok by (simp add: world_inv_def)
    then show "creature_ok (registered w) i (summoned_runtime template i q direction now)"
      by (simp add: creature_ok_def summoned_runtime_def)
    show "\<not> active_at (bt_remove i (creatures w)) (entity_position (summoned_runtime template i q direction now))"
      and "\<not> is_player_occupied w (entity_position (summoned_runtime template i q direction now))"
      using free active_at_remove by (auto simp: tile_taken_iff summoned_runtime_def entity_position_def)
  qed
  have "\<not> tile_taken w q" if "find (\<lambda>q. \<not> tile_taken w q) qs = Some q" for q qs
    using find_Some_set [OF that] by simp
  note put = put [OF _ this]
  show ?thesis
    unfolding spawn_dynamic_entity_def Let_def
    by (rule keepsI, intro keeps_intros; simp add: assms put del: first_free.simps)
qed

lemma despawn_dynamic_entity_inv:
  assumes "world_inv ex w"
  shows "world_inv ex (snd (despawn_dynamic_entity i w))"
proof -
  let ?m = "bt_remove i (creatures w)"
  have "all_creatures_ok (registered w) ?m"
    using assms world_creatures(1) by (auto simp: world_inv_def all_creatures_ok_def bt_get_remove)
  then have "world_wf (refresh_static_creature_occupancy (w\<lparr>creatures := ?m\<rparr>))"
    using assms by (intro refresh_wf) (simp_all add: world_inv_def)
  moreover have "tiles_exclusive (w\<lparr>creatures := ?m\<rparr>)" if ex
    using that assms active_at_remove
    by (auto simp: world_inv_def tiles_exclusive_def creatures_apart_def bt_get_remove is_player_occupied_def)
  ultimately show ?thesis using assms by (simp add: despawn_dynamic_entity_def world_inv_def)
qed

lemma record_player_frag_inv: "world_inv ex w \<Longrightarrow> world_inv ex (snd (record_player_frag p w))"
  by (simp add: record_player_frag_def Let_def) (simp add: world_inv_def tiles_exclusive_def is_player_occupied_def)

lemma set_static_creature_health_percent_inv:
  assumes "world_inv ex w"
  shows "world_inv ex (snd (set_static_creature_health_percent c h w))"
proof -
  have put: "world_inv ex (put_creature c (rt\<lparr>cr_health_percent := h\<rparr>) w)"
    if "bt_get (creatures w) c = Some rt" "h \<le> 100" for rt
    using that creature_get_ok [of w c rt] assms
    by (intro put_inv_same [OF assms that(1)])
      (auto simp: world_inv_def creature_ok_def same_spot_def entity_position_def)
  show ?thesis
    unfolding set_static_creature_health_percent_def
    by (rule keepsI, intro keeps_intros; simp add: assms put)
qed

lemma intents_wf_retain: "intents_wf D m \<Longrightarrow> intents_wf D (bt_retain P m)"
  by (auto simp: intents_wf_def bt_get_retain split: option.splits if_splits)

lemma intent_is_set_iff: "intent_is_set i \<longleftrightarrow> i \<noteq> default_intent"
  by (cases i) (auto simp: intent_is_set_def default_intent_def)

lemma drop_static_target_players [simp]:
  "target_player (drop_static_target c i) = target_player i"
  "follow_player (drop_static_target c i) = follow_player i"
  by (simp_all add: drop_static_target_def)

lemma intents_wf_drop:
  "intents_wf D m \<Longrightarrow> intents_wf D (bt_retain (\<lambda>_. intent_is_set) (bt_map (\<lambda>_. drop_static_target c) m))"
  by (auto simp: intents_wf_def bt_get_retain intent_ok_def intent_is_set_iff split: option.splits if_splits)

lemma interactions_inv:
  "world_inv ex w \<Longrightarrow> intents_wf (registered w) i \<Longrightarrow> world_inv ex (w\<lparr>w_interactions := i\<rparr>)"
  by (simp add: world_inv_def world_simps tiles_exclusive_def is_player_occupied_def)

lemma refresh_interactions:
  "refresh_static_creature_occupancy (v\<lparr>w_interactions := x\<rparr>) =
     (refresh_static_creature_occupancy v)\<lparr>w_interactions := x\<rparr>"
  by (cases v) (simp add: refresh_static_creature_occupancy_def)

lemma deactivate_static_creature_inv:
  assumes "world_inv ex w"
  shows "world_inv ex (snd (deactivate_static_creature c w))"
proof (cases "bt_get (creatures w) c")
  case (Some rt)
  have w: "world_wf w" using assms by (simp add: world_inv_def)
  have ok: "creature_ok (registered w) c rt" by (rule creature_get_ok [OF w Some])
  have put: "world_inv ex (refresh_static_creature_occupancy (put_creature c rt' w))"
    if "creature_ok (registered w) c rt'" "\<not> cr_active rt'" for rt'
    by (rule put_inv_idle [OF assms that])
  have i: "intents_wf (registered w) (w_interactions w)" using w by (simp add: world_simps)
  define x where "x = bt_retain (\<lambda>_. intent_is_set) (bt_map (\<lambda>_. drop_static_target c) (w_interactions w))"
  have x: "intents_wf (registered w) x" unfolding x_def by (rule intents_wf_drop [OF i])
  have drop: "world_inv ex (refresh_static_creature_occupancy ((put_creature c rt' w)\<lparr>w_interactions := x\<rparr>))"
    if "creature_ok (registered w) c rt'" "\<not> cr_active rt'" for rt'
    unfolding refresh_interactions
    by (rule interactions_inv [OF put [OF that]])
      (use x in \<open>simp add: refresh_static_creature_occupancy_def put_creature_def\<close>)
  have idle: "creature_ok (registered w) c (rt\<lparr>cr_active := False, cr_target := None\<rparr>)"
    "creature_ok (registered w) c (rt\<lparr>cr_active := False, cr_target := None, cr_inactive_since := s, cr_reactivation_due := d\<rparr>)"
    for s d using ok by (simp_all add: creature_ok_def)
  show ?thesis
  proof (cases "cr_active rt")
    case True
    with Some drop [OF idle(2)] show ?thesis
      by (simp add: deactivate_static_creature_def creature_def Let_def put_creature_def x_def)
  next
    case False
    with Some put [OF idle(1)] show ?thesis
      by (simp add: deactivate_static_creature_def creature_def Let_def)
  qed
qed (use assms in \<open>simp add: deactivate_static_creature_def creature_def\<close>)

lemma cooldowns_inv:
  "world_inv ex w \<Longrightarrow> p \<in> registered w \<Longrightarrow> world_inv ex (w\<lparr>w_combat_cooldowns := bt_insert p n (w_combat_cooldowns w)\<rparr>)"
  by (simp add: world_inv_def world_simps tiles_exclusive_def is_player_occupied_def)

lemma apply_static_creature_melee_damage_inv:
  assumes "world_inv ex w"
  shows "world_inv ex (snd (apply_static_creature_melee_damage a c n w))"
proof -
  have hit: "world_inv ex ((put_creature c (rt\<lparr>cr_health_percent := h\<rparr>) w)
      \<lparr>w_combat_cooldowns := bt_insert a t (w_combat_cooldowns w)\<rparr>)"
    if "bt_get (creatures w) c = Some rt" "bt_get (players w) a = Some pl" "h \<le> cr_health_percent rt" for rt pl h t
  proof -
    have "creature_ok (registered w) c (rt\<lparr>cr_health_percent := h\<rparr>)"
      using creature_get_ok [of w c rt] assms that(1,3) by (auto simp: world_inv_def creature_ok_def)
    from put_inv_same [OF assms that(1) this] have
      "world_inv ex (put_creature c (rt\<lparr>cr_health_percent := h\<rparr>) w)"
      by (simp add: same_spot_def entity_position_def)
    from cooldowns_inv [OF this, of a t] that(2) show ?thesis by (auto simp: put_creature_def)
  qed
  show ?thesis
    unfolding apply_static_creature_melee_damage_def Let_def
    by (rule keepsI, intro keeps_intros)
      (use assms hit deactivate_static_creature_inv in \<open>simp_all add: keeps_def\<close>)
qed

section \<open>Restoring a snapshot\<close>

lemma screen_records_known:
  "screen_records m rs seen = Ok (known, ignored) \<Longrightarrow>
     (\<forall>r \<in> set known. r \<in> set rs \<and> sn_health_percent r \<le> 100 \<and> bt_mem (sn_id r) m \<and>
        (\<exists>rt. bt_get m (sn_id r) = Some rt \<and> check_record rt r = Ok ())) \<and>
     distinct (map sn_id known) \<and> (\<forall>r \<in> set known. \<not> bt_mem (sn_id r) seen) \<and>
     length known + ignored = length rs"
proof (induction rs arbitrary: seen known ignored)
  case (Cons r rs)
  let ?seen = "bs_insert (sn_id r) seen"
  show ?case
  proof (cases "sn_position r = unplaced_origin \<or> bt_get m (sn_id r) = None")
    case True
    then obtain n where "screen_records m rs ?seen = Ok (known, n)" "ignored = Suc n"
      using Cons.prems by (auto simp: Let_def split: if_splits)
    from Cons.IH [OF this(1)] this(2) show ?thesis by auto
  next
    case False
    then obtain rt ks where rt: "bt_get m (sn_id r) = Some rt" "check_record rt r = Ok ()"
      and ks: "screen_records m rs ?seen = Ok (ks, ignored)" "known = r # ks"
      and h: "sn_health_percent r \<le> 100" "\<not> bt_mem (sn_id r) seen"
      using Cons.prems by (auto simp: Let_def split: if_splits)
    from Cons.IH [OF ks(1)] rt ks(2) h show ?thesis by (auto simp: bt_mem_of_get)
  qed
qed simp

lemma restored_runtime_ok:
  "creature_ok D c rt \<Longrightarrow> sn_health_percent r \<le> 100 \<Longrightarrow> creature_ok D c (restored_runtime now r rt)"
  by (auto simp: creature_ok_def restored_runtime_def Let_def)

lemma restored_facts [simp]:
  "cr_active (restored_runtime now r rt) = sn_active r"
  "entity_position (restored_runtime now r rt) = sn_position r"
  by (simp_all add: restored_runtime_def Let_def entity_position_def)

text \<open>What the writing pass leaves: the known creatures restored, the others as they were.\<close>

lemma apply_records_get:
  assumes "distinct (map sn_id rs)" and "\<forall>r \<in> set rs. bt_mem (sn_id r) m"
  shows "bt_get (snd (apply_records now rs changed m)) i =
    (case find (\<lambda>r. sn_id r = i) rs of None \<Rightarrow> bt_get m i
     | Some r \<Rightarrow> map_option (restored_runtime now r) (bt_get m i))"
  using assms
proof (induction rs arbitrary: m changed)
  case (Cons r rs)
  from Cons.prems(2) obtain rt where rt: "bt_get m (sn_id r) = Some rt" by (auto simp: bt_mem_ex)
  have none: "find (\<lambda>r'. sn_id r' = sn_id r) rs = None"
    using Cons.prems(1) by (auto simp: find_None_iff image_iff)
  show ?case
    using Cons.IH [of "bt_insert (sn_id r) (restored_runtime now r rt) m" "changed \<or> differs now r rt"] Cons.prems rt none
    by (auto simp: bt_get_insert split: option.split)
qed simp

lemma apply_records_unchanged:
  assumes "distinct (map sn_id rs)" and "\<not> fst (apply_records now rs changed m)"
    and "r \<in> set rs" and "bt_get m (sn_id r) = Some rt"
  shows "\<not> differs now r rt"
proof -
  have mono: "changed \<Longrightarrow> fst (apply_records now rs changed m)" for rs changed m
    by (induction rs arbitrary: changed m) (auto split: option.split)
  show ?thesis
    using assms
  proof (induction rs arbitrary: changed m)
    case (Cons s rs)
    show ?case
    proof (cases "r = s")
      case True
      with Cons.prems mono show ?thesis by auto
    next
      case False
      then have r1: "r \<in> set rs" using Cons.prems(3) by simp
      moreover have "sn_id s \<notin> sn_id ` set rs" using Cons.prems(1) by simp
      ultimately have "sn_id r \<noteq> sn_id s" by (metis imageI)
      note r = r1 this
      show ?thesis
      proof (cases "bt_get m (sn_id s)")
        case None
        with Cons.prems r Cons.IH show ?thesis by simp
      next
        case (Some a)
        with Cons.prems r Cons.IH [of "changed \<or> differs now s a" "bt_insert (sn_id s) (restored_runtime now s a) m"]
        show ?thesis by (simp add: bt_get_insert)
      qed
    qed
  qed simp
qed

lemma reserve_tiles_Ok:
  assumes "reserve_tiles w rs tiles = Ok u"
  shows "\<forall>r \<in> set rs. sn_active r \<longrightarrow> \<not> is_player_occupied w (sn_position r) \<and> \<not> bt_mem (sn_position r) tiles"
    and "\<forall>r \<in> set rs. \<forall>s \<in> set rs. sn_active r \<and> sn_active s \<and> sn_position r = sn_position s \<longrightarrow> r = s"
  using assms
  by (induction rs arbitrary: tiles) (fastforce split: if_splits)+

text \<open>The table after an accepted snapshot, entry by entry.\<close>

definition restored_table ::
  "nat \<Rightarrow> runtime_snapshot list \<Rightarrow> (nat, creature_runtime) btmap \<Rightarrow> (nat, creature_runtime) btmap \<Rightarrow> bool" where
  "restored_table now known m m' \<longleftrightarrow>
     (\<forall>i rt'. bt_get m' i = Some rt' \<longleftrightarrow>
        (\<exists>r rt. r \<in> set known \<and> sn_id r = i \<and> bt_get m i = Some rt \<and> rt' = restored_runtime now r rt) \<or>
        (i \<notin> sn_id ` set known \<and> bt_get m i = Some rt'))"

lemma apply_records_table:
  assumes "distinct (map sn_id known)" and "\<forall>r \<in> set known. bt_mem (sn_id r) m"
  shows "restored_table now known m (snd (apply_records now known changed m))"
  unfolding restored_table_def
proof (intro allI)
  fix i rt'
  have uniq: "r = s" if "r \<in> set known" "s \<in> set known" "sn_id r = sn_id s" for r s
    using assms(1) that by (auto simp: distinct_map inj_on_def)
  show "bt_get (snd (apply_records now known changed m)) i = Some rt' \<longleftrightarrow>
      (\<exists>r rt. r \<in> set known \<and> sn_id r = i \<and> bt_get m i = Some rt \<and> rt' = restored_runtime now r rt) \<or>
      (i \<notin> sn_id ` set known \<and> bt_get m i = Some rt')"
  proof (cases "find (\<lambda>r. sn_id r = i) known")
    case None
    then have "i \<notin> sn_id ` set known" by (auto simp: find_None_iff)
    with None show ?thesis by (auto simp: apply_records_get [OF assms])
  next
    case (Some r)
    from find_Some_set [OF Some] have r: "r \<in> set known" "sn_id r = i" by auto
    with Some uniq show ?thesis by (auto simp: apply_records_get [OF assms])
  qed
qed

lemma restore_static_creature_runtime_inv:
  assumes "world_inv ex w"
  shows "world_inv ex (snd (restore_static_creature_runtime records w))"
proof (cases "screen_records (creatures w) records bt_empty")
  case (Inr x)
  obtain known ignored where x: "x = (known, ignored)" by (rule prod.exhaust)
  note k = screen_records_known [OF Inr [unfolded x]]
  define ids where "ids = bs_of_list (map sn_id known)"
  define tiles where "tiles = bs_of_list (map (\<lambda>(_, rt). entity_position rt)
      (filter (\<lambda>(i, rt). cr_active rt \<and> \<not> bt_mem i ids) (entries (creatures w))))"
  obtain changed m where a: "apply_records (tick w) known False (creatures w) = (changed, m)" by (rule prod.exhaust)
  show ?thesis
  proof (cases "reserve_tiles w known tiles")
    case (Inr u)
    note res = reserve_tiles_Ok [OF Inr]
    have w: "world_wf w" "ex \<Longrightarrow> tiles_exclusive w" using assms by (simp_all add: world_inv_def)
    have tab: "restored_table (tick w) known (creatures w) m"
      using apply_records_table [of known "creatures w" "tick w" False] k a by simp
    have entry: "(\<exists>r rt. r \<in> set known \<and> sn_id r = i \<and> bt_get (creatures w) i = Some rt \<and>
          rt' = restored_runtime (tick w) r rt) \<or> (i \<notin> sn_id ` set known \<and> bt_get (creatures w) i = Some rt')"
      if "bt_get m i = Some rt'" for i rt'
      using tab that unfolding restored_table_def by blast
    have old: "bt_mem (entity_position rt) tiles" if "bt_get (creatures w) i = Some rt" "cr_active rt"
      "i \<notin> sn_id ` set known" for i rt
      using that unfolding tiles_def ids_def by (force simp: in_entries_iff)
    have ok: "all_creatures_ok (registered w) m"
      unfolding all_creatures_ok_def
    proof (intro allI impI)
      fix i rt' assume "bt_get m i = Some rt'"
      from entry [OF this] consider (known) r rt where "r \<in> set known" "bt_get (creatures w) i = Some rt"
          "rt' = restored_runtime (tick w) r rt" | (other) "bt_get (creatures w) i = Some rt'" by blast
      then show "creature_ok (registered w) i rt'"
      proof cases
        case known
        with k creature_get_ok [OF w(1) known(2)] show ?thesis by (simp add: restored_runtime_ok)
      qed (rule creature_get_ok [OF w(1)])
    qed
    have apart: "creatures_apart m" if ex
      unfolding creatures_apart_def
    proof (intro allI impI, elim conjE)
      fix i j a b
      assume e: "bt_get m i = Some a" "bt_get m j = Some b" "cr_active a" "cr_active b"
        "entity_position a = entity_position b"
      have src: "(\<exists>r \<in> set known. sn_id r = k \<and> sn_active r \<and> sn_position r = entity_position c) \<or>
          (k \<notin> sn_id ` set known \<and> bt_get (creatures w) k = Some c)"
        if "bt_get m k = Some c" "cr_active c" for k c
        using entry [OF that(1)] that(2) by auto
      from src [OF e(1,3)] src [OF e(2,4)] show "i = j" using w(2) [OF that]
      proof (elim disjE bexE conjE, goal_cases)
        case (1 r s)
        with res(2) e(5) have "r = s" by metis
        with 1 show ?case by simp
      next
        case (2 r)
        with res(1) e(4,5) old [of j b] show ?case by metis
      next
        case (3 r)
        with res(1) e(3,5) old [of i a] show ?case by metis
      next
        case 4
        with creatures_apartD [of "creatures w" i a j b] e show ?case by (simp add: tiles_exclusive_def)
      qed
    qed
    have at: "\<not> is_player_occupied w q" if q: "active_at m q" and ex for q
    proof -
      from q obtain i rt' where i: "bt_get m i = Some rt'" "cr_active rt'" "entity_position rt' = q"
        by (auto simp: active_at_def entity_position_def)
      from entry [OF i(1)] show ?thesis
      proof (elim disjE exE conjE)
        fix r rt assume "r \<in> set known" "rt' = restored_runtime (tick w) r rt"
        with i res(1) show ?thesis by auto
      next
        assume "bt_get (creatures w) i = Some rt'"
        with i have "active_at (creatures w) q" by (auto simp: active_at_def entity_position_def)
        with w(2) [OF \<open>ex\<close>] show ?thesis by (simp add: tiles_exclusive_def)
      qed
    qed
    have alone: "ex \<longrightarrow> tiles_exclusive (w\<lparr>creatures := m\<rparr>)"
      using apart at by (simp add: tiles_exclusive_def is_player_occupied_def)
    have run: "snd (restore_static_creature_runtime records w) =
        (if changed then mark_changed ((refresh_static_creature_occupancy (w\<lparr>creatures := m\<rparr>))
            \<lparr>w_interactions := keep_live_targets m (w_interactions w)\<rparr>) else w\<lparr>creatures := m\<rparr>)"
      using \<open>screen_records _ _ _ = _\<close> x Inr a
      by (simp add: restore_static_creature_runtime_def Let_def tiles_def ids_def)
    show ?thesis
    proof (cases changed)
      case True
      have "world_inv ex (refresh_static_creature_occupancy (w\<lparr>creatures := m\<rparr>))"
        using refresh_wf [OF w(1) ok] alone by (simp add: world_inv_def)
      moreover have "intents_wf (registered w) (keep_live_targets m (w_interactions w))"
        using world_wf_tables(19) [OF w(1)] by (simp add: keep_live_targets_def intents_wf_retain)
      ultimately show ?thesis
        using True run interactions_inv by (simp add: refresh_static_creature_occupancy_def)
    next
      case False
      have same: "same_spot rt (restored_runtime (tick w) r rt)"
        if "r \<in> set known" "bt_get (creatures w) (sn_id r) = Some rt" for r rt
        using apply_records_unchanged [of known "tick w" False "creatures w" r rt] k a False that
        by (simp add: differs_def same_spot_def)
      have newer: "\<exists>c. bt_get m i = Some c \<and> same_spot rt c" if "bt_get (creatures w) i = Some rt" for i rt
      proof (cases "i \<in> sn_id ` set known")
        case True
        then obtain r where r: "r \<in> set known" "sn_id r = i" by auto
        with that tab have "bt_get m i = Some (restored_runtime (tick w) r rt)" unfolding restored_table_def by blast
        with same [of r rt] r that show ?thesis by auto
      next
        case False
        with that tab have "bt_get m i = Some rt" unfolding restored_table_def by blast
        then show ?thesis by (auto simp: same_spot_def)
      qed
      have forth: "\<exists>rt. bt_get (creatures w) i = Some rt \<and> same_spot rt c" if "bt_get m i = Some c" for i c
        using entry [OF that] same by (auto simp: same_spot_def)
      have "active_at m q \<longleftrightarrow> active_at (creatures w) q" for q
      proof
        assume "active_at m q"
        then obtain i c where "bt_get m i = Some c" "cr_active c" "se_position (cr_entity c) = q" by (auto simp: active_at_def)
        with forth [of i c] show "active_at (creatures w) q"
          unfolding active_at_def same_spot_def entity_position_def by metis
      next
        assume "active_at (creatures w) q"
        then obtain i c where "bt_get (creatures w) i = Some c" "cr_active c" "se_position (cr_entity c) = q"
          by (auto simp: active_at_def)
        with newer [of i c] show "active_at m q" unfolding active_at_def same_spot_def entity_position_def by metis
      qed
      then have "occupancy_wf m (occupied w)" using world_creatures(2) [OF w(1)] by (simp add: occupancy_wf_def)
      from world_wf_creatures [OF w(1) ok this] alone False run show ?thesis by (simp add: world_inv_def)
    qed
  qed (use assms Inr x in \<open>simp add: restore_static_creature_runtime_def Let_def tiles_def ids_def\<close>)
qed (use assms in \<open>simp add: restore_static_creature_runtime_def\<close>)

section \<open>Installing\<close>

lemma install_loop_get:
  "install_loop col w es m = Ok m' \<Longrightarrow> bt_get m' i = Some rt \<Longrightarrow>
     bt_get m i = Some rt \<or>
     (\<exists>e \<in> set es. i = se_id e \<and> rt = placed_runtime col (tick w) e \<and> \<not> is_player_occupied w (se_position e))"
proof (induction es arbitrary: m)
  case (Cons e es)
  then have r: "install_loop col w es (bt_insert (se_id e) (placed_runtime col (tick w) e) m) = Ok m'"
    "\<not> is_player_occupied w (se_position e)" by (auto split: if_splits)
  from Cons.IH [OF r(1) Cons.prems(2)] r(2) show ?case by (auto simp: bt_get_insert split: if_splits)
qed simp

lemma placed_ok:
  assumes "spawns_wf col" and "e \<in> set (sc_entities col)"
  shows "creature_ok D (se_id e) (placed_runtime col now e)"
proof -
  note col = assms(1) [unfolded spawns_wf_def Let_def]
  have "\<forall>x \<in> set (loot_table col (se_id e)). loot_entry_ok x"
    using col by (cases "bt_get (sc_loot_tables col) (se_id e)") (simp_all add: loot_table_def)
  moreover have "se_health_percent e \<le> 100" using col assms(2) by (simp add: entity_ok_def)
  ultimately show ?thesis using col by (simp add: creature_ok_def placed_runtime_def)
qed

lemma install_wf:
  assumes "spawns_wf col" and "world_wf w"
  shows "world_wf (snd (install_static_creatures col w))"
proof -
  have "world_wf (refresh_static_creature_occupancy (w\<lparr>creatures := m\<rparr>))"
    if "install_loop col w (sc_entities col) bt_empty = Ok m" for m
    using install_loop_get [OF that] placed_ok [OF assms(1)]
    by (intro refresh_wf [OF assms(2)]) (fastforce simp: all_creatures_ok_def)
  then show ?thesis using assms(2) by (auto simp: install_static_creatures_def attempt_def split: sum.split)
qed

text \<open>The installation checks players but not other creatures: the tiles are exclusive when the
  collection places its creatures on different ones.\<close>

lemma install_exclusive:
  assumes "spawns_wf col" and "install_static_creatures col w = (Ok u, w')"
    and "distinct (map se_position (filter (\<lambda>e. se_position e \<noteq> unplaced_origin) (sc_entities col)))"
  shows "tiles_exclusive w'"
proof -
  from assms(2) obtain m where m: "install_loop col w (sc_entities col) bt_empty = Ok m"
    and w': "w' = mark_changed (refresh_static_creature_occupancy (w\<lparr>creatures := m\<rparr>))"
    by (auto simp: install_static_creatures_def split: if_splits)
  have entry: "\<exists>e \<in> set (sc_entities col). i = se_id e \<and> entity_position rt = se_position e \<and>
      cr_active rt = (se_position e \<noteq> unplaced_origin) \<and> \<not> is_player_occupied w (se_position e)"
    if "bt_get m i = Some rt" for i rt
    using install_loop_get [OF m that] by (auto simp: placed_runtime_def entity_position_def)
  have "creatures_apart m"
    unfolding creatures_apart_def
  proof (intro allI impI, elim conjE)
    fix i j a b
    assume g: "bt_get m i = Some a" "bt_get m j = Some b" and act: "cr_active a" "cr_active b"
      and same: "entity_position a = entity_position b"
    from entry [OF g(1)] entry [OF g(2)] obtain e f where ef: "e \<in> set (sc_entities col)" "i = se_id e"
      "f \<in> set (sc_entities col)" "j = se_id f" "se_position e = se_position f" "se_position e \<noteq> unplaced_origin"
      using act same by metis
    with assms(3) have "e = f" by (auto simp: distinct_map inj_on_def)
    with ef show "i = j" by simp
  qed
  moreover have "\<not> is_player_occupied w q" if "active_at m q" for q
    using that entry unfolding active_at_def entity_position_def by metis
  ultimately show ?thesis
    by (simp add: w') (simp add: tiles_exclusive_def is_player_occupied_def)
qed

end
