(* ===== verification/Detour.thy ===== *)
theory Detour
  imports World_Map
begin

text \<open>
  The bounded search of \<open>static_creature_detour_direction\<close>
  (\<open>crates/forgotten-core/src/world_static.rs\<close>): a breadth-first search over the free tiles that
  returns the first step of a way to a tile beside the target. The search is a function of the
  predicate \<open>free\<close> on tiles. It always ends, a direction it returns starts a free way within the
  budget, and it returns none only when there is no such way.
\<close>

section \<open>The search\<close>

definition search_directions :: "cardinal_direction list" where
  "search_directions = [North, East, South, West]"

text \<open>A tile of the frontier with the first direction taken and its distance.\<close>

type_synonym search_node = "position \<times> cardinal_direction option \<times> nat"

fun expand ::
  "(position \<Rightarrow> bool) \<Rightarrow> position \<Rightarrow> search_node \<Rightarrow> cardinal_direction list \<Rightarrow> position btset \<Rightarrow>
     search_node list \<Rightarrow> cardinal_direction option + position btset \<times> search_node list" where
  "expand free target node [] visited frontier = Inr (visited, frontier)"
| "expand free target (p, first, n) (d # ds) visited frontier =
     (case step p d of
        Inl _ \<Rightarrow> expand free target (p, first, n) ds visited frontier
      | Inr q \<Rightarrow>
          if bt_mem q visited then expand free target (p, first, n) ds visited frontier
          else if \<not> free q then expand free target (p, first, n) ds (bs_insert q visited) frontier
          else
            let first1 = (case first of None \<Rightarrow> Some d | Some f \<Rightarrow> Some f) in
            if is_adjacent_to q target then Inl first1
            else expand free target (p, first, n) ds (bs_insert q visited) (frontier @ [(q, first1, n + 1)]))"

text \<open>Every tile weighs more than the four tiles it can push.\<close>

definition weight :: "nat \<Rightarrow> search_node list \<Rightarrow> nat" where
  "weight budget frontier = sum_list (map (\<lambda>(_, _, n). 5 ^ (budget - n)) frontier)"

lemma weight_simps [simp]:
  "weight budget [] = 0"
  "weight budget ((p, first, n) # frontier) = 5 ^ (budget - n) + weight budget frontier"
  "weight budget (xs @ ys) = weight budget xs + weight budget ys"
  by (simp_all add: weight_def)

lemma expand_weight:
  "expand free target (p, first, n) ds visited frontier = Inr (visited', frontier') \<Longrightarrow>
     weight budget frontier' \<le> weight budget frontier + length ds * 5 ^ (budget - Suc n)"
proof (induction ds arbitrary: visited frontier)
  case (Cons d ds)
  show ?case
    using Cons.prems Cons.IH
    by (auto simp: Let_def split: sum.splits if_splits option.splits) (fastforce dest: Cons.IH)+
qed simp

function search ::
  "(position \<Rightarrow> bool) \<Rightarrow> position \<Rightarrow> nat \<Rightarrow> position btset \<Rightarrow> search_node list \<Rightarrow> cardinal_direction option" where
  "search free target budget visited [] = None"
| "search free target budget visited ((p, first, n) # frontier) =
     (if n \<ge> budget then search free target budget visited frontier
      else case expand free target (p, first, n) search_directions visited frontier of
          Inl found \<Rightarrow> found
        | Inr (visited1, frontier1) \<Rightarrow> search free target budget visited1 frontier1)"
  by pat_completeness auto

termination
proof (relation "measure (\<lambda>(free, target, budget, visited, frontier). weight budget frontier)", goal_cases)
  case (3 free target budget visited p first n frontier y visited1 frontier1)
  then have "weight budget frontier1 \<le> weight budget frontier + 4 * 5 ^ (budget - Suc n)"
    using expand_weight [of free target p first n search_directions visited frontier visited1 frontier1 budget]
    by (simp add: search_directions_def)
  moreover have "(5::nat) ^ (budget - n) = 5 * 5 ^ (budget - Suc n)"
    using 3 by (simp add: Suc_diff_Suc flip: power_Suc)
  moreover have "(0::nat) < 5 ^ (budget - Suc n)" by simp
  ultimately have "weight budget frontier1 < 5 ^ (budget - n) + weight budget frontier" by linarith
  then show ?case by simp
qed simp_all

definition detour :: "(position \<Rightarrow> bool) \<Rightarrow> position \<Rightarrow> position \<Rightarrow> nat \<Rightarrow> cardinal_direction option" where
  "detour free source target budget =
     (if budget = 0 then None
      else search free target budget (bs_insert source bt_empty) [(source, None, 0)])"

section \<open>Ways\<close>

text \<open>Where a list of steps leads when every tile it enters is free.\<close>

fun way :: "(position \<Rightarrow> bool) \<Rightarrow> position \<Rightarrow> cardinal_direction list \<Rightarrow> position option" where
  "way free p [] = Some p"
| "way free p (d # ds) =
     (case step p d of Inl _ \<Rightarrow> None | Inr q \<Rightarrow> if free q then way free q ds else None)"

lemma way_Cons:
  "way free p (d # ds) = Some r \<longleftrightarrow> (\<exists>q. step p d = Inr q \<and> free q \<and> way free q ds = Some r)"
  by (auto split: sum.splits if_splits)

lemma way_append: "way free p (ds @ es) = Option.bind (way free p ds) (\<lambda>q. way free q es)"
  by (induction ds arbitrary: p) (auto split: sum.split)

lemma way_snoc:
  "way free p (ds @ [d]) = Some r \<longleftrightarrow> (\<exists>q. way free p ds = Some q \<and> step q d = Inr r \<and> free r)"
  by (cases "way free p ds") (auto simp: way_append split: sum.splits if_splits)

lemma way_free: "way free p ds = Some q \<Longrightarrow> q = p \<or> free q"
proof (induction ds arbitrary: p)
  case (Cons d ds)
  then show ?case by (auto split: sum.splits if_splits)
qed simp

section \<open>A direction found starts a free way\<close>

definition node_ok :: "(position \<Rightarrow> bool) \<Rightarrow> position \<Rightarrow> search_node \<Rightarrow> bool" where
  "node_ok free source = (\<lambda>(p, first, n).
     \<exists>ds. way free source ds = Some p \<and> length ds = n \<and>
       first = (case ds of [] \<Rightarrow> None | d # _ \<Rightarrow> Some d))"

definition good_start :: "(position \<Rightarrow> bool) \<Rightarrow> position \<Rightarrow> position \<Rightarrow> nat \<Rightarrow> cardinal_direction option \<Rightarrow> bool" where
  "good_start free source target budget r \<longleftrightarrow>
     (\<exists>d ds q. r = Some d \<and> way free source (d # ds) = Some q \<and> is_adjacent_to q target \<and>
        length (d # ds) \<le> budget)"

lemma node_step:
  assumes "node_ok free source (p, first, n)" and "step p d = Inr q" and "free q"
  shows "node_ok free source (q, (case first of None \<Rightarrow> Some d | Some f \<Rightarrow> Some f), n + 1)"
proof -
  from assms(1) obtain ds where ds: "way free source ds = Some p" "length ds = n"
    "first = (case ds of [] \<Rightarrow> None | d # _ \<Rightarrow> Some d)" by (auto simp: node_ok_def)
  have "way free source (ds @ [d]) = Some q" using ds(1) assms(2,3) by (auto simp: way_snoc)
  with ds show ?thesis unfolding node_ok_def by (auto intro!: exI [of _ "ds @ [d]"] split: list.splits)
qed

lemma node_found:
  assumes "node_ok free source (q, Some f, Suc n)" and "is_adjacent_to q target" and "n < budget"
  shows "good_start free source target budget (Some f)"
proof -
  from assms(1) obtain ds where ds: "way free source ds = Some q" "length ds = Suc n"
    "Some f = (case ds of [] \<Rightarrow> None | d # _ \<Rightarrow> Some d)" by (auto simp: node_ok_def)
  then obtain es where "ds = f # es" by (cases ds) auto
  with ds assms(2,3) show ?thesis unfolding good_start_def by (intro exI [of _ f] exI [of _ es]) auto
qed

lemma expand_sound:
  assumes "node_ok free source (p, first, n)" and "n < budget" and "\<forall>x \<in> set frontier. node_ok free source x"
  shows "case expand free target (p, first, n) ds visited frontier of
      Inl r \<Rightarrow> good_start free source target budget r
    | Inr (visited1, frontier1) \<Rightarrow> \<forall>x \<in> set frontier1. node_ok free source x"
  using assms(3)
proof (induction ds arbitrary: visited frontier)
  case (Cons d ds)
  show ?case
  proof (cases "step p d")
    case (Inr q)
    let ?first = "case first of None \<Rightarrow> Some d | Some f \<Rightarrow> Some f"
    show ?thesis
    proof (cases "bt_mem q visited \<or> \<not> free q")
      case False
      then have q: "node_ok free source (q, ?first, n + 1)" using node_step [OF assms(1) Inr] by simp
      obtain f where f: "?first = Some f" by (cases first) auto
      show ?thesis
      proof (cases "is_adjacent_to q target")
        case True
        with False Inr f node_found [of free source q f n target budget] q assms(2) show ?thesis
          by (simp add: Let_def)
      next
        case False
        have "\<forall>x \<in> set (frontier @ [(q, ?first, n + 1)]). node_ok free source x" using Cons.prems q by auto
        from Cons.IH [OF this] False Inr \<open>\<not> (bt_mem q visited \<or> \<not> free q)\<close> show ?thesis
          by (simp add: Let_def)
      qed
    qed (use Inr Cons in auto)
  qed (use Cons in auto)
qed simp

lemma search_sound:
  assumes "\<forall>x \<in> set frontier. node_ok free source x" and "search free target budget visited frontier = Some d"
  shows "good_start free source target budget (Some d)"
  using assms
proof (induction free target budget visited frontier rule: search.induct)
  case (2 free target budget visited p first n frontier)
  show ?case
  proof (cases "n \<ge> budget")
    case False
    with expand_sound [of free source p first n budget frontier target search_directions visited] 2 show ?thesis
      by (auto split: sum.splits)
  qed (use 2 in auto)
qed simp

section \<open>None is returned only when there is no way\<close>

text \<open>What a round of expansion adds.\<close>

definition expansion ::
  "(position \<Rightarrow> bool) \<Rightarrow> position \<Rightarrow> position \<Rightarrow> nat \<Rightarrow> cardinal_direction list \<Rightarrow> position btset \<Rightarrow> position btset \<Rightarrow>
     search_node list \<Rightarrow> bool" where
  "expansion free target p n ds visited visited1 new \<longleftrightarrow>
     (\<forall>x \<in> set new. snd (snd x) = n + 1 \<and> \<not> is_adjacent_to (fst x) target) \<and>
     fst ` set new = {q. free q \<and> bt_mem q visited1 \<and> \<not> bt_mem q visited} \<and>
     (\<forall>q. bt_mem q visited1 \<longleftrightarrow> bt_mem q visited \<or> (\<exists>d \<in> set ds. step p d = Inr q))"

lemma expansion_skip:
  assumes "expansion free target p n ds visited visited1 new" and "\<And>q. step p d = Inr q \<Longrightarrow> bt_mem q visited"
  shows "expansion free target p n (d # ds) visited visited1 new"
  using assms unfolding expansion_def by auto

lemma expansion_blocked:
  assumes "expansion free target p n ds (bs_insert q visited) visited1 new" and "step p d = Inr q"
    and "\<not> free q"
  shows "expansion free target p n (d # ds) visited visited1 new"
  using assms unfolding expansion_def by auto

lemma expansion_push:
  assumes "expansion free target p n ds (bs_insert q visited) visited1 new" and "step p d = Inr q"
    and "free q" and "\<not> bt_mem q visited" and "\<not> is_adjacent_to q target"
  shows "expansion free target p n (d # ds) visited visited1 ((q, f, n + 1) # new)"
  using assms unfolding expansion_def by auto

lemma expand_Inr:
  "expand free target (p, first, n) ds visited frontier = Inr (visited1, frontier1) \<Longrightarrow>
     \<exists>new. frontier1 = frontier @ new \<and> expansion free target p n ds visited visited1 new"
proof (induction ds arbitrary: visited frontier)
  case Nil
  then show ?case by (auto simp: expansion_def)
next
  case (Cons d ds)
  show ?case
  proof (cases "step p d")
    case (Inl e)
    with Cons.prems have "expand free target (p, first, n) ds visited frontier = Inr (visited1, frontier1)" by simp
    from Cons.IH [OF this] Inl expansion_skip [of free target p n ds visited visited1 _ d] show ?thesis by auto
  next
    case (Inr q)
    consider (seen) "bt_mem q visited" | (blocked) "\<not> bt_mem q visited" "\<not> free q"
      | (pushed) "\<not> bt_mem q visited" "free q" by blast
    then show ?thesis
    proof cases
      case seen
      with Inr Cons.prems have "expand free target (p, first, n) ds visited frontier = Inr (visited1, frontier1)" by simp
      from Cons.IH [OF this] Inr seen expansion_skip [of free target p n ds visited visited1 _ d] show ?thesis by auto
    next
      case blocked
      with Inr Cons.prems have "expand free target (p, first, n) ds (bs_insert q visited) frontier = Inr (visited1, frontier1)"
        by simp
      from Cons.IH [OF this] Inr blocked(2) show ?thesis by (auto intro: expansion_blocked)
    next
      case pushed
      let ?f = "case first of None \<Rightarrow> Some d | Some f \<Rightarrow> Some f"
      from pushed Inr Cons.prems have adj: "\<not> is_adjacent_to q target"
        and "expand free target (p, first, n) ds (bs_insert q visited) (frontier @ [(q, ?f, n + 1)]) = Inr (visited1, frontier1)"
        by (auto simp: Let_def split: if_splits)
      from Cons.IH [OF this(2)] obtain new where "frontier1 = frontier @ (q, ?f, n + 1) # new"
        "expansion free target p n ds (bs_insert q visited) visited1 new" by auto
      with expansion_push [OF this(2) Inr pushed(2,1) adj] show ?thesis by blast
    qed
  qed
qed

lemma expand_Inl: "expand free target (p, first, n) ds visited frontier = Inl r \<Longrightarrow> r \<noteq> None"
  by (induction ds arbitrary: visited frontier) (auto simp: Let_def split: sum.splits if_splits option.splits)

text \<open>\<open>L\<close> labels every visited tile with the distance at which it was found. A tile taken off the
  frontier below the budget has all its free neighbours labelled at most one more.\<close>

definition search_inv ::
  "(position \<Rightarrow> bool) \<Rightarrow> position \<Rightarrow> position \<Rightarrow> nat \<Rightarrow> position btset \<Rightarrow> search_node list \<Rightarrow> (position \<Rightarrow> nat) \<Rightarrow> bool" where
  "search_inv free source target budget visited frontier L \<longleftrightarrow>
     (let known = \<lambda>q. bt_mem q visited \<and> (q = source \<or> free q) in
       bt_mem source visited \<and> L source = 0 \<and>
       (\<forall>x \<in> set frontier. known (fst x) \<and> L (fst x) = snd (snd x)) \<and>
       sorted (map (snd \<circ> snd) frontier) \<and>
       (\<forall>x \<in> set frontier. \<forall>q. known q \<longrightarrow> L q \<le> Suc (snd (snd x))) \<and>
       (\<forall>p. known p \<and> p \<notin> fst ` set frontier \<and> L p < budget \<longrightarrow>
          (\<forall>d q. step p d = Inr q \<longrightarrow> bt_mem q visited \<and> (free q \<longrightarrow> L q \<le> Suc (L p)))) \<and>
       (\<forall>q. bt_mem q visited \<and> free q \<and> q \<noteq> source \<longrightarrow> \<not> is_adjacent_to q target))"

lemma search_inv_skip:
  assumes "search_inv free source target budget visited ((p, first, n) # frontier) L" and "budget \<le> n"
  shows "search_inv free source target budget visited frontier L"
  using assms
  unfolding search_inv_def Let_def list.set list.map sorted_simps ball_simps comp_apply fst_conv snd_conv image_insert
proof (elim conjE, intro conjI, goal_cases)
  case 6
  have "r \<noteq> p" if "L r < budget" for r using that \<open>L p = n\<close> \<open>budget \<le> n\<close> by auto
  with 6(12) show ?case by blast
qed assumption+

lemma search_inv_expand:
  assumes "search_inv free source target budget visited ((p, first, n) # frontier) L" and "n < budget"
    and "expand free target (p, first, n) search_directions visited frontier = Inr (visited1, frontier1)"
  shows "\<exists>L1. search_inv free source target budget visited1 frontier1 L1"
proof -
  from expand_Inr [OF assms(3)] obtain new where f: "frontier1 = frontier @ new"
    and e: "expansion free target p n search_directions visited visited1 new" by blast
  have new: "frontier1 = frontier @ new" "\<forall>x \<in> set new. snd (snd x) = n + 1"
    "fst ` set new = {q. free q \<and> bt_mem q visited1 \<and> \<not> bt_mem q visited}"
    "\<forall>q. bt_mem q visited1 \<longleftrightarrow> bt_mem q visited \<or> (\<exists>d \<in> set search_directions. step p d = Inr q)"
    "\<forall>x \<in> set new. \<not> is_adjacent_to (fst x) target"
    using f e [unfolded expansion_def] by simp_all
  note inv = assms(1) [unfolded search_inv_def Let_def]
  have all: "d \<in> set search_directions" for d by (cases d) (simp_all add: search_directions_def)
  have grow: "bt_mem q visited \<Longrightarrow> bt_mem q visited1" for q using new(4) by simp
  have seen: "bt_mem p visited" "bt_mem source visited" and lp: "L p = n" "L source = 0" using inv by auto
  have closed: "bt_mem q visited \<and> (free q \<longrightarrow> L q \<le> Suc (L r))"
    if "bt_mem r visited" "r = source \<or> free r" "r \<noteq> p" "r \<notin> fst ` set frontier" "L r < budget" "step r d = Inr q"
    for r d q
    using inv that by auto
  define L1 where "L1 q = (if bt_mem q visited then L q else Suc n)" for q
  have L1_old: "bt_mem q visited \<Longrightarrow> L1 q = L q" for q by (simp add: L1_def)
  have fresh: "q \<in> fst ` set new" if "bt_mem q visited1" "\<not> bt_mem q visited" "q = source \<or> free q" for q
    using that new(3) seen(2) by auto
  have new_node: "bt_mem (fst x) visited1 \<and> free (fst x) \<and> \<not> bt_mem (fst x) visited" if "x \<in> set new" for x
    using that new(3) by blast
  have bound: "L1 q \<le> Suc n" if "bt_mem q visited1" "q = source \<or> free q" for q
    using that inv by (cases "bt_mem q visited") (auto simp: L1_def)
  have tail: "n \<le> snd (snd x) \<and> bt_mem (fst x) visited \<and> (fst x = source \<or> free (fst x)) \<and> L (fst x) = snd (snd x)
      \<and> snd (snd x) \<le> Suc n" if "x \<in> set frontier" for x
    using inv that by (auto dest!: bspec [of "set frontier"])
  have "search_inv free source target budget visited1 frontier1 L1"
    unfolding search_inv_def Let_def
  proof (intro conjI ballI allI impI, goal_cases)
    case 1 then show ?case using grow [OF seen(2)] .
  next
    case 2 then show ?case using lp seen L1_old by simp
  next
    case (3 x) then show ?case using tail [of x] new_node [of x] grow by (auto simp: new(1))
  next
    case (4 x) then show ?case using tail [of x] new_node [of x] by (auto simp: new(1))
  next
    case (5 x) then show ?case using tail [of x] new_node [of x] new(2) L1_old by (auto simp: new(1) L1_def)
  next
    case 6
    have "map (snd \<circ> snd) new = replicate (length new) (n + 1)" using new(2) by (intro replicate_eqI) auto
    then show ?case using inv tail by (auto simp: new(1) sorted_append)
  next
    case (7 x q)
    then have "n \<le> snd (snd x)" using tail [of x] new(2) by (auto simp: new(1))
    with bound [of q] 7 show ?case by auto
  next
    case (8 r d q)
    have r: "bt_mem r visited" using fresh [of r] 8 by (auto simp: new(1))
    show ?case
    proof (cases "r = p")
      case True
      have "d \<in> set search_directions" by (rule all)
      with 8 True show ?thesis unfolding new(4) [rule_format] by blast
    next
      case False
      have "bt_mem q visited"
        using closed [OF r _ False _ _ 8(2)] 8(1) r by (auto simp: new(1) L1_old)
      then show ?thesis by (rule grow)
    qed
  next
    case (9 r d q)
    have r: "bt_mem r visited" using fresh [of r] 9 by (auto simp: new(1))
    show ?case
    proof (cases "r = p")
      case True
      have "d \<in> set search_directions" by (rule all)
      with 9(2) True have "bt_mem q visited1" unfolding new(4) [rule_format] by blast
      with bound [of q] 9(3) True lp seen show ?thesis by (simp add: L1_old)
    next
      case False
      have "bt_mem q visited \<and> (free q \<longrightarrow> L q \<le> Suc (L r))"
        using closed [OF r _ False _ _ 9(2)] 9(1) r by (auto simp: new(1) L1_old)
      with r 9(3) show ?thesis by (simp add: L1_old)
    qed
  next
    case (10 q)
    show ?case
    proof (cases "bt_mem q visited")
      case True
      with inv 10 show ?thesis by simp
    next
      case False
      with fresh [of q] 10 have "q \<in> fst ` set new" by blast
      with new(5) show ?thesis by auto
    qed
  qed
  then show ?thesis by (rule exI [of _ L1])
qed

lemma search_complete:
  assumes "search_inv free source target budget visited frontier L"
    and "search free target budget visited frontier = None"
    and "way free source ds = Some q" and "length ds \<le> budget" and "q \<noteq> source"
  shows "\<not> is_adjacent_to q target"
  using assms
proof (induction free target budget visited frontier arbitrary: L rule: search.induct)
  case (1 free target budget visited)
  note inv = 1(1) [unfolded search_inv_def Let_def, simplified]
  have "bt_mem q visited \<and> L q \<le> length ds" if "way free source ds = Some q" "length ds \<le> budget" for ds q
    using that
  proof (induction ds arbitrary: q rule: rev_induct)
    case Nil
    with inv show ?case by simp
  next
    case (snoc d ds)
    then obtain p where p: "way free source ds = Some p" "step p d = Inr q" "free q" by (auto simp: way_snoc)
    with snoc have known: "bt_mem p visited" "L p \<le> length ds" "p = source \<or> free p"
      using way_free [OF p(1)] by auto
    moreover have "L p < budget" using known(2) snoc.prems(2) by simp
    ultimately have "bt_mem q visited \<and> (free q \<longrightarrow> L q \<le> Suc (L p))" using inv p(2) by blast
    with p(3) known(2) show ?case by simp
  qed
  from this [OF 1(3,4)] 1 inv way_free [OF 1(3)] show ?case by auto
next
  case (2 free target budget visited p first n frontier)
  show ?case
  proof (cases "budget \<le> n")
    case True
    with 2 search_inv_skip [OF 2(3)] show ?thesis by auto
  next
    case False
    then have n: "n < budget" by simp
    show ?thesis
    proof (cases "expand free target (p, first, n) search_directions visited frontier")
      case (Inl r)
      with 2(4) False expand_Inl [OF Inl] show ?thesis by simp
    next
      case (Inr x)
      obtain visited1 frontier1 where x: "x = (visited1, frontier1)" by (rule prod.exhaust)
      from search_inv_expand [OF 2(3) n] Inr x obtain L1 where
        "search_inv free source target budget visited1 frontier1 L1" by blast
      with 2 False Inr x show ?thesis by auto
    qed
  qed
qed

section \<open>The search is exact\<close>

lemma detour_sound:
  assumes "detour free source target budget = Some d"
  shows "good_start free source target budget (Some d)"
proof -
  have "\<forall>x \<in> set [(source, None, 0)]. node_ok free source x"
    by (auto simp: node_ok_def intro!: exI [of _ "[]"])
  from search_sound [OF this] assms show ?thesis by (auto simp: detour_def split: if_splits)
qed

lemma detour_complete:
  assumes "detour free source target budget = None" and "\<not> is_adjacent_to source target"
    and "way free source ds = Some q" and "length ds \<le> budget"
  shows "\<not> is_adjacent_to q target"
proof (cases "q = source")
  case False
  then have "0 < budget" using assms(3,4) by (cases ds) auto
  have "search_inv free source target budget (bs_insert source bt_empty) [(source, None, 0)] (\<lambda>_. 0)"
    by (auto simp: search_inv_def)
  from search_complete [OF this _ assms(3,4) False] assms(1) \<open>0 < budget\<close> show ?thesis
    by (simp add: detour_def)
qed (use assms(2) in simp)

lemma detour_step:
  assumes "detour free source target budget = Some d"
  shows "\<exists>q. step source d = Inr q \<and> free q"
  using detour_sound [OF assms] unfolding good_start_def way_Cons by auto

section \<open>The way is a shortest one\<close>

text \<open>The frontier holds its tiles by distance, over at most two neighbouring ones.\<close>

fun layered :: "search_node list \<Rightarrow> bool" where
  "layered [] \<longleftrightarrow> True"
| "layered ((p, first, n) # xs) \<longleftrightarrow> (\<forall>(_, _, k) \<in> set xs. n \<le> k \<and> k \<le> n + 1) \<and> layered xs"

lemma layered_append:
  "layered xs \<Longrightarrow> \<forall>(_, _, k) \<in> set xs. n \<le> k \<and> k \<le> n + 1 \<Longrightarrow> \<forall>(_, _, k) \<in> set ys. k = n + 1 \<Longrightarrow> layered (xs @ ys)"
proof (induction xs rule: layered.induct)
  case 1
  then show ?case by (induction ys rule: layered.induct) auto
next
  case (2 p first k xs)
  then show ?case by (auto simp: ball_Un)
qed

lemma search_exhausted:
  "\<forall>(_, _, k) \<in> set frontier. budget \<le> k \<Longrightarrow> search free target budget visited frontier = None"
  by (induction frontier) auto

lemma search_more:
  assumes "layered frontier" and "search free target budget visited frontier = Some d" and "budget \<le> budget'"
  shows "search free target budget' visited frontier = Some d"
  using assms
proof (induction free target budget visited frontier rule: search.induct)
  case (2 free target budget visited p first n frontier)
  have near: "n < budget"
  proof (rule ccontr)
    assume "\<not> n < budget"
    then have "\<forall>(_, _, k) \<in> set ((p, first, n) # frontier). budget \<le> k" using "2.prems"(1) by auto
    from search_exhausted [OF this] "2.prems"(2) show False by simp
  qed
  show ?case
  proof (cases "expand free target (p, first, n) search_directions visited frontier")
    case (Inl found)
    with near "2.prems"(2,3) show ?thesis by simp
  next
    case (Inr x)
    obtain visited1 frontier1 where x: "x = (visited1, frontier1)" by (rule prod.exhaust)
    with Inr expand_Inr [of free target p first n search_directions visited frontier visited1 frontier1]
    obtain ys where ys: "frontier1 = frontier @ ys" "\<forall>(_, _, k) \<in> set ys. k = n + 1"
      by (auto simp: expansion_def split_beta)
    have "layered frontier1"
      unfolding ys(1) by (rule layered_append [OF _ _ ys(2)]) (use "2.prems"(1) in simp_all)
    moreover have "search free target budget visited1 frontier1 = Some d"
      using "2.prems"(2) near Inr x by simp
    ultimately have "search free target budget' visited1 frontier1 = Some d"
      using "2.IH"(2) [OF _ Inr x [symmetric]] near "2.prems"(3) by simp
    with near "2.prems"(3) Inr x show ?thesis by simp
  qed
qed simp

lemma detour_more: "detour free source target budget = Some d \<Longrightarrow> budget \<le> budget' \<Longrightarrow> detour free source target budget' = Some d"
  using search_more [of "[(source, None, 0)]" free target budget "bs_insert source bt_empty" d budget']
  by (simp add: detour_def split: if_splits)

lemma detour_shortest:
  assumes "detour free source target budget = Some d" and "\<not> is_adjacent_to source target"
  obtains ds q where "way free source (d # ds) = Some q" and "is_adjacent_to q target" and "length (d # ds) \<le> budget"
    and "\<And>es r. way free source es = Some r \<Longrightarrow> is_adjacent_to r target \<Longrightarrow> length (d # ds) \<le> length es"
proof -
  let ?reaches = "\<lambda>k. \<exists>es r. way free source es = Some r \<and> is_adjacent_to r target \<and> length es = k"
  from detour_sound [OF assms(1)] obtain ds q where s: "way free source (d # ds) = Some q"
    "is_adjacent_to q target" "length (d # ds) \<le> budget" by (auto simp: good_start_def)
  then have r: "?reaches (length (d # ds))" by blast
  define k where "k = (LEAST k. ?reaches k)"
  have k: "?reaches k" unfolding k_def by (rule LeastI [of ?reaches, OF r])
  have least: "k \<le> length es" if "way free source es = Some r" "is_adjacent_to r target" for es r
    unfolding k_def by (rule Least_le) (use that in blast)
  have "detour free source target k \<noteq> None"
    using detour_complete [OF _ assms(2)] k by blast
  then obtain e where e: "detour free source target k = Some e" by blast
  have "k \<le> budget" using least [OF s(1,2)] s(3) by simp
  from detour_more [OF e this] assms(1) have "e = d" by simp
  with detour_sound [OF e] obtain ds' q' where f: "way free source (d # ds') = Some q'"
    "is_adjacent_to q' target" "length (d # ds') \<le> k" by (auto simp: good_start_def)
  show thesis
  proof (rule that [OF f(1,2)])
    show "length (d # ds') \<le> budget" using f(3) \<open>k \<le> budget\<close> by simp
    show "length (d # ds') \<le> length es" if "way free source es = Some r" "is_adjacent_to r target" for es r
      using f(3) least [OF that] by simp
  qed
qed

end
