(* ===== verification/Static_Movement.thy ===== *)
theory Static_Movement
  imports Static_Creatures Detour
begin

text \<open>
  What a creature does to players and tiles (\<open>crates/forgotten-core/src/world_static.rs\<close>): selecting a
  target, attacking it, stepping towards it directly or by the detour search, and the clockwise policy
  that plans one step for every creature and then applies the plan.
\<close>

section \<open>Targets\<close>

abbreviation max_target_range :: nat where "max_target_range \<equiv> 8"

definition clear_static_creature_target :: "nat \<Rightarrow> unit action" where
  "clear_static_creature_target c w =
     attempt w (creature w c) (\<lambda>rt.
       let w1 = put_creature c (rt\<lparr>cr_target := None\<rparr>) w
       in (Ok (), if cr_target rt = None then w1 else mark_changed w1))"

definition static_creature_target :: "world_state \<Rightarrow> nat \<Rightarrow> nat option result" where
  "static_creature_target w c =
     rbind (creature w c) (\<lambda>rt.
       if cr_active rt then Ok (cr_target rt) else Inl (static_fault (InactiveStaticCreature c)))"

definition player_dead :: "world_state \<Rightarrow> nat \<Rightarrow> bool" where
  "player_dead w p = (case bt_get (w_respawn w) p of None \<Rightarrow> False | Some st \<Rightarrow> dead st)"

definition targetable :: "world_state \<Rightarrow> position \<Rightarrow> nat \<Rightarrow> nat \<times> player \<Rightarrow> bool" where
  "targetable w q reach = (\<lambda>(p, pl).
     pos_z (pl_position pl) = pos_z q \<and> \<not> bt_mem p (w_god w) \<and> \<not> bt_mem p (w_invisible w) \<and>
     \<not> player_dead w p \<and> chebyshev (pl_position pl) q \<le> reach)"

text \<open>\<open>min()\<close> over the pairs of distance and identifier, in the order of the tuples.\<close>

fun nearest :: "(nat \<times> nat) list \<Rightarrow> (nat \<times> nat) option" where
  "nearest [] = None"
| "nearest ((d, p) # rest) =
     (case nearest rest of
        None \<Rightarrow> Some (d, p)
      | Some (e, q) \<Rightarrow> if e < d \<or> (e = d \<and> q < p) then Some (e, q) else Some (d, p))"

definition nearest_target :: "world_state \<Rightarrow> position \<Rightarrow> nat \<Rightarrow> nat option" where
  "nearest_target w q reach =
     map_option snd (nearest (map (\<lambda>(p, pl). (chebyshev (pl_position pl) q, p))
       (filter (targetable w q reach) (entries (players w)))))"

record target_selection =
  sel_creature :: nat
  sel_target :: "nat option"
  sel_range :: nat

definition select_static_creature_target :: "nat \<Rightarrow> nat \<Rightarrow> target_selection action" where
  "select_static_creature_target c reach w =
     (if reach = 0 \<or> reach > max_target_range
      then (Inl (static_fault (InvalidStaticCreatureTargetRange reach)), w)
      else attempt w (creature w c) (\<lambda>rt.
        if \<not> cr_active rt then (Inl (static_fault (InactiveStaticCreature c)), w)
        else if cr_is_npc rt
        then chain (clear_static_creature_target c w) (\<lambda>_ w1.
          (Ok \<lparr>sel_creature = c, sel_target = None, sel_range = reach\<rparr>, w1))
        else
          let t = nearest_target w (entity_position rt) reach
          in (Ok \<lparr>sel_creature = c, sel_target = t, sel_range = reach\<rparr>,
              if cr_target rt = t then w else mark_changed (put_creature c (rt\<lparr>cr_target := t\<rparr>) w))))"

section \<open>Attacks\<close>

datatype attack_outcome =
  Attack_No_Target
| Cooldown_Not_Due nat nat
| Target_Not_Adjacent nat nat
| Applied nat nat nat nat nat "respawn_state option"

definition static_creature_declared_damage_for_next_hit :: "world_state \<Rightarrow> nat \<Rightarrow> nat option result" where
  "static_creature_declared_damage_for_next_hit w c =
     (case bt_get (creatures w) c of
        None \<Rightarrow> Ok None
      | Some rt \<Rightarrow>
          (case cr_damage_range rt of
             None \<Rightarrow> Ok None
           | Some r \<Rightarrow>
               rbind (inclusive_span (min_damage r) (max_damage r)) (\<lambda>span.
                 let n = min_damage r + cr_damage_sequence rt mod span
                 in Ok (if n \<le> u16_max then Some n else None))))"

text \<open>The requested damage and the creature after the draw: a declared range cycles.\<close>

definition next_hit :: "nat \<Rightarrow> creature_runtime \<Rightarrow> (nat \<times> creature_runtime) result" where
  "next_hit fallback rt =
     (case cr_damage_range rt of
        None \<Rightarrow> Ok (fallback, rt)
      | Some r \<Rightarrow>
          rbind (inclusive_span (min_damage r) (max_damage r)) (\<lambda>span.
            let n = min_damage r + cr_damage_sequence rt mod span
            in Ok (if n \<le> u16_max then n else max_damage r,
                   rt\<lparr>cr_damage_sequence := sat_add u64_max (cr_damage_sequence rt) 1\<rparr>)))"

definition rearm :: "nat \<Rightarrow> nat option \<Rightarrow> world_state \<Rightarrow> world_state" where
  "rearm c cooldown w =
     (case (cooldown, bt_get (creatures w) c) of
        (Some n, Some rt) \<Rightarrow> put_creature c (rt\<lparr>cr_next_melee_due := sat_add u64_max (tick w) n\<rparr>) w
      | _ \<Rightarrow> w)"

text \<open>The hit itself, after the checks: a potentially lethal one needs a town with a temple.\<close>

definition strike_target :: "nat \<Rightarrow> nat \<Rightarrow> nat \<Rightarrow> nat option \<Rightarrow> world_map \<Rightarrow> attack_outcome action" where
  "strike_target c p requested cooldown m w =
     attempt w (player_vitals w p) (\<lambda>v.
     attempt w (player_combat_defense w p) (\<lambda>defense.
       let mitigated = mitigate_physical defense requested;
           lethal = (health v > 0 \<and> mitigated \<ge> health v)
       in attempt w (if lethal
            then rbind (player_town w p) (\<lambda>town.
                   rbind (ok_or (temple_position_for_town m town) (player_fault (UnknownTown town))) (\<lambda>_. Ok (Some town)))
            else Ok None) (\<lambda>town.
          chain (apply_damage_to_known_target p mitigated w) (\<lambda>(applied, remaining) w1.
          chain (case town of
                   Some t \<Rightarrow> if remaining = 0 \<and> applied > 0
                     then chain (apply_player_death p t m w1) (\<lambda>st w2. (Ok (Some st), w2))
                     else (Ok None, w1)
                 | None \<Rightarrow> (Ok None, w1)) (\<lambda>death w2.
          chain (if death = None then (Ok (), w2) else clear_static_creature_target c w2) (\<lambda>_ w3.
            let w4 = (if applied > 0 then mark_changed w3 else w3)
            in (Ok (Applied c p requested applied remaining death), rearm c cooldown w4)))))))"

definition apply_static_creature_target_damage :: "nat \<Rightarrow> nat \<Rightarrow> world_map \<Rightarrow> attack_outcome action" where
  "apply_static_creature_target_damage c fallback m w =
     attempt w (creature w c) (\<lambda>rt.
       if \<not> cr_active rt then (Inl (static_fault (InactiveStaticCreature c)), w)
       else if tick w < cr_next_melee_due rt then (Ok (Cooldown_Not_Due c (cr_next_melee_due rt)), w)
       else if cr_is_npc rt
       then chain (clear_static_creature_target c w) (\<lambda>_ w1. (Ok Attack_No_Target, w1))
       else (case cr_target rt of
          None \<Rightarrow> (Ok Attack_No_Target, w)
        | Some p \<Rightarrow>
            (case bt_get (players w) p of
               None \<Rightarrow> chain (clear_static_creature_target c w) (\<lambda>_ w1. (Ok Attack_No_Target, w1))
             | Some pl \<Rightarrow>
                 if player_dead w p
                 then chain (clear_static_creature_target c w) (\<lambda>_ w1. (Ok Attack_No_Target, w1))
                 else if \<not> is_adjacent_to (entity_position rt) (pl_position pl)
                 then (Ok (Target_Not_Adjacent c p), w)
                 else attempt w (next_hit fallback rt) (\<lambda>(requested, rt1).
                   strike_target c p requested (cr_melee_cooldown rt) m (put_creature c rt1 w)))))"

section \<open>Steps\<close>

text \<open>\<open>iter().any(|(other, rt)| other != id && rt.active && rt.entity.position == q)\<close>.\<close>

definition other_creature_at :: "world_state \<Rightarrow> nat \<Rightarrow> position \<Rightarrow> bool" where
  "other_creature_at w c q =
     list_ex (\<lambda>(i, rt). i \<noteq> c \<and> cr_active rt \<and> entity_position rt = q) (entries (creatures w))"

definition relocate :: "position \<Rightarrow> creature_runtime \<Rightarrow> creature_runtime" where
  "relocate q rt = rt\<lparr>cr_entity := (cr_entity rt)\<lparr>se_position := q\<rparr>\<rparr>"

definition move_static_creature_cardinal ::
  "nat \<Rightarrow> cardinal_direction \<Rightarrow> world_map \<Rightarrow> (position \<times> position) action" where
  "move_static_creature_cardinal c d m w =
     attempt w (creature w c) (\<lambda>rt.
       if \<not> cr_active rt then (Inl (static_fault (InactiveStaticCreature c)), w)
       else attempt w (step (entity_position rt) d) (\<lambda>q.
         if \<not> is_walkable m q then (Inl (static_fault (StaticCreatureMovementBlocked q)), w)
         else if is_player_occupied w q
         then (Inl (static_fault (PlayerOccupiesStaticCreaturePosition q)), w)
         else if other_creature_at w c q then (Inl (static_fault (StaticCreatureOccupiesPosition q)), w)
         else (Ok (entity_position rt, q),
               mark_changed (refresh_static_creature_occupancy (put_creature c (relocate q rt) w)))))"

datatype step_outcome =
  Step_No_Target
| Already_Adjacent nat
| Step_Blocked nat
| Moved nat cardinal_direction position position

fun try_direct ::
  "nat \<Rightarrow> nat \<Rightarrow> position \<Rightarrow> cardinal_direction list \<Rightarrow> world_map \<Rightarrow> step_outcome option action" where
  "try_direct c p source [] m w = (Ok None, w)"
| "try_direct c p source (d # ds) m w =
     attempt w (step source d) (\<lambda>q.
       if \<not> is_walkable m q \<or> is_player_occupied w q \<or> other_creature_at w c q
       then try_direct c p source ds m w
       else chain (move_static_creature_cardinal c d m w) (\<lambda>(a, b) w1. (Ok (Some (Moved p d a b)), w1)))"

text \<open>The tiles the detour search may enter.\<close>

definition free_for :: "world_state \<Rightarrow> world_map \<Rightarrow> position \<Rightarrow> position \<Rightarrow> bool" where
  "free_for w m source q \<longleftrightarrow> is_walkable m q \<and> \<not> bt_mem q (standing_tiles w) \<and>
     \<not> bt_mem q (bt_remove source (occupied w))"

definition static_creature_detour_direction ::
  "world_state \<Rightarrow> position \<Rightarrow> position \<Rightarrow> world_map \<Rightarrow> nat \<Rightarrow> cardinal_direction option" where
  "static_creature_detour_direction w source target m budget =
     detour (free_for w m source) source target budget"

definition step_static_creature_toward_target_with_detour ::
  "nat \<Rightarrow> world_map \<Rightarrow> nat \<Rightarrow> step_outcome action" where
  "step_static_creature_toward_target_with_detour c m budget w =
     attempt w (creature w c) (\<lambda>rt.
       if \<not> cr_active rt then (Inl (static_fault (InactiveStaticCreature c)), w)
       else if cr_is_npc rt
       then chain (clear_static_creature_target c w) (\<lambda>_ w1. (Ok Step_No_Target, w1))
       else (case cr_target rt of
          None \<Rightarrow> (Ok Step_No_Target, w)
        | Some p \<Rightarrow>
            (case bt_get (players w) p of
               None \<Rightarrow> (Ok Step_No_Target, mark_changed (put_creature c (rt\<lparr>cr_target := None\<rparr>) w))
             | Some pl \<Rightarrow>
                 let source = entity_position rt; target = pl_position pl in
                 if player_dead w p
                 then (Ok Step_No_Target, mark_changed (put_creature c (rt\<lparr>cr_target := None\<rparr>) w))
                 else if is_adjacent_to source target then (Ok (Already_Adjacent p), w)
                 else if pos_z source \<noteq> pos_z target then (Ok (Step_Blocked p), w)
                 else chain (try_direct c p source (preferred_directions source target) m w) (\<lambda>direct w1.
                   case direct of
                     Some moved \<Rightarrow> (Ok moved, w1)
                   | None \<Rightarrow>
                       (case static_creature_detour_direction w1 source target m budget of
                          None \<Rightarrow> (Ok (Step_Blocked p), w1)
                        | Some d \<Rightarrow> chain (move_static_creature_cardinal c d m w1) (\<lambda>(a, b) w2.
                            (Ok (Moved p d a b), w2)))))))"

definition step_static_creature_toward_target :: "nat \<Rightarrow> world_map \<Rightarrow> step_outcome action" where
  "step_static_creature_toward_target c m w = step_static_creature_toward_target_with_detour c m 0 w"

section \<open>The clockwise policy\<close>

datatype decision_policy = Disabled | Clockwise_Adjacent

record decision_batch =
  db_decisions :: "(nat \<times> cardinal_direction) list"
  db_skipped :: nat

text \<open>The directions from the offset on; \<open>id + tick\<close> may wrap, which four divides.\<close>

definition rotated :: "nat \<Rightarrow> cardinal_direction list" where
  "rotated n = map (\<lambda>k. search_directions ! ((n mod 4 + k) mod 4)) [0, 1, 2, 3]"

definition pick ::
  "world_map \<Rightarrow> position btset \<Rightarrow> position btset \<Rightarrow> position \<Rightarrow> cardinal_direction list \<Rightarrow>
     (cardinal_direction \<times> position) option" where
  "pick m standing tiles source ds =
     List.find (\<lambda>_. True) (List.map_filter (\<lambda>d. case step source d of Inl _ \<Rightarrow> None
       | Inr q \<Rightarrow> if is_walkable m q \<and> \<not> bt_mem q standing \<and> \<not> bt_mem q tiles then Some (d, q) else None) ds)"

fun plan_loop ::
  "world_map \<Rightarrow> nat \<Rightarrow> position btset \<Rightarrow> (nat \<times> creature_runtime) list \<Rightarrow> position btset \<Rightarrow> decision_batch \<Rightarrow>
     decision_batch" where
  "plan_loop m now standing [] tiles b = b"
| "plan_loop m now standing ((c, rt) # rest) tiles b =
     (if \<not> cr_active rt then plan_loop m now standing rest tiles b
      else
        let source = entity_position rt; others = bt_remove source tiles in
        case pick m standing others source (rotated (c + now)) of
          Some (d, q) \<Rightarrow> plan_loop m now standing rest (bs_insert q others)
                           (b\<lparr>db_decisions := db_decisions b @ [(c, d)]\<rparr>)
        | None \<Rightarrow> plan_loop m now standing rest (bs_insert source others) (b\<lparr>db_skipped := db_skipped b + 1\<rparr>))"

definition plan_static_creature_moves :: "world_state \<Rightarrow> decision_policy \<Rightarrow> world_map \<Rightarrow> decision_batch" where
  "plan_static_creature_moves w policy m =
     (case policy of
        Disabled \<Rightarrow> \<lparr>db_decisions = [], db_skipped = 0\<rparr>
      | Clockwise_Adjacent \<Rightarrow>
          plan_loop m (tick w) (standing_tiles w) (entries (creatures w)) (occupied w)
            \<lparr>db_decisions = [], db_skipped = 0\<rparr>)"

fun apply_decisions :: "world_map \<Rightarrow> (nat \<times> cardinal_direction) list \<Rightarrow> unit action" where
  "apply_decisions m [] w = (Ok (), w)"
| "apply_decisions m ((c, d) # rest) w =
     chain (move_static_creature_cardinal c d m w) (\<lambda>_ w1. apply_decisions m rest w1)"

definition apply_static_creature_policy :: "decision_policy \<Rightarrow> world_map \<Rightarrow> decision_batch action" where
  "apply_static_creature_policy policy m w =
     (let b = plan_static_creature_moves w policy m
      in chain (apply_decisions m (db_decisions b) w) (\<lambda>_ w1. (Ok b, w1)))"

definition static_creature_declares_direct_melee :: "world_state \<Rightarrow> nat \<Rightarrow> bool" where
  "static_creature_declares_direct_melee w c =
     (case bt_get (creatures w) c of None \<Rightarrow> False | Some rt \<Rightarrow> cr_damage_range rt \<noteq> None)"

definition static_creature_melee_condition :: "world_state \<Rightarrow> nat \<Rightarrow> melee_condition option" where
  "static_creature_melee_condition w c = Option.bind (bt_get (creatures w) c) cr_melee_condition"

section \<open>The operations keep both invariants\<close>

lemma clear_target_inv:
  assumes "world_inv ex w"
  shows "world_inv ex (snd (clear_static_creature_target c w))"
proof -
  have put: "world_inv ex (put_creature c (rt\<lparr>cr_target := None\<rparr>) w)" if "bt_get (creatures w) c = Some rt" for rt
    using that creature_get_ok [of w c rt] assms
    by (intro put_inv_same [OF assms that]) (auto simp: world_inv_def creature_ok_def same_spot_def entity_position_def)
  show ?thesis
    unfolding clear_static_creature_target_def Let_def
    by (rule keepsI, intro keeps_intros; simp add: put assms)
qed

lemma nearest_in: "nearest xs = Some x \<Longrightarrow> x \<in> set xs"
proof (induction xs arbitrary: x rule: nearest.induct)
  case (2 d p rest)
  then show ?case by (auto split: option.splits if_splits)
qed simp

lemma nearest_target_player: "nearest_target w q reach = Some p \<Longrightarrow> \<exists>pl. bt_get (players w) p = Some pl \<and> targetable w q reach (p, pl)"
  by (auto simp: nearest_target_def in_entries_iff dest!: nearest_in)

lemma select_target_inv:
  assumes "world_inv ex w"
  shows "world_inv ex (snd (select_static_creature_target c reach w))"
proof -
  have put: "world_inv ex (put_creature c (rt\<lparr>cr_target := nearest_target w q reach\<rparr>) w)"
    if "bt_get (creatures w) c = Some rt" "cr_active rt" for rt q
    using that creature_get_ok [of w c rt] assms nearest_target_player [of w q reach]
    by (intro put_inv_same [OF assms that(1)])
      (auto simp: world_inv_def creature_ok_def same_spot_def entity_position_def)
  show ?thesis
    unfolding select_static_creature_target_def Let_def
    by (rule keepsI, intro keeps_intros)
      (use assms put clear_target_inv [OF assms] in \<open>simp_all add: keeps_def\<close>)
qed

lemma other_creature_at_iff:
  "other_creature_at w c q \<longleftrightarrow> active_at (bt_remove c (creatures w)) q"
  by (auto simp: other_creature_at_def list_ex_iff Bex_def in_entries_iff active_at_def bt_get_remove entity_position_def
      split: if_splits)

lemma move_creature_inv:
  assumes "world_inv ex w"
  shows "world_inv ex (snd (move_static_creature_cardinal c d m w))"
proof -
  have put: "world_inv ex (refresh_static_creature_occupancy (put_creature c (relocate q rt) w))"
    if "bt_get (creatures w) c = Some rt" "\<not> is_player_occupied w q" "\<not> other_creature_at w c q" for rt q
    using that creature_get_ok [of w c rt] assms
    by (intro put_inv_free [OF assms])
      (auto simp: world_inv_def creature_ok_def relocate_def entity_position_def other_creature_at_iff)
  show ?thesis
    unfolding move_static_creature_cardinal_def Let_def
    by (rule keepsI, intro keeps_intros; simp add: put assms)
qed

lemma try_direct_inv: "world_inv ex w \<Longrightarrow> keeps (world_inv ex) (try_direct c p source ds m w)"
proof (induction ds)
  case (Cons d ds)
  then show ?case
    by (simp only: try_direct.simps) (intro keeps_intros; simp add: keeps_def move_creature_inv)
qed (simp add: keeps_def)

lemma step_toward_inv:
  assumes "world_inv ex w"
  shows "world_inv ex (snd (step_static_creature_toward_target_with_detour c m budget w))"
proof -
  have put: "world_inv ex (put_creature c (rt\<lparr>cr_target := None\<rparr>) w)" if "bt_get (creatures w) c = Some rt" for rt
    using that creature_get_ok [of w c rt] assms
    by (intro put_inv_same [OF assms that]) (auto simp: world_inv_def creature_ok_def same_spot_def entity_position_def)
  show ?thesis
    unfolding step_static_creature_toward_target_with_detour_def Let_def
    by (rule keepsI, intro keeps_intros try_direct_inv)
      (use assms put clear_target_inv [OF assms] move_creature_inv in \<open>simp_all add: keeps_def\<close>)
qed

lemma apply_decisions_inv: "world_inv ex w \<Longrightarrow> world_inv ex (snd (apply_decisions m ds w))"
proof (induction ds arbitrary: w)
  case (Cons x ds)
  obtain c d where x: "x = (c, d)" by (rule prod.exhaust)
  obtain r w1 where r: "move_static_creature_cardinal c d m w = (r, w1)" by (rule prod.exhaust)
  from move_creature_inv [OF Cons.prems, of c d m] r have "world_inv ex w1" by simp
  with Cons.IH [of w1] x r show ?case by (cases r) auto
qed simp

lemma policy_inv: "world_inv ex w \<Longrightarrow> world_inv ex (snd (apply_static_creature_policy policy m w))"
  unfolding apply_static_creature_policy_def Let_def
  by (rule keepsI, intro keeps_intros; simp add: keeps_def apply_decisions_inv)

text \<open>An attack moves no one: what it changes besides players' tables is the attacker's own record.\<close>

lemma vitals_inv:
  assumes "world_inv ex w" and "world_wf w'" and "creatures w' = creatures w" and "players w' = players w"
  shows "world_inv ex w'"
  using assms by (simp add: world_inv_def tiles_exclusive_def is_player_occupied_def)

lemma rearm_inv:
  assumes "world_inv ex w"
  shows "world_inv ex (rearm c cooldown w)"
proof -
  have "world_inv ex (put_creature c (rt\<lparr>cr_next_melee_due := n\<rparr>) w)" if "bt_get (creatures w) c = Some rt" for rt n
    using that creature_get_ok [of w c rt] assms
    by (intro put_inv_same [OF assms that]) (auto simp: world_inv_def creature_ok_def same_spot_def entity_position_def)
  then show ?thesis using assms by (auto simp: rearm_def split: option.split)
qed

lemma apply_damage_inv:
  assumes "world_inv ex w"
  shows "keeps (world_inv ex) (apply_damage_to_known_target p n w)"
proof -
  obtain r w' where d: "apply_damage_to_known_target p n w = (r, w')" by (rule prod.exhaust)
  from apply_damage_frame [OF d] obtain v where w': "w' = w\<lparr>w_vitals := v\<rparr>" by blast
  have "world_wf w'" using apply_damage_wf [of w p n] assms d by (simp add: world_inv_def keeps_def)
  from vitals_inv [OF assms this] w' d show ?thesis by (simp add: keeps_def)
qed

lemma player_death_inv:
  assumes "world_inv ex w"
  shows "keeps (world_inv ex) (apply_player_death p t m w)"
proof -
  obtain r w' where d: "apply_player_death p t m w = (r, w')" by (rule prod.exhaust)
  have "world_wf w'" using apply_player_death_wf [of w p t m] assms d by (simp add: world_inv_def)
  moreover have "creatures w' = creatures w \<and> players w' = players w"
    using d by (cases r) (auto simp: apply_player_death_def Let_def clear_player_interaction_references_def
        mark_changed_def split: if_splits)
  ultimately show ?thesis using vitals_inv [OF assms] d by (simp add: keeps_def)
qed

lemma strike_inv: "world_inv ex w \<Longrightarrow> keeps (world_inv ex) (strike_target c p n cooldown m w)"
  unfolding strike_target_def Let_def
  by (intro keeps_intros apply_damage_inv player_death_inv)
    (auto simp: keeps_def clear_target_inv rearm_inv)

lemma attack_inv:
  assumes "world_inv ex w"
  shows "world_inv ex (snd (apply_static_creature_target_damage c fallback m w))"
proof -
  have put: "world_inv ex (put_creature c rt1 w)" if "bt_get (creatures w) c = Some rt" "next_hit n rt = Ok (k, rt1)" for rt n k rt1
    using that creature_get_ok [of w c rt] assms
    by (intro put_inv_same [OF assms that(1)])
      (auto simp: next_hit_def world_inv_def creature_ok_def same_spot_def entity_position_def Let_def split: option.splits)
  show ?thesis
    unfolding apply_static_creature_target_damage_def
    by (rule keepsI, intro keeps_intros strike_inv)
      (use assms put clear_target_inv [OF assms] in \<open>simp_all add: keeps_def\<close>)
qed

end
