(* ===== verification/Engine.thy ===== *)
theory Engine
  imports World_Machine Static_Movement
begin

text \<open>
  Players and static creatures in one machine: with the commands of \<open>World_Machine\<close> and those on creatures
  here, every public operation of \<open>WorldState\<close> that changes state is a command. Every run keeps the
  invariant of the world. The operations on players leave the creatures where they are and put a player
  only on tiles the occupancy index reports free; the operations on creatures check the players. So runs
  whose installed collections place their creatures on different tiles, which no constructor checks, keep
  the map exclusive: no two active creatures on a tile and no player on a creature's tile.
\<close>

section \<open>Operations on players and the creatures' tiles\<close>

definition spot :: "(nat, creature_runtime) btmap \<Rightarrow> nat \<Rightarrow> (bool \<times> position) option" where
  "spot m i = map_option (\<lambda>rt. (cr_active rt, entity_position rt)) (bt_get m i)"

text \<open>Every creature is where it was, and whoever stands on a new tile found it free of creatures.\<close>

definition roams :: "world_state \<Rightarrow> world_state \<Rightarrow> bool" where
  "roams w0 w \<longleftrightarrow> occupied w = occupied w0 \<and> spot (creatures w) = spot (creatures w0) \<and>
     (\<forall>q. is_player_occupied w q \<and> bt_mem q (occupied w0) \<longrightarrow> is_player_occupied w0 q)"

lemma roams_refl: "roams w w"
  by (simp add: roams_def)

lemma roams_trans: "roams w0 w1 \<Longrightarrow> roams w1 w2 \<Longrightarrow> roams w0 w2"
  by (simp add: roams_def)

lemma spot_active: "spot m' = spot m \<Longrightarrow> active_at m' q \<longleftrightarrow> active_at m q"
proof -
  have "active_at m q \<longleftrightarrow> (\<exists>i. spot m i = Some (True, q))" for m
    by (auto simp: active_at_def spot_def entity_position_def)
  then show "spot m' = spot m \<Longrightarrow> active_at m' q \<longleftrightarrow> active_at m q" by simp
qed

lemma spot_apart: "spot m' = spot m \<Longrightarrow> creatures_apart m' \<longleftrightarrow> creatures_apart m"
proof -
  have "creatures_apart m \<longleftrightarrow> (\<forall>i j q. spot m i = Some (True, q) \<and> spot m j = Some (True, q) \<longrightarrow> i = j)" for m
    unfolding creatures_apart_def spot_def by (auto; metis)
  then show "spot m' = spot m \<Longrightarrow> creatures_apart m' \<longleftrightarrow> creatures_apart m" by simp
qed

lemma roams_exclusive:
  assumes "roams w0 w" and "world_wf w0" and "tiles_exclusive w0"
  shows "tiles_exclusive w"
proof -
  have "spot (creatures w) = spot (creatures w0)" using assms(1) by (simp add: roams_def)
  note same = spot_active [OF this] spot_apart [OF this]
  have "\<not> is_player_occupied w q" if "active_at (creatures w0) q" for q
    using that assms world_creatures(2) [OF assms(2)] by (auto simp: roams_def tiles_exclusive_def occupancy_wf_def)
  with assms(3) same show ?thesis by (simp add: tiles_exclusive_def)
qed

lemma occupied_iff: "is_player_occupied w q \<longleftrightarrow> (\<exists>p pl. bt_get (players w) p = Some pl \<and> pl_position pl = q)"
  by (auto simp: is_player_occupied_def list_ex_iff in_bt_vals_iff Bex_def)

text \<open>Fields that neither place a player nor a creature.\<close>

lemma roams_frame [simp]:
  "roams w0 (w\<lparr>w_vitals := a1\<rparr>) = roams w0 w" "roams w0 (w\<lparr>w_progressions := a2\<rparr>) = roams w0 w"
  "roams w0 (w\<lparr>w_attempts := a3\<rparr>) = roams w0 w" "roams w0 (w\<lparr>w_towns := a4\<rparr>) = roams w0 w"
  "roams w0 (w\<lparr>w_regen := a5\<rparr>) = roams w0 w" "roams w0 (w\<lparr>w_food := a6\<rparr>) = roams w0 w"
  "roams w0 (w\<lparr>w_god := a7\<rparr>) = roams w0 w" "roams w0 (w\<lparr>w_invisible := a8\<rparr>) = roams w0 w"
  "roams w0 (w\<lparr>w_conditions := a9\<rparr>) = roams w0 w" "roams w0 (w\<lparr>w_respawn := b1\<rparr>) = roams w0 w"
  "roams w0 (w\<lparr>w_equipments := b2\<rparr>) = roams w0 w" "roams w0 (w\<lparr>w_containers := b3\<rparr>) = roams w0 w"
  "roams w0 (w\<lparr>w_defenses := b4\<rparr>) = roams w0 w" "roams w0 (w\<lparr>w_fight_modes := b5\<rparr>) = roams w0 w"
  "roams w0 (w\<lparr>w_combat_cooldowns := b6\<rparr>) = roams w0 w" "roams w0 (w\<lparr>w_spell_cooldowns := b7\<rparr>) = roams w0 w"
  "roams w0 (w\<lparr>w_interactions := b8\<rparr>) = roams w0 w" "roams w0 (w\<lparr>w_frags := b9\<rparr>) = roams w0 w"
  "roams w0 (w\<lparr>trades := c1\<rparr>) = roams w0 w" "roams w0 (w\<lparr>tick := c2\<rparr>) = roams w0 w"
  "roams w0 (mark_changed w) = roams w0 w"
  by (simp_all add: roams_def is_player_occupied_def mark_changed_def)

lemma roams_strip:
  assumes "strip_party w' = strip_party w"
  shows "roams w0 w' = roams w0 w"
proof -
  have "players w' = players w" "creatures w' = creatures w" "occupied w' = occupied w"
    using strip_party_fields [OF assms] by blast+
  then show ?thesis by (simp add: roams_def is_player_occupied_def)
qed

lemma occupied_insert:
  "is_player_occupied (w\<lparr>players := bt_insert p pl (players w)\<rparr>) q \<Longrightarrow> q = pl_position pl \<or> is_player_occupied w q"
  by (auto simp: occupied_iff bt_get_insert split: if_splits)

lemma occupied_remove: "is_player_occupied (w\<lparr>players := bt_remove p (players w)\<rparr>) q \<Longrightarrow> is_player_occupied w q"
  by (auto simp: occupied_iff bt_get_remove split: if_splits)

lemma roams_put:
  assumes "roams w0 w"
    and "is_player_occupied w (pl_position pl) \<or> \<not> is_static_creature_occupied w (pl_position pl)"
  shows "roams w0 (w\<lparr>players := bt_insert p pl (players w)\<rparr>)"
  using assms occupied_insert [where w = w and p = p and pl = pl] unfolding roams_def is_static_creature_occupied_def by fastforce

text \<open>\<open>P\<close> stands for the registry as an earlier state of the same operation reads it.\<close>

lemma roams_stay:
  assumes "roams w0 w" and "P = players w" and "bt_get P p = Some old" and "pl_position pl = pl_position old"
  shows "roams w0 (w\<lparr>players := bt_insert p pl P\<rparr>)"
  using assms(3,4) unfolding assms(2) by (intro roams_put [OF assms(1)]) (auto simp: occupied_iff)

lemma roams_go:
  assumes "roams w0 w" and "P = players w" and "\<not> bt_mem (pl_position pl) (occupied w)"
  shows "roams w0 (w\<lparr>players := bt_insert p pl P\<rparr>)"
  using assms(3) unfolding assms(2) by (intro roams_put [OF assms(1)]) (simp add: is_static_creature_occupied_def)

lemma roams_remove: "roams w0 w \<Longrightarrow> P = players w \<Longrightarrow> roams w0 (w\<lparr>players := bt_remove p P\<rparr>)"
  using occupied_remove [where w = w and p = p] unfolding roams_def by fastforce

lemma roams_forget: "roams w0 w \<Longrightarrow> roams w0 (w\<lparr>creatures := bt_map (\<lambda>_. forget_target p) (creatures w)\<rparr>)"
proof -
  have "spot (bt_map (\<lambda>_. forget_target p) m) = spot m" for m
    by (rule ext) (simp add: spot_def forget_target_def entity_position_def option.map_comp comp_def if_distrib cong: if_cong)
  then show "roams w0 w \<Longrightarrow> ?thesis" by (simp add: roams_def is_player_occupied_def)
qed

lemma roams_if [simp]: "roams w0 (if b then x else y) = (if b then roams w0 x else roams w0 y)"
  by simp

lemma roams_intent [simp]: "roams w0 (clear_player_interaction_references p w) = roams w0 w"
  by (simp add: clear_player_interaction_references_def)

section \<open>Every command on players\<close>

lemma tables_roam:
  "roams w (snd (replace_player_fight_mode_state p fm w))"
  "roams w (snd (replace_player_combat_defense p df w))"
  "roams w (snd (replace_player_progression_attempts p att w))"
  "roams w (snd (replace_player_equipment p eq w))"
  "roams w (snd (replace_player_containers p cs w))"
  "roams w (snd (replace_player_containers_quiet p cs w))"
  "roams w (snd (update_player_vitals p v w))"
  "roams w (snd (grant_player_food_window p n w))"
  "roams w (snd (set_player_god_mode p b w))"
  "roams w (snd (set_player_invisible p b w))"
  "roams w (snd (replace_player_progression p pr w))"
  "roams w (snd (replace_player_conditions p cd w))"
  "roams w (snd (apply_player_condition p c w))"
  "roams w (snd (apply_player_speed_condition p b' r w))"
  "roams w (snd (replace_player_town p t w))"
  "roams w (snd (hydrate_player_respawn_state p st w))"
  unfolding replace_player_fight_mode_state_def replace_player_combat_defense_def
    replace_player_progression_attempts_def replace_player_equipment_def replace_player_containers_def
    replace_player_containers_quiet_def update_player_vitals_def grant_player_food_window_def
    set_player_god_mode_def set_player_invisible_def replace_player_progression_def
    replace_player_conditions_def apply_player_condition_def apply_player_speed_condition_def
    replace_player_town_def hydrate_player_respawn_state_def Let_def
  by (rule keepsI, intro keeps_intros; simp add: roams_refl)+

lemma growth_roams:
  "roams w (snd (apply_player_regeneration p rr e w))"
  "roams w (snd (apply_player_skill_tries fs p s n rules w))"
  "roams w (snd (apply_player_magic_mana fs p n rules w))"
  "roams w (snd (apply_player_conditions p e w))"
  "roams w (snd (apply_player_death p t m w))"
  "roams w (snd (apply_player_spell_cast_event ev w))"
  unfolding apply_player_regeneration_def apply_player_skill_tries_def apply_player_magic_mana_def
    apply_player_conditions_def apply_player_death_def apply_player_spell_cast_event_def Let_def
  by (rule keepsI, intro keeps_intros; simp add: roams_refl)+

lemma intents_roam:
  "roams w (snd (set_player_interaction p t f b w))"
  "roams w (snd (set_player_static_target p c w))"
  unfolding set_player_interaction_def set_player_static_target_def store_intent_def Let_def
  by (rule keepsI, intro keeps_intros; simp add: roams_refl)+

lemma roams_keeps: "roams w0 w \<Longrightarrow> keeps (roams w) r \<Longrightarrow> keeps (roams w0) r"
  by (auto simp: keeps_def elim: roams_trans)

lemma damage_roams: "roams w0 w \<Longrightarrow> keeps (roams w0) (apply_damage_to_known_target t n w)"
  unfolding apply_damage_to_known_target_def Let_def by (intro keeps_intros; simp)

lemma hits_roam:
  "roams w (snd (apply_player_damage a t n w))"
  "roams w (snd (apply_player_melee_damage a t n w))"
  "roams w (snd (apply_player_combat_event ev w))"
  unfolding apply_player_melee_damage_def apply_player_damage_def apply_player_combat_event_def Let_def
  by (rule keepsI, intro keeps_intros damage_roams; simp add: roams_refl)+

lemma mortal_roams: "roams w (snd (apply_player_conditions_with_death p t m e w))"
  unfolding apply_player_conditions_with_death_def Let_def
proof (rule keepsI, intro keeps_intros)
  show "keeps (roams w) (apply_player_conditions p k w)" for k
    by (simp add: keeps_def growth_roams)
  show "keeps (roams w) (apply_player_death p t m w1)" if "roams w w1" for w1
    using that by (rule roams_keeps) (simp add: keeps_def growth_roams)
qed (simp_all add: roams_refl)

text \<open>The operations that write the registry of players.\<close>

lemma award_roams: "roams w (snd (award_player_experience_with_vocation_gains p raw pol g w))"
  unfolding award_player_experience_with_vocation_gains_def Let_def
  by (rule keepsI, intro keeps_intros)
    (auto intro!: roams_stay roams_refl simp: add_experience_def Let_def player_vitals_def)

lemma loss_roams: "roams w (snd (apply_fixed_percent_death_loss fs p k rules w))"
  unfolding apply_fixed_percent_death_loss_def Let_def
  by (rule keepsI, intro keeps_intros) (auto intro!: roams_stay roams_refl)

lemma steps_roam:
  "roams w (snd (move_player p q w))"
  "roams w (snd (teleport_player p q w))"
  "roams w (snd (respawn_player p w))"
  "roams w (snd (add_player_with_vitals_and_progression pl v pr w))"
  unfolding move_player_def teleport_player_def respawn_player_def add_player_with_vitals_and_progression_def Let_def
  by (rule keepsI, intro keeps_intros; simp add: roams_refl is_static_creature_occupied_def roams_go)+

lemma cardinal_roams: "roams w (snd (move_player_cardinal p d w))"
  unfolding move_player_cardinal_def
  by (rule keepsI, intro keeps_intros; simp add: roams_refl keeps_def steps_roam)

lemma removal_roams: "roams w (snd (remove_player p w))"
  unfolding remove_player_def Let_def drop_tables_def
  by (rule keepsI, intro keeps_intros)
    (simp_all add: roams_refl roams_forget roams_strip [OF strip_party_clear] roams_remove)

lemma try_directions_roams: "keeps (roams w) (try_directions m p source ds w)"
proof (induction ds)
  case (Cons d ds)
  then show ?case
    by (simp only: try_directions.simps) (intro keeps_intros; simp add: keeps_def roams_refl cardinal_roams)
qed (simp add: keeps_def roams_refl)

lemma follow_turn_roams: "keeps (roams w) (follow_turn m p w)"
  unfolding follow_turn_def
  by (intro keeps_intros try_directions_roams roams_refl)

lemma follow_loop_roams: "roams w0 w \<Longrightarrow> keeps (roams w0) (follow_loop m ps moved w)"
proof (induction ps arbitrary: moved w)
  case (Cons p ps)
  from follow_turn_roams Cons.prems have "keeps (roams w0) (follow_turn m p w)" by (metis roams_keeps)
  then show ?case by (simp only: follow_loop.simps) (intro keeps_intros Cons.IH; simp)
qed (simp add: keeps_def)

lemma follow_pass_roams: "roams w (snd (follow_player_targets_once m w))"
  unfolding follow_player_targets_once_def by (rule keepsI, rule follow_loop_roams, rule roams_refl)

lemma party_roams: "roams w (snd (exec_party c w))"
proof -
  have "strip_party (snd (exec_party c w)) = strip_party w"
    by (cases c)
      (auto simp: party_op_defs Let_def attempt_def set_party_shared_experience_requested_def
        split: sum.split option.split)
  from roams_strip [OF this] roams_refl show ?thesis by simp
qed

lemma commits_roam [simp]:
  "roams w0 (commit p eq cs w) = roams w0 w" "roams w0 (commit_equipment p eq w) = roams w0 w"
  "roams w0 (commit_containers p cs w) = roams w0 w"
  by (simp_all add: commit_def commit_equipment_def commit_containers_def)

lemma transfers_roam:
  "roams w (snd (move_equipment_item_to_container p slot cid w))"
  "roams w (snd (move_container_item_to_equipment p cid i slot w))"
  "roams w (snd (move_content_item_to_equipment p cid i j slot w))"
  "roams w (snd (move_content_item_to_container p cid i j to w))"
  "roams w (snd (swap_container_item_with_equipment p cid i slot w))"
  "roams w (snd (swap_equipment_items p a b w))"
  "roams w (snd (consume_player_equipment_item_unit p slot w))"
  "roams w (snd (consume_player_container_item_unit p cid i w))"
  "roams w (snd (move_equipment_stack_to_container p slot cid n w))"
  "roams w (snd (move_container_stack_to_equipment p cid i slot n w))"
  "roams w (snd (move_container_stack_to_container p cid i to n w))"
  "roams w (snd (take_player_stack_for_ground_drop p src n w))"
  unfolding move_equipment_item_to_container_def move_container_item_to_equipment_def
    move_content_item_to_equipment_def move_content_item_to_container_def swap_container_item_with_equipment_def
    swap_equipment_items_def consume_player_equipment_item_unit_def consume_player_container_item_unit_def
    move_equipment_stack_to_container_def move_container_stack_to_equipment_def
    move_container_stack_to_container_def take_player_stack_for_ground_drop_def Let_def
  by (rule keepsI, intro keeps_intros; simp add: roams_refl split: drop_source.split)+

lemma generic_roams: "roams w (snd (execute_generic_inventory_move p plan w))"
  by (auto simp: execute_generic_inventory_move_def attempt_def Let_def roams_refl
      split: sum.split option.split prod.split)

lemma items_roam: "roams w (snd (exec_item p c w))"
  by (cases c) (simp_all add: transfers_roam generic_roams)

lemma sessions_roam:
  "roams w (snd (open_player_trade a b w))"
  "roams w (snd (stage_trade_item p r w))"
  "roams w (snd (unstage_trade_item p r w))"
  "roams w (snd (accept_player_trade p w))"
  unfolding open_player_trade_def stage_trade_item_def unstage_trade_item_def accept_player_trade_def
    store_trade_def Let_def
  by (rule keepsI, intro keeps_intros; simp add: roams_refl)+

lemma cancel_roams: "roams w (snd (cancel_player_trade p w))"
  by (simp add: cancel_player_trade_def Let_def roams_refl split: option.split)

lemma execution_roams: "roams w (snd (execute_player_trade p w))"
proof -
  obtain r w' where e: "execute_player_trade p w = (r, w')" by (rule prod.exhaust)
  from e have "roams w w'"
    by (cases rule: execute_player_trade_cases)
      (auto simp: roams_refl with_inventories_def split: sum.splits)
  with e show ?thesis by simp
qed

lemma trade_roams: "roams w (snd (exec_trade c w))"
  by (cases c) (simp_all add: sessions_roam cancel_roams execution_roams)

lemmas command_roams =
  tables_roam growth_roams intents_roam hits_roam mortal_roams award_roams loss_roams steps_roam cardinal_roams
  removal_roams follow_pass_roams party_roams items_roam trade_roams

lemma exec_world_roams: "roams w (snd (exec_world fs m c w))"
  by (cases c)
    (simp_all add: command_roams set_player_target_def set_player_follow_def advance_ticks_def Let_def roams_refl
      damage_roams [OF roams_refl, unfolded keeps_def])

lemma exec_world_creature_inv: "well_typed c \<Longrightarrow> creature_inv w \<Longrightarrow> creature_inv (snd (exec_world fs m c w))"
  using world.exec_inv [of c w fs m] roams_exclusive [OF exec_world_roams] by (simp add: creature_inv_def)

section \<open>Commands on creatures\<close>

datatype creature_command =
  Install spawn_collection
| Summon string position nat
| Dismiss nat
| Frag nat
| Display_Health nat nat
| Defeat nat
| Strike nat nat nat
| Reset
| Reactivate_Due
| Restore "runtime_snapshot list"
| Seek nat nat
| Attack nat nat
| Creature_Step nat cardinal_direction
| Chase nat nat
| Policy decision_policy

text \<open>\<open>lower\<close> is \<open>str::to_lowercase\<close>.\<close>

fun exec_creature :: "(string \<Rightarrow> string) \<Rightarrow> world_map \<Rightarrow> creature_command \<Rightarrow> unit action" where
  "exec_creature lower m (Install col) w = install_static_creatures col w"
| "exec_creature lower m (Summon name q d) w = discard (spawn_dynamic_entity lower name q d w)"
| "exec_creature lower m (Dismiss c) w = despawn_dynamic_entity c w"
| "exec_creature lower m (Frag p) w = (Ok (), snd (record_player_frag p w))"
| "exec_creature lower m (Display_Health c h) w = discard (set_static_creature_health_percent c h w)"
| "exec_creature lower m (Defeat c) w = discard (deactivate_static_creature c w)"
| "exec_creature lower m (Strike a c n) w = discard (apply_static_creature_melee_damage a c n w)"
| "exec_creature lower m Reset w = (Ok (), snd (reset_static_creatures w))"
| "exec_creature lower m Reactivate_Due w = (Ok (), snd (reactivate_due_static_creatures w))"
| "exec_creature lower m (Restore rs) w = discard (restore_static_creature_runtime rs w)"
| "exec_creature lower m (Seek c reach) w = discard (select_static_creature_target c reach w)"
| "exec_creature lower m (Attack c fallback) w = discard (apply_static_creature_target_damage c fallback m w)"
| "exec_creature lower m (Creature_Step c d) w = discard (move_static_creature_cardinal c d m w)"
| "exec_creature lower m (Chase c budget) w = discard (step_static_creature_toward_target_with_detour c m budget w)"
| "exec_creature lower m (Policy policy) w = discard (apply_static_creature_policy policy m w)"

text \<open>What the constructors of \<open>SpawnCollection\<close> already guarantee of an argument.\<close>

fun creature_typed :: "creature_command \<Rightarrow> bool" where
  "creature_typed (Install col) \<longleftrightarrow> spawns_wf col"
| "creature_typed c \<longleftrightarrow> True"

lemmas creature_command_inv =
  spawn_dynamic_entity_inv despawn_dynamic_entity_inv record_player_frag_inv
  set_static_creature_health_percent_inv deactivate_static_creature_inv apply_static_creature_melee_damage_inv
  reset_inv restore_static_creature_runtime_inv select_target_inv attack_inv move_creature_inv step_toward_inv
  policy_inv

lemma exec_creature_wf:
  assumes "creature_typed c" and "world_wf w"
  shows "world_wf (snd (exec_creature lower m c w))"
  using assms
  by (cases c) (simp_all add: install_wf creature_command_inv [where ex = False, unfolded world_inv_False])

text \<open>The installation replaces the creatures and checks the players only, not the creatures against
  each other. \<open>places_apart\<close> is a condition on the collection that the code never checks.\<close>

definition places_apart :: "spawn_collection \<Rightarrow> bool" where
  "places_apart col \<longleftrightarrow>
     distinct (map se_position (filter (\<lambda>e. se_position e \<noteq> unplaced_origin) (sc_entities col)))"

fun installs_apart :: "creature_command \<Rightarrow> bool" where
  "installs_apart (Install col) \<longleftrightarrow> places_apart col"
| "installs_apart c \<longleftrightarrow> True"

lemma install_inv:
  assumes "spawns_wf col" and "places_apart col" and "creature_inv w"
  shows "creature_inv (snd (install_static_creatures col w))"
proof -
  obtain r w' where i: "install_static_creatures col w = (r, w')" by (rule prod.exhaust)
  have "world_wf w'" using install_wf [of col w] assms i by (simp add: creature_inv_def)
  moreover have "tiles_exclusive w'"
  proof (cases r)
    case (Inr u)
    with install_exclusive [of col w u w'] i assms(1,2) show ?thesis by (simp add: places_apart_def)
  next
    case (Inl e)
    with i have "w' = w" by (auto simp: install_static_creatures_def split: if_splits)
    with assms(3) show ?thesis by (simp add: creature_inv_def)
  qed
  ultimately show ?thesis using i by (simp add: creature_inv_def)
qed

lemma exec_creature_inv:
  "creature_typed c \<Longrightarrow> installs_apart c \<Longrightarrow> creature_inv w \<Longrightarrow> creature_inv (snd (exec_creature lower m c w))"
  by (cases c) (simp_all add: install_inv creature_command_inv)

section \<open>The engine\<close>

datatype engine_command = World world_command | Creature creature_command

fun exec_engine :: "float_scale \<Rightarrow> (string \<Rightarrow> string) \<Rightarrow> world_map \<Rightarrow> engine_command \<Rightarrow> unit action" where
  "exec_engine fs lower m (World c) w = exec_world fs m c w"
| "exec_engine fs lower m (Creature c) w = exec_creature lower m c w"

fun engine_typed :: "engine_command \<Rightarrow> bool" where
  "engine_typed (World c) \<longleftrightarrow> well_typed c"
| "engine_typed (Creature c) \<longleftrightarrow> creature_typed c"

interpretation engine: invariant_machine "exec_engine fs lower m" world_wf engine_typed for fs lower m
proof
  show "world_wf (snd (exec_engine fs lower m c w))" if "engine_typed c" and "world_wf w" for c w
    using that by (cases c) (simp_all add: world.exec_inv exec_creature_wf)
qed

text \<open>Commands whose installations place the creatures on different tiles.\<close>

fun keeps_apart :: "engine_command \<Rightarrow> bool" where
  "keeps_apart (World c) \<longleftrightarrow> True"
| "keeps_apart (Creature c) \<longleftrightarrow> installs_apart c"

interpretation exclusive:
  invariant_machine "exec_engine fs lower m" creature_inv "\<lambda>c. engine_typed c \<and> keeps_apart c" for fs lower m
proof
  show "creature_inv (snd (exec_engine fs lower m c w))" if "engine_typed c \<and> keeps_apart c" and "creature_inv w" for c w
    using that by (cases c) (simp_all add: exec_world_creature_inv exec_creature_inv)
qed

lemma exclusive_run:
  assumes "list_all engine_typed cs" and "list_all keeps_apart cs" and "creature_inv w"
  shows "creature_inv (run_cmds (exec_engine fs lower m) cs w)"
  by (rule exclusive.run_inv) (use assms in \<open>auto simp: list_all_iff\<close>)

end
