(* ===== verification/Rule_Properties.thy ===== *)
theory Rule_Properties
  imports Vitals_Ops Condition_Ops Static_Spawns "HOL-Library.Code_Target_Nat"
begin

text \<open>
  The properties of the rules that need no whole world: items and stacks, experience and skills,
  conditions and regeneration, the map and its journals, the creature templates. Each is proved
  from the lemmas of the component's theory and followed by an application to concrete data.
\<close>

section \<open>Sample data\<close>

text \<open>The requirement curve with exact rational arithmetic in place of \<open>f64\<close>.\<close>

definition exact_scale :: float_scale where
  "exact_scale base milli ex = enat (base * milli ^ ex div 1000 ^ ex)"

definition sample_rules :: progression_rules where
  "sample_rules = \<lparr>magic_level_multiplier = 1100, skill_multipliers = (\<lambda>_. 1100)\<rparr>"

definition sample_item :: "nat \<Rightarrow> nat \<Rightarrow> item_instance" where
  "sample_item sid n = Item_Instance sid n None None []"

lemma sample_item_wf [simp]:
  "1 \<le> sid \<Longrightarrow> sid \<le> u16_max \<Longrightarrow> 1 \<le> n \<Longrightarrow> n \<le> max_item_stack_count \<Longrightarrow> item_wf (sample_item sid n)"
  by (simp add: sample_item_def item_wf_iff)

definition sample_map :: world_map where
  "sample_map = (map_new ''town'' (Position 100 100 7))
     \<lparr>wm_tiles := bt_of_list [(Position 100 100 7, \<lparr>ground_thing_id = 1, walkable = True\<rparr>),
        (Position 101 100 7, \<lparr>ground_thing_id = 1, walkable = True\<rparr>),
        (Position 102 100 7, \<lparr>ground_thing_id = 1, walkable = True\<rparr>),
        (Position 103 100 7, \<lparr>ground_thing_id = 1, walkable = True\<rparr>)],
      wm_tile_items := bt_of_list [(Position 100 100 7,
        [World_Map_Item 10 None 1 None None None None None None None [],
         World_Map_Item 11 None 1 None None None None None None None []])],
      wm_towns := bt_of_list [(1, \<lparr>town_id = 1, town_name = ''town'', temple_position = Position 103 100 7\<rparr>)]\<rparr>"

definition sample_entity :: "nat \<Rightarrow> string \<Rightarrow> position \<Rightarrow> static_entity" where
  "sample_entity c name q = \<lparr>se_id = c, se_name = name, se_name_description = name, se_position = q,
     se_look_type = 1, se_head = 0, se_body = 0, se_legs = 0, se_feet = 0, se_addons = 0, se_speed = 200,
     se_health_percent = 100, se_direction = 2\<rparr>"

section \<open>The server and its positions\<close>

text \<open>
  A server that was not online comes online only by a \<open>Ready\<close> that ends its start-up: every
  accepted command sequence that ends in \<open>Online\<close> ends in \<open>Ready\<close>, issued in \<open>Starting\<close>.
\<close>

theorem lifecycle_online_after_ready:
  assumes "status_trace s cs = Ok Online" and "s \<noteq> Online"
  shows "\<exists>ds. cs = ds @ [Ready] \<and> status_trace s ds = Ok Starting"
  using assms by (rule online_only_after_ready)

theorem lifecycle_online_after_ready_witness:
  "\<exists>ds. [Start, Ready] = ds @ [Ready] \<and> status_trace Offline ds = Ok Starting"
  by (rule lifecycle_online_after_ready) simp_all

text \<open>
  A cardinal step lands on an adjacent tile of the same floor within the coordinate range, and
  the opposite step leads back; a step over the edge is a \<open>MapBoundary\<close> error, never a wrapped
  coordinate.
\<close>

theorem step_and_back:
  assumes "pos_wf p"
  shows "case step p d of Inl e \<Rightarrow> e = map_fault (MapBoundary p)
    | Inr q \<Rightarrow> is_adjacent_to p q \<and> pos_z q = pos_z p \<and> pos_wf q \<and> step q (opposite d) = Ok p"
  using assms
  by (auto dest: step_error intro: step_adjacent step_floor step_wf step_opposite split: sum.split)

theorem step_and_back_witness:
  "case step (Position 65535 0 7) North of Inl e \<Rightarrow> e = map_fault (MapBoundary (Position 65535 0 7))
    | Inr q \<Rightarrow> is_adjacent_to (Position 65535 0 7) q \<and>
        pos_z q = pos_z (Position 65535 0 7) \<and> pos_wf q \<and>
        step q (opposite North) = Ok (Position 65535 0 7)"
  by (rule step_and_back) (simp add: pos_wf_def)

section \<open>Items and stacks\<close>

text \<open>
  Splitting a stack loses no unit, produces well-formed stacks (the rest may be empty), and
  merging the part back restores the stack exactly.
\<close>

theorem split_round_trip:
  assumes "item_wf it" and "split_off it n = Ok (rest, moved)"
  shows "item_units rest + item_units moved = item_units it \<and> item_wf moved \<and>
    (0 < stack_count rest \<longrightarrow> item_wf rest) \<and> merge_stack rest moved = Ok it"
  using split_off_units [OF assms(2)] split_off_wf [OF assms(2,1)] split_then_merge [OF assms(2)] assms(1)
  by (simp_all add: item_wf_iff)

theorem split_round_trip_witness:
  "item_units (sample_item 7 6) + item_units (sample_item 7 4) = item_units (sample_item 7 10) \<and>
   item_wf (sample_item 7 4) \<and> item_wf (sample_item 7 6) \<and>
   merge_stack (sample_item 7 6) (sample_item 7 4) = Ok (sample_item 7 10)"
proof -
  have "split_off (sample_item 7 10) 4 = Ok (sample_item 7 6, sample_item 7 4)" by code_simp
  from split_round_trip [OF _ this] show ?thesis by simp
qed

text \<open>
  C23. Storing a stack in a container (merged into the first compatible stack with room, or
  appended) keeps the container's invariant and adds exactly the units of the stack.
\<close>

theorem stack_storage_conserves:
  assumes "container_wf c" and "item_wf it" and "merge_or_insert_stack c it = Ok (r, c')"
  shows "container_wf c' \<and> items_units (ic_items c') = items_units (ic_items c) + item_units it"
  using merge_or_insert_stack_wf [OF assms(3,1,2)] merge_or_insert_stack_units [OF assms(3)] by simp

definition sample_box :: "nat \<Rightarrow> item_container" where
  "sample_box n = \<lparr>ic_capacity = 2, ic_items = [sample_item 7 90, sample_item 7 n]\<rparr>"

theorem stack_storage_conserves_witness:
  "container_wf (sample_box 50) \<and>
   items_units (ic_items (sample_box 50)) = items_units (ic_items (sample_box 30)) + item_units (sample_item 7 20)"
proof (rule stack_storage_conserves)
  show "container_wf (sample_box 30)" by (simp add: sample_box_def container_wf_def)
  show "item_wf (sample_item 7 20)" by simp
  show "merge_or_insert_stack (sample_box 30) (sample_item 7 20) = Ok ((1, 50), sample_box 50)" by code_simp
qed

text \<open>
  A stack is refused only when no compatible stack of the container has room for all of it: with
  a compatible stack present the error names that stack's count, without one the container is full.
  The container is then unchanged (the result is an error value).
\<close>

theorem stack_storage_rejection:
  assumes "merge_or_insert_stack c it = Inl e" and "container_wf c" and "item_wf it"
  shows "(\<forall>ex \<in> set (ic_items c). label ex = label it \<longrightarrow> max_item_stack_count < stack_count ex + stack_count it) \<and>
    (if \<exists>ex \<in> set (ic_items c). label ex = label it
     then \<exists>ex \<in> set (ic_items c). label ex = label it \<and>
            e = item_fault (ItemStackCountOverflow (stack_count ex) (stack_count it))
     else length (ic_items c) = ic_capacity c \<and> e = item_fault (ContainerFull (ic_capacity c)))"
proof -
  have sum: "sat_add u16_max (stack_count ex) (stack_count it) = stack_count ex + stack_count it"
    if "ex \<in> set (ic_items c)" for ex
    using that assms(2,3) by (auto simp: container_wf_def item_wf_iff sat_add_def)
  have len: "length (ic_items c) \<le> ic_capacity c" using assms(2) by (simp add: container_wf_def)
  note room = merge_or_insert_stack_error [OF assms(1)]
  then have none: "find_index (\<lambda>ex. is_stack_compatible_with ex it \<and>
      sat_add u16_max (stack_count ex) (stack_count it) \<le> max_item_stack_count) (ic_items c) = None"
    by (auto simp: find_index_None compatible_iff_label)
  show ?thesis
  proof (cases "find (\<lambda>ex. is_stack_compatible_with ex it) (ic_items c)")
    case None
    with none assms(1,3) have "e = item_fault (ContainerFull (ic_capacity c))" "ic_capacity c \<le> length (ic_items c)"
      by (auto simp: merge_or_insert_stack_def container_insert_def item_wf_iff split: if_splits)
    with None len show ?thesis by (auto simp: find_None_iff compatible_iff_label)
  next
    case (Some ex)
    with none assms(1) have "e = item_fault (ItemStackCountOverflow (stack_count ex) (stack_count it))"
      by (simp add: merge_or_insert_stack_def)
    moreover have "ex \<in> set (ic_items c)" "label ex = label it"
      using Some by (auto simp: find_Some_iff compatible_iff_label)
    ultimately show ?thesis using room sum by auto
  qed
qed

theorem stack_storage_rejection_witness:
  "max_item_stack_count < stack_count (sample_item 7 95) + stack_count (sample_item 7 20) \<and>
   (\<exists>ex. ex \<in> set (ic_items (sample_box 95)) \<and> label ex = label (sample_item 7 20) \<and>
      item_fault (ItemStackCountOverflow 90 20) =
        item_fault (ItemStackCountOverflow (stack_count ex) (stack_count (sample_item 7 20))))"
proof -
  have e: "merge_or_insert_stack (sample_box 95) (sample_item 7 20) = Inl (item_fault (ItemStackCountOverflow 90 20))"
    by code_simp
  have c: "container_wf (sample_box 95)" by (simp add: sample_box_def container_wf_def)
  have i: "sample_item 7 95 \<in> set (ic_items (sample_box 95))" "label (sample_item 7 95) = label (sample_item 7 20)"
    by (simp_all add: sample_box_def sample_item_def label_def)
  from stack_storage_rejection [OF e c sample_item_wf] i show ?thesis by (auto split: if_splits)
qed

text \<open>
  C24. An item accepted into another one keeps the nesting bound (one level, twenty slots), and taking
  the last content back out restores both items.
\<close>

theorem nested_contents_bounded:
  assumes "item_wf self" and "item_wf it" and "insert_content self it = Ok self'"
  shows "item_wf self' \<and> content_depth self' \<le> max_content_depth \<and>
    length (contents self') \<le> max_content_slots \<and>
    take_content self' (length (contents self)) = Some (it, self)"
proof -
  have "item_wf self'" by (rule insert_content_wf [OF assms(3,1,2)])
  then show ?thesis
    using insert_take_content [OF assms(3)]
    by (simp add: item_wf_def content_depth_le_1 del: One_nat_def)
qed

theorem nested_contents_bounded_witness:
  "item_wf (with_contents [sample_item 8 1] (sample_item 7 1)) \<and>
   content_depth (with_contents [sample_item 8 1] (sample_item 7 1)) \<le> max_content_depth \<and>
   length (contents (with_contents [sample_item 8 1] (sample_item 7 1))) \<le> max_content_slots \<and>
   take_content (with_contents [sample_item 8 1] (sample_item 7 1)) (length (contents (sample_item 7 1))) =
     Some (sample_item 8 1, sample_item 7 1)"
proof (rule nested_contents_bounded)
  show "insert_content (sample_item 7 1) (sample_item 8 1) = Ok (with_contents [sample_item 8 1] (sample_item 7 1))"
    by code_simp
qed simp_all

text \<open>
  The reverse lookup of the presentation catalog answers exactly when one server identifier, and
  only one, carries the client thing: an ambiguous thing has no answer.
\<close>

theorem reverse_lookup_unambiguous:
  "unique_server_id_for_client_thing_id cat ctid = Some sid \<longleftrightarrow>
     {k. \<exists>pr. bt_get cat k = Some pr \<and> client_thing_id pr = ctid} = {sid}"
  unfolding unique_server_id_iff by blast

section \<open>Experience, skills and awards\<close>

text \<open>
  C11. The binary search over levels returns the greatest level whose experience requirement is met,
  for every 64-bit total, and more experience never means a lower level.
\<close>

theorem level_is_greatest_affordable:
  assumes "a \<le> b" and "b \<le> u64_max"
  shows "1 \<le> level_for_experience b \<and> affordable b (level_for_experience b) \<and>
    (\<forall>lv. level_for_experience b < lv \<and> lv \<le> u32_max \<longrightarrow> \<not> affordable b lv) \<and>
    level_for_experience a \<le> level_for_experience b"
  using level_for_experience_bounds [OF assms(2)] level_for_experience_mono [OF assms]
    affordable_iff [OF _ _ assms(2)] by auto

theorem level_is_greatest_affordable_witness:
  "1 \<le> level_for_experience 18446744073709551615 \<and>
   affordable 18446744073709551615 (level_for_experience 18446744073709551615) \<and>
   level_for_experience 4200 \<le> level_for_experience 18446744073709551615"
  using level_is_greatest_affordable [of 4200 18446744073709551615] by simp

text \<open>
  C12. Awarding tries level by level, with the requirement and the rest carried over, gives the level
  and counter that the lifetime total alone determines: how an award is split over calls is
  unobservable. The \<open>f64\<close> requirement curve is a parameter.
\<close>

theorem skill_tries_follow_the_total:
  assumes "advance_skill_tries fs pr stored awarded rules s = (pr', stored', gained)"
    and "10 \<le> sp_level pr" and "sp_level pr \<le> u16_max"
    and "sp_level pr < u16_max \<Longrightarrow> stored < required_skill_tries fs rules s (Suc (sp_level pr))"
  shows "from_total u16_max (required_skill_tries fs rules s) 10
      (exact_total (required_skill_tries fs rules s) 10 (sp_level pr) (stored + awarded)) =
    (sp_level pr', stored') \<and> gained = sp_level pr' - sp_level pr"
  using assms by (rule advance_skill_tries_from_total)

theorem skill_tries_follow_the_total_witness:
  "from_total u16_max (required_skill_tries exact_scale sample_rules Sword) 10
      (exact_total (required_skill_tries exact_scale sample_rules Sword) 10 10 (5 + 120)) = (12, 20) \<and>
   (2 :: nat) = 12 - 10"
proof -
  have "advance_skill_tries exact_scale \<lparr>sp_level = 10, sp_percent = 0\<rparr> 5 120 sample_rules Sword =
      (\<lparr>sp_level = 12, sp_percent = 33\<rparr>, 20, 2)"
    by code_simp
  from skill_tries_follow_the_total [OF this] show ?thesis
    by (simp add: required_skill_tries_def scale_progression_requirement_def exact_scale_def)
qed

text \<open>
  C13. A fixed-percent loss keeps exactly the rest of a skill's lifetime tries: the total after is the
  total before less the rounded-down share, the counter is below the next requirement, and the level
  never rises or falls below the minimum.
\<close>

theorem skill_loss_is_exact:
  assumes "skill_after_loss fs percent rules s pr stored = (pr', stored')"
    and "10 \<le> sp_level pr" and "sp_level pr \<le> u16_max" and "percent \<le> 100" and "stored \<le> u64_max"
    and "sp_level pr < u16_max \<Longrightarrow> stored < required_skill_tries fs rules s (Suc (sp_level pr))"
    and "exact_total (required_skill_tries fs rules s) 10 (sp_level pr) stored \<le> u64_max"
  shows "10 \<le> sp_level pr' \<and> sp_level pr' \<le> sp_level pr \<and>
    (sp_level pr' < u16_max \<longrightarrow>
       exact_total (required_skill_tries fs rules s) 10 (sp_level pr') stored' =
         exact_total (required_skill_tries fs rules s) 10 (sp_level pr) stored -
         exact_total (required_skill_tries fs rules s) 10 (sp_level pr) stored * percent div 100 \<and>
       stored' < required_skill_tries fs rules s (Suc (sp_level pr')))"
  using skill_after_loss_spec [OF assms] .

theorem skill_loss_is_exact_witness:
  "exact_total (required_skill_tries exact_scale sample_rules Sword) 10 11 51 =
     exact_total (required_skill_tries exact_scale sample_rules Sword) 10 12 7 -
     exact_total (required_skill_tries exact_scale sample_rules Sword) 10 12 7 * 10 div 100 \<and>
   51 < required_skill_tries exact_scale sample_rules Sword (Suc 11)"
proof -
  have "skill_after_loss exact_scale 10 sample_rules Sword \<lparr>sp_level = 12, sp_percent = 33\<rparr> 7 =
      (\<lparr>sp_level = 11, sp_percent = 92\<rparr>, 51)" by code_simp
  moreover have "7 < required_skill_tries exact_scale sample_rules Sword (Suc (sp_level \<lparr>sp_level = 12, sp_percent = 33\<rparr>))"
    and "exact_total (required_skill_tries exact_scale sample_rules Sword) 10 (sp_level \<lparr>sp_level = 12, sp_percent = 33\<rparr>) 7 \<le> u64_max"
    by (code_simp, code_simp)
  ultimately show ?thesis
    using skill_loss_is_exact [of exact_scale 10 sample_rules Sword "\<lparr>sp_level = 12, sp_percent = 33\<rparr>" 7
      "\<lparr>sp_level = 11, sp_percent = 92\<rparr>" 51] by simp
qed

text \<open>
  In a policy that its constructor accepts, at most one stage contains a level, so the award is
  the experience times the flat rate times that stage's multiplier, saturated and rounded down, whatever
  the order of the search.
\<close>

theorem award_uses_the_only_stage:
  assumes "award_policy_new rate sts = Ok pol" and "\<forall>st \<in> set sts. stage_ok st"
    and "st \<in> set sts" and "min_level st \<le> lv" and "lv \<le> max_level st"
  shows "award_for pol lv raw = sat_mul u64_max (sat_mul u64_max raw rate) (multiplier_milli st)
      div progression_multiplier_scale \<and>
    (\<forall>other \<in> set sts. min_level other \<le> lv \<and> lv \<le> max_level other \<longrightarrow> other = st)"
proof -
  from award_policy_new_ordered [OF assms(1,2)]
  have o: "stages_ordered sts" and p: "stages pol = sts" "flat_rate pol = rate" by auto
  show ?thesis
    using find_stage [OF o assms(3-5)] stages_ordered_unique [OF o _ assms(3) _ _ assms(4,5)]
    by (auto simp: award_for_def p)
qed

definition sample_stages :: "award_stage list" where
  "sample_stages = [\<lparr>min_level = 1, max_level = 8, multiplier_milli = 5000\<rparr>,
     \<lparr>min_level = 9, max_level = 50, multiplier_milli = 2500\<rparr>]"

theorem award_uses_the_only_stage_witness:
  "award_for \<lparr>flat_rate = 2, stages = sample_stages\<rparr> 9 100 =
     sat_mul u64_max (sat_mul u64_max 100 2) (multiplier_milli \<lparr>min_level = 9, max_level = 50, multiplier_milli = 2500\<rparr>)
       div progression_multiplier_scale"
proof -
  have "award_policy_new 2 sample_stages = Ok \<lparr>flat_rate = 2, stages = sample_stages\<rparr>"
    by (simp add: award_policy_new_def sample_stages_def)
  from award_uses_the_only_stage [OF this, of "\<lparr>min_level = 9, max_level = 50, multiplier_milli = 2500\<rparr>" 9 100]
  show ?thesis by (simp add: sample_stages_def stage_ok_def)
qed

section \<open>Conditions and regeneration\<close>

text \<open>
  A condition that was written out and read back is the same condition: the validation of the
  reader accepts every state that a run of the constructors and ticks can reach.
\<close>

theorem condition_persistence_round_trip:
  assumes "condition_wf c" and "cond_elapsed c < cond_interval c"
    and "\<not> is_damage_over_time (cond_kind c) \<longrightarrow> cond_interval c = 1"
  shows "condition_from_persisted (cond_kind c) (cond_interval c) (cond_damage c)
           (cond_speed_bonus c) (cond_remaining c) (cond_elapsed c) = Ok c"
  using assms by (rule condition_persist_roundtrip)

definition sample_burn :: player_condition where
  "sample_burn = \<lparr>cond_kind = Burning, cond_interval = 4, cond_damage = 10, cond_speed_bonus = 0,
     cond_remaining = 30, cond_elapsed = 3\<rparr>"

lemma sample_burn_sel [simp]:
  "cond_kind sample_burn = Burning" "cond_interval sample_burn = 4" "cond_damage sample_burn = 10"
  "cond_speed_bonus sample_burn = 0" "cond_remaining sample_burn = 30" "cond_elapsed sample_burn = 3"
  "is_damage_over_time Burning"
  by (simp_all add: sample_burn_def is_damage_over_time_def)

lemma sample_burn_wf [simp]: "condition_wf sample_burn"
  by (simp add: condition_wf_def)

theorem condition_persistence_round_trip_witness:
  "condition_from_persisted (cond_kind sample_burn) (cond_interval sample_burn) (cond_damage sample_burn)
     (cond_speed_bonus sample_burn) (cond_remaining sample_burn) (cond_elapsed sample_burn) = Ok sample_burn"
  by (rule condition_persistence_round_trip) simp_all

text \<open>
  C22. The heartbeat may be cut anywhere: ticking a condition for one period and then for another
  leaves the state of one tick over both, and the damage of the parts adds up. The interval bound
  keeps the 16-bit schedule from saturating.
\<close>

theorem condition_ticks_compose:
  assumes "condition_wf c" and "cond_elapsed c < cond_interval c"
    and "cond_interval c \<le> u16_max - max_condition_duration_seconds"
    and "cond_damage c * (cond_elapsed c + cond_remaining c) \<le> u32_max"
  shows "tick_condition e2 (tick_condition e1 c) = tick_condition (e1 + e2) c \<and>
    condition_damage e1 c + condition_damage e2 (tick_condition e1 c) = condition_damage (e1 + e2) c"
  using tick_condition_split [OF assms(1-3)] assms(4) by simp

theorem condition_ticks_compose_witness:
  "tick_condition 20 (tick_condition 7 sample_burn) = tick_condition (7 + 20) sample_burn \<and>
   condition_damage 7 sample_burn + condition_damage 20 (tick_condition 7 sample_burn) =
     condition_damage (7 + 20) sample_burn"
  by (rule condition_ticks_compose) simp_all

text \<open>
  A regeneration schedule neither loses nor invents seconds: two elapsed periods give the events
  and the remainder of one, and the events account for the whole time.
\<close>

theorem regeneration_schedule_composes:
  assumes "0 < interval" and "interval \<le> u16_max" and "elapsed + d1 + d2 \<le> u16_max"
    and "advance_regeneration_schedule elapsed interval d1 = Ok (n1, r1)"
    and "advance_regeneration_schedule r1 interval d2 = Ok (n2, r2)"
  shows "advance_regeneration_schedule elapsed interval (d1 + d2) = Ok (n1 + n2, r2) \<and>
    elapsed + d1 + d2 = (n1 + n2) * interval + r2 \<and> r2 < interval"
  using advance_regeneration_schedule_split [OF assms(1,3,2,4,5)]
    advance_regeneration_schedule_Ok [OF assms(1), of elapsed "d1 + d2"] assms(3)
  by (auto simp: ac_simps)

theorem regeneration_schedule_composes_witness:
  "advance_regeneration_schedule 5 6 (10 + 9) = Ok (2 + 2, 0) \<and> (5::nat) + 10 + 9 = (2 + 2) * 6 + 0 \<and> (0::nat) < 6"
  by (rule regeneration_schedule_composes [of 6 5 10 9 2 3 2 0]) (simp_all add: advance_regeneration_schedule_def sat_add_def)

section \<open>The map\<close>

text \<open>
  C27. A map passes validation exactly when it is well formed: named, with a walkable spawn, every
  item list, flag and house on an existing tile, and a sound source header.
\<close>

theorem map_validation_is_exact:
  "map_validate m = Ok () \<longleftrightarrow> map_wf m"
  by (rule map_validate_iff)

text \<open>
  C14. A journal of item removals is all or nothing: a rejected journal leaves the map as it was and is
  never a panic, an accepted one names the map's own revision throughout and removes exactly the
  journal's indices from each tile, counted in the original list.
\<close>

theorem item_journal_is_atomic:
  "case apply_source_item_removals rs m of
     (Inl e, m') \<Rightarrow> m' = m \<and> e \<noteq> Panic
   | (Inr u, m') \<Rightarrow> m' = m\<lparr>wm_tile_items := wm_tile_items m'\<rparr> \<and>
       isi_revision ` set rs \<subseteq> {source_revision m} \<and>
       (\<forall>p. bt_get (wm_tile_items m') p =
          map_option (\<lambda>its. nths its (- journal_at rs p)) (bt_get (wm_tile_items m) p))"
  by (cases rule: apply_source_item_removals_cases [of rs m]) auto

text \<open>
  C25. The revision hash sees every change of walkability: flipping one tile's flag gives a different
  64-bit revision, so a journal for the old map is refused. (FNV-1a absorbs equal input injectively.)
\<close>

theorem revision_detects_walkability:
  assumes "bt_get (wm_tiles m) p = Some t"
  shows "source_revision (m\<lparr>wm_tiles := bt_insert p (t\<lparr>walkable := \<not> walkable t\<rparr>) (wm_tiles m)\<rparr>) \<noteq>
    source_revision m"
  using assms by (rule revision_sees_walkable)

theorem revision_detects_walkability_witness:
  "source_revision (sample_map\<lparr>wm_tiles := bt_insert (Position 100 100 7)
      (\<lparr>ground_thing_id = 1, walkable = True\<rparr>\<lparr>walkable := \<not> walkable \<lparr>ground_thing_id = 1, walkable = True\<rparr>\<rparr>)
      (wm_tiles sample_map)\<rparr>) \<noteq> source_revision sample_map"
  by (rule revision_detects_walkability) code_simp

section \<open>Creature templates\<close>

text \<open>
  C26. Extending a collection appends exactly the templates whose identifier and lower-cased name are
  both new, never fails, and keeps the collection's invariant: every schedule, reward, loot table and
  area belongs to an entity.
\<close>

theorem templates_extend_freshly:
  fixes lower :: "string \<Rightarrow> string"
  assumes "spawns_wf c" and "spawns_wf ts"
  shows "\<exists>c'. extend_templates lower ts c = (Ok (), c') \<and> spawns_wf c' \<and>
    sc_entities c' = sc_entities c @ filter (\<lambda>t. se_id t \<notin> se_id ` set (sc_entities c) \<and>
      lower (se_name t) \<notin> (\<lambda>e. lower (se_name e)) ` set (sc_entities c)) (sc_entities ts)"
  using extend_templates_spec [OF assms, of lower] by blast

definition sample_spawns :: "static_entity list \<Rightarrow> spawn_collection" where
  "sample_spawns es = \<lparr>sc_entities = es, sc_respawn_intervals = bt_empty,
     sc_experience_rewards = bt_empty, sc_melee_intervals = bt_empty, sc_damage_ranges = bt_empty,
     sc_melee_conditions = bt_empty, sc_loot_tables = bt_empty, sc_npc_ids = bt_empty, sc_spawn_areas = bt_empty\<rparr>"

definition sample_rat :: static_entity where "sample_rat = sample_entity 1 ''rat'' (Position 105 100 7)"
definition sample_wolf :: static_entity where "sample_wolf = sample_entity 2 ''wolf'' (Position 108 100 7)"

theorem templates_extend_freshly_witness:
  "\<exists>c'. extend_templates id (sample_spawns [sample_rat, sample_wolf]) (sample_spawns [sample_rat]) = (Ok (), c') \<and>
     spawns_wf c' \<and> sc_entities c' = sc_entities (sample_spawns [sample_rat]) @
       filter (\<lambda>t. se_id t \<notin> se_id ` set (sc_entities (sample_spawns [sample_rat])) \<and>
         id (se_name t) \<notin> (\<lambda>e. id (se_name e)) ` set (sc_entities (sample_spawns [sample_rat])))
         (sc_entities (sample_spawns [sample_rat, sample_wolf]))"
proof (rule templates_extend_freshly)
  have "spawns_new es = Ok (sample_spawns es) \<Longrightarrow> spawns_wf (sample_spawns es)" for es
    unfolding spawns_new_def with_respawn_intervals_def with_respawn_intervals_and_rewards_def
      with_runtime_metadata_def with_combat_metadata_def with_combat_metadata_and_npc_ids_def
    using with_loot_tables_wf by blast
  moreover have "spawns_new [sample_rat] = Ok (sample_spawns [sample_rat])"
    "spawns_new [sample_rat, sample_wolf] = Ok (sample_spawns [sample_rat, sample_wolf])"
    by (code_simp, code_simp)
  ultimately show "spawns_wf (sample_spawns [sample_rat])" "spawns_wf (sample_spawns [sample_rat, sample_wolf])"
    by blast+
qed

end
