(* ===== verification/Sample_World.thy ===== *)
theory Sample_World
  imports Engine Rule_Properties
begin

text \<open>
  A small concrete world, reached from the empty one by commands, on which the witnesses of the
  properties evaluate the model.
\<close>

section \<open>A sample world\<close>

definition hero :: "nat \<Rightarrow> nat \<Rightarrow> player" where
  "hero p x = \<lparr>pl_id = p, pl_account_id = p, pl_name = ''hero'', pl_position = Position x 100 7, pl_level = 8,
     pl_experience = 4200, pl_skill_points = 0\<rparr>"

definition hero_vitals :: player_vitals where
  "hero_vitals = default_vitals\<lparr>health := 100, max_health := 185, mana := 20, max_mana := 35\<rparr>"

definition pouch :: "nat \<Rightarrow> item_instance list \<Rightarrow> player_container" where
  "pouch cid its = \<lparr>pc_id = cid, pc_item = sample_item 20 1, pc_name = ''bag'', pc_has_parent = False,
     pc_items = \<lparr>ic_capacity = 4, ic_items = its\<rparr>\<rparr>"

definition meet :: "world_command list" where
  "meet = [Join (hero 1 100) hero_vitals default_progression, Join (hero 2 101) hero_vitals default_progression,
     Join (hero 3 102) hero_vitals default_progression]"

definition gather :: "world_command list" where
  "gather = meet @ [Party (Invite 1 2), Party (Invite 1 3), Party (AcceptInvitation 2 1), Party (AcceptInvitation 3 1)]"

abbreviation sample_run :: "world_command list \<Rightarrow> world_state" where
  "sample_run cs \<equiv> run_cmds (exec_world exact_scale sample_map) cs empty_world"

lemma meet_typed [simp]: "list_all well_typed meet"
  by (simp add: meet_def hero_vitals_def)

lemma gather_typed [simp]: "list_all well_typed gather"
  by (simp add: gather_def)

lemma sample_run_wf: "list_all well_typed cs \<Longrightarrow> world_wf (sample_run cs)"
  by (rule world.run_inv [OF _ world_wf_empty])

lemma result_eqI: "fst r = Ok x \<Longrightarrow> r = (Ok x, snd r)"
  by (cases r) simp

lemma map_sum_Ok: "map_sum id (\<lambda>_. ()) r = Ok () \<longleftrightarrow> (\<exists>x. r = Ok x)"
  by (cases r) simp_all

definition packed :: "world_command list" where
  "packed = meet @ [Set_Equipment 1 (bt_of_list [(RightHand, sample_item 7 40), (LeftHand, sample_item 8 1)]),
     Set_Containers 1 (bt_of_list [(0, pouch 0 [sample_item 7 30, sample_item 9 1])])]"

lemma packed_typed [simp]: "list_all well_typed packed"
proof -
  have "window_wf 0 (pouch 0 [sample_item 7 30, sample_item 9 1])"
    by (simp add: window_wf_def pouch_def container_wf_def)
  then have "containers_wf (bt_of_list [(0, pouch 0 [sample_item 7 30, sample_item 9 1])])"
    by (auto simp: containers_wf_def bt_of_list_def bt_len_insert bt_get_insert split: if_splits)
  moreover have "equipment_wf (bt_of_list [(RightHand, sample_item 7 40), (LeftHand, sample_item 8 1)])"
    by (auto simp: equipment_wf_def bt_get_of_list)
  ultimately show ?thesis by (simp add: packed_def)
qed

section \<open>Creatures\<close>

text \<open>A rat beside the players, a snake further off and a merchant who fights nobody.\<close>

definition den :: spawn_collection where
  "den = \<lparr>sc_entities = [sample_entity 7 ''rat'' (Position 103 100 7), sample_entity 8 ''snake'' (Position 103 104 7),
        sample_entity 9 ''Merchant'' (Position 103 106 7)],
     sc_respawn_intervals = bt_of_list [(7, 60), (8, 60)],
     sc_experience_rewards = bt_of_list [(7, 5)],
     sc_melee_intervals = bt_of_list [(7, 2000)],
     sc_damage_ranges = bt_of_list [(7, \<lparr>min_damage = 3, max_damage = 8\<rparr>)],
     sc_melee_conditions = bt_empty,
     sc_loot_tables = bt_of_list [(7, [\<lparr>le_item_id = 30, le_chance = 100000, le_min_count = 1, le_max_count = 4\<rparr>,
        \<lparr>le_item_id = 31, le_chance = 500, le_min_count = 1, le_max_count = 1\<rparr>])],
     sc_npc_ids = bs_of_list [9], sc_spawn_areas = bt_empty\<rparr>"

lemma den_built:
  "with_loot_tables (sc_entities den) (sc_respawn_intervals den) (sc_experience_rewards den) (sc_melee_intervals den)
     (sc_damage_ranges den) (sc_npc_ids den) (sc_loot_tables den) = Ok den"
proof -
  have "map_sum id (\<lambda>_. ()) (with_loot_tables (sc_entities den) (sc_respawn_intervals den) (sc_experience_rewards den)
      (sc_melee_intervals den) (sc_damage_ranges den) (sc_npc_ids den) (sc_loot_tables den)) = Ok ()" by code_simp
  then show ?thesis
    by (auto simp: map_sum_Ok with_loot_tables_def den_def split: if_splits)
qed

lemma den_wf: "spawns_wf den"
  using with_loot_tables_wf [OF den_built] by simp

lemma den_apart: "places_apart den"
  by (simp add: places_apart_def den_def sample_entity_def unplaced_origin_def)

abbreviation sample_engine :: "engine_command list \<Rightarrow> world_state" where
  "sample_engine cs \<equiv> run_cmds (exec_engine exact_scale id sample_map) cs empty_world"

lemma creature_inv_empty: "creature_inv empty_world"
  using world_wf_empty
  by (simp add: creature_inv_def) (simp add: tiles_exclusive_def creatures_apart_def active_at_def empty_world_def)

lemma sample_engine_wf: "list_all engine_typed cs \<Longrightarrow> world_wf (sample_engine cs)"
  by (rule engine.run_inv [OF _ world_wf_empty])

lemma sample_engine_inv: "list_all engine_typed cs \<Longrightarrow> list_all keeps_apart cs \<Longrightarrow> creature_inv (sample_engine cs)"
  by (rule exclusive_run [OF _ _ creature_inv_empty])

definition prowl :: "engine_command list" where
  "prowl = map World meet @ [World (Set_Town 3 1), Creature (Install den)]"

lemma prowl_typed [simp]: "list_all engine_typed prowl"
  using meet_typed den_wf by (simp add: prowl_def list_all_iff)

lemma prowl_apart [simp]: "list_all keeps_apart prowl"
  using den_apart by (simp add: prowl_def list_all_iff)

end
