(* ===== verification/Policy_Plan.thy ===== *)
theory Policy_Plan
  imports Static_Movement
begin

text \<open>
  The clockwise policy plans all its steps against one simulated set of occupied tiles and then applies
  them one after the other to the world. The lemmas here show that the simulation is exact: every
  planned step is accepted when its turn comes.
\<close>

text \<open>What a list of decisions does to one creature.\<close>

definition moved_by ::
  "world_map \<Rightarrow> (nat \<times> cardinal_direction) list \<Rightarrow> nat \<Rightarrow> creature_runtime \<Rightarrow> creature_runtime \<Rightarrow> bool" where
  "moved_by m ds c rt rt' \<longleftrightarrow>
     (case map_of ds c of
        None \<Rightarrow> rt' = rt
      | Some d \<Rightarrow> cr_active rt \<and>
          (\<exists>q. step (entity_position rt) d = Ok q \<and> is_walkable m q \<and> rt' = relocate q rt))"

definition simulates :: "world_state \<Rightarrow> position btset \<Rightarrow> bool" where
  "simulates w tiles \<longleftrightarrow> (\<forall>q. bt_mem q tiles \<longleftrightarrow> active_at (creatures w) q)"

lemma pick_Some:
  assumes "pick m standing tiles source ds = Some (d, q)"
  shows "step source d = Ok q" and "is_walkable m q" and "\<not> bt_mem q standing" and "\<not> bt_mem q tiles"
    and "d \<in> set ds"
proof -
  from find_Some_set [OF assms [unfolded pick_def]] obtain d' where "d' \<in> set ds" and "(case step source d' of Inl _ \<Rightarrow> None
       | Inr q \<Rightarrow> if is_walkable m q \<and> \<not> bt_mem q standing \<and> \<not> bt_mem q tiles then Some (d', q) else None) = Some (d, q)"
    by (auto simp: List.map_filter_def)
  then show "step source d = Ok q" "is_walkable m q" "\<not> bt_mem q standing" "\<not> bt_mem q tiles" "d \<in> set ds"
    by (auto split: sum.splits if_splits)
qed

lemma apart_elsewhere:
  assumes "creature_inv w" and "bt_get (creatures w) c = Some rt" and "cr_active rt"
  shows "active_at (bt_remove c (creatures w)) q \<longleftrightarrow> active_at (creatures w) q \<and> q \<noteq> entity_position rt"
proof -
  have apart: "creatures_apart (creatures w)" using assms(1) by (simp add: creature_inv_def tiles_exclusive_def)
  show ?thesis
  proof
    assume "active_at (bt_remove c (creatures w)) q"
    then obtain i a where a: "i \<noteq> c" "bt_get (creatures w) i = Some a" "cr_active a" "entity_position a = q"
      by (auto simp: active_at_def bt_get_remove entity_position_def split: if_splits)
    with creatures_apartD [OF apart, of i a c rt] assms(2,3) have "q \<noteq> entity_position rt" by metis
    with a show "active_at (creatures w) q \<and> q \<noteq> entity_position rt"
      unfolding active_at_def entity_position_def by metis
  next
    assume q: "active_at (creatures w) q \<and> q \<noteq> entity_position rt"
    then obtain i a where a: "bt_get (creatures w) i = Some a" "cr_active a" "entity_position a = q"
      by (auto simp: active_at_def entity_position_def)
    with q assms(2) have "i \<noteq> c" by auto
    with a show "active_at (bt_remove c (creatures w)) q"
      unfolding active_at_def entity_position_def by (metis bt_get_remove_other)
  qed
qed

text \<open>One planned step is accepted and the simulation stays exact.\<close>

lemma planned_step:
  assumes "creature_inv w" and "simulates w tiles" and "bt_get (creatures w) c = Some rt" and "cr_active rt"
    and "pick m (standing_tiles w) (bt_remove (entity_position rt) tiles) (entity_position rt) ds = Some (d, q)"
  obtains w1 where "move_static_creature_cardinal c d m w = (Ok (entity_position rt, q), w1)"
    and "creatures w1 = bt_insert c (relocate q rt) (creatures w)" and "players w1 = players w"
    and "creature_inv w1" and "simulates w1 (bs_insert q (bt_remove (entity_position rt) tiles))"
proof -
  note p = pick_Some [OF assms(5)]
  have free: "\<not> is_player_occupied w q" using p(3) by (simp add: standing_tiles_mem)
  have others: "active_at (bt_remove c (creatures w)) r \<longleftrightarrow> bt_mem r (bt_remove (entity_position rt) tiles)" for r
    using apart_elsewhere [OF assms(1,3,4)] assms(2) by (auto simp: simulates_def)
  define w1 where "w1 = mark_changed (refresh_static_creature_occupancy (put_creature c (relocate q rt) w))"
  have move: "move_static_creature_cardinal c d m w = (Ok (entity_position rt, q), w1)"
    using assms(3,4) p free others by (simp add: move_static_creature_cardinal_def other_creature_at_iff w1_def attempt_def creature_def)
  have cr: "creatures w1 = bt_insert c (relocate q rt) (creatures w)" "players w1 = players w"
    by (simp_all add: w1_def mark_changed_def refresh_static_creature_occupancy_def put_creature_def)
  have "simulates w1 (bs_insert q (bt_remove (entity_position rt) tiles))"
    using assms(4) others by (auto simp: simulates_def cr active_at_insert relocate_def entity_position_def)
  with that [OF move cr] move_creature_inv [OF assms(1), of c d m] move show thesis by simp
qed

text \<open>The plan \<open>ds\<close> for the creatures \<open>es\<close>, of which \<open>k\<close> stay, leads from \<open>w\<close> to \<open>w'\<close>.\<close>

definition carries_out ::
  "world_map \<Rightarrow> (nat \<times> creature_runtime) list \<Rightarrow> (nat \<times> cardinal_direction) list \<Rightarrow> nat \<Rightarrow> world_state \<Rightarrow>
     world_state \<Rightarrow> bool" where
  "carries_out m es ds k w w' \<longleftrightarrow>
     apply_decisions m ds w = (Ok (), w') \<and> fst ` set ds \<subseteq> fst ` set es \<and>
     length ds + k = length (filter cr_active (map snd es)) \<and> players w' = players w \<and>
     (\<forall>c. c \<notin> fst ` set es \<longrightarrow> bt_get (creatures w') c = bt_get (creatures w) c) \<and>
     (\<forall>(c, rt) \<in> set es. \<exists>rt'. bt_get (creatures w') c = Some rt' \<and> moved_by m ds c rt rt')"

lemma carries_out_stay:
  assumes "carries_out m es ds k w w'" and "bt_get (creatures w) c = Some rt" and "c \<notin> fst ` set es"
  shows "carries_out m ((c, rt) # es) ds (if cr_active rt then Suc k else k) w w'"
proof -
  have "map_of ds c = None" using assms(1,3) by (auto simp: carries_out_def map_of_eq_None_iff)
  with assms show ?thesis by (auto simp: carries_out_def moved_by_def)
qed

lemma carries_out_move:
  assumes "carries_out m es ds k w1 w'" and "c \<notin> fst ` set es" and "cr_active rt"
    and "move_static_creature_cardinal c d m w = (Ok x, w1)" and "players w1 = players w"
    and "creatures w1 = bt_insert c (relocate q rt) (creatures w)"
    and "step (entity_position rt) d = Ok q" and "is_walkable m q"
  shows "carries_out m ((c, rt) # es) ((c, d) # ds) k w w'"
proof -
  have "moved_by m ((c, d) # ds) i a a'" if "moved_by m ds i a a'" "(i, a) \<in> set es" for i a a'
    using that assms(2) by (force simp: moved_by_def)
  moreover have "moved_by m ((c, d) # ds) c rt (relocate q rt)"
    using assms(3,7,8) by (simp add: moved_by_def)
  moreover have "bt_get (creatures w') c = bt_get (creatures w1) c"
    using assms(1,2) by (simp add: carries_out_def)
  ultimately have "\<forall>(i, a) \<in> set ((c, rt) # es). \<exists>a'. bt_get (creatures w') i = Some a' \<and> moved_by m ((c, d) # ds) i a a'"
    using assms(1,6) by (fastforce simp: carries_out_def)
  moreover have "apply_decisions m ((c, d) # ds) w = (Ok (), w')"
    using assms(1,4) by (simp add: carries_out_def)
  moreover have "\<forall>i. i \<notin> fst ` set ((c, rt) # es) \<longrightarrow> bt_get (creatures w') i = bt_get (creatures w) i"
    using assms(1,6) by (simp add: carries_out_def)
  ultimately show ?thesis
    using assms(1,3,5) unfolding carries_out_def by auto
qed

lemma plan_applies:
  assumes "creature_inv w" and "simulates w tiles" and "standing = standing_tiles w"
    and "\<forall>(c, rt) \<in> set es. bt_get (creatures w) c = Some rt" and "distinct (map fst es)"
  shows "\<exists>ds k w'. plan_loop m now standing es tiles b =
        b\<lparr>db_decisions := db_decisions b @ ds, db_skipped := db_skipped b + k\<rparr> \<and> carries_out m es ds k w w'"
  using assms
proof (induction es arbitrary: tiles b w)
  case Nil
  show ?case by (rule exI [of _ "[]"], rule exI [of _ 0], rule exI [of _ w]) (simp add: carries_out_def)
next
  case (Cons e es)
  obtain c rt where e: "e = (c, rt)" by (rule prod.exhaust)
  have get: "bt_get (creatures w) c = Some rt" and new: "c \<notin> fst ` set es" and dist: "distinct (map fst es)"
    and rest: "\<forall>(c, rt) \<in> set es. bt_get (creatures w) c = Some rt"
    using Cons.prems(4,5) e by auto
  let ?others = "bt_remove (entity_position rt) tiles"
  consider (idle) "\<not> cr_active rt"
    | (stay) "cr_active rt" "pick m standing ?others (entity_position rt) (rotated (c + now)) = None"
    | (move) d q where "cr_active rt" "pick m standing ?others (entity_position rt) (rotated (c + now)) = Some (d, q)"
    by (cases "pick m standing ?others (entity_position rt) (rotated (c + now))") auto
  then show ?case
  proof cases
    case idle
    from Cons.IH [OF Cons.prems(1-3) rest dist, of b] obtain ds k w' where
      "plan_loop m now standing es tiles b = b\<lparr>db_decisions := db_decisions b @ ds, db_skipped := db_skipped b + k\<rparr>"
      and c: "carries_out m es ds k w w'" by blast
    moreover have "carries_out m (e # es) ds k w w'" using carries_out_stay [OF c get new] idle e by simp
    ultimately show ?thesis using idle e by auto
  next
    case stay
    have "simulates w (bs_insert (entity_position rt) ?others)"
      using Cons.prems(2) stay(1) get unfolding simulates_def active_at_def entity_position_def by auto
    from Cons.IH [OF Cons.prems(1) this Cons.prems(3) rest dist, of "b\<lparr>db_skipped := db_skipped b + 1\<rparr>"]
    obtain ds k w' where "plan_loop m now standing es (bs_insert (entity_position rt) ?others)
          (b\<lparr>db_skipped := db_skipped b + 1\<rparr>) =
        b\<lparr>db_decisions := db_decisions b @ ds, db_skipped := db_skipped b + Suc k\<rparr>"
      and c: "carries_out m es ds k w w'" by auto
    then have "plan_loop m now standing (e # es) tiles b =
        b\<lparr>db_decisions := db_decisions b @ ds, db_skipped := db_skipped b + Suc k\<rparr>"
      using stay e by (simp add: Let_def)
    moreover have "carries_out m (e # es) ds (Suc k) w w'" using carries_out_stay [OF c get new] stay(1) e by simp
    ultimately show ?thesis by blast
  next
    case (move d q)
    from move(2) Cons.prems(3) have "pick m (standing_tiles w) ?others (entity_position rt) (rotated (c + now)) = Some (d, q)"
      by simp
    from planned_step [OF Cons.prems(1,2) get move(1) this] obtain w1 where
      m: "move_static_creature_cardinal c d m w = (Ok (entity_position rt, q), w1)"
      and cr: "creatures w1 = bt_insert c (relocate q rt) (creatures w)" and pl: "players w1 = players w"
      and inv: "creature_inv w1" and sim: "simulates w1 (bs_insert q ?others)" by blast
    have "standing = standing_tiles w1" using Cons.prems(3) pl by (simp add: standing_tiles_def)
    moreover have "\<forall>(c, rt) \<in> set es. bt_get (creatures w1) c = Some rt"
      using rest new unfolding cr by (force simp: bt_get_insert)
    ultimately obtain ds k w' where p: "plan_loop m now standing es (bs_insert q ?others)
          (b\<lparr>db_decisions := db_decisions b @ [(c, d)]\<rparr>) =
        b\<lparr>db_decisions := db_decisions b @ (c, d) # ds, db_skipped := db_skipped b + k\<rparr>"
      and c: "carries_out m es ds k w1 w'"
      using Cons.IH [OF inv sim _ _ dist, of "b\<lparr>db_decisions := db_decisions b @ [(c, d)]\<rparr>"] by auto
    have "plan_loop m now standing (e # es) tiles b =
        b\<lparr>db_decisions := db_decisions b @ (c, d) # ds, db_skipped := db_skipped b + k\<rparr>"
      using p move e by (simp add: Let_def)
    moreover have "carries_out m (e # es) ((c, d) # ds) k w w'"
      using carries_out_move [OF c new move(1) m pl cr pick_Some(1,2) [OF move(2)]] e by simp
    ultimately show ?thesis by blast
  qed
qed

lemma policy_carried_out:
  assumes "creature_inv w"
  shows "\<exists>w'. apply_static_creature_policy policy m w = (Ok (plan_static_creature_moves w policy m), w') \<and>
    players w' = players w \<and>
    (case policy of
       Disabled \<Rightarrow> w' = w
     | Clockwise_Adjacent \<Rightarrow> carries_out m (entries (creatures w))
         (db_decisions (plan_static_creature_moves w policy m))
         (db_skipped (plan_static_creature_moves w policy m)) w w')"
proof (cases policy)
  case Disabled
  then show ?thesis
    by (simp add: apply_static_creature_policy_def plan_static_creature_moves_def Let_def)
next
  case Clockwise_Adjacent
  have "simulates w (occupied w)"
    using assms world_creatures(2) [of w] by (simp add: creature_inv_def simulates_def occupancy_wf_def)
  have "\<forall>(c, rt) \<in> set (entries (creatures w)). bt_get (creatures w) c = Some rt" by (auto simp: in_entries_iff)
  from plan_applies [OF assms \<open>simulates w (occupied w)\<close> refl this distinct_entries, of m "tick w" "\<lparr>db_decisions = [], db_skipped = 0\<rparr>"]
  obtain ds k w' where p: "plan_static_creature_moves w policy m = \<lparr>db_decisions = ds, db_skipped = k\<rparr>"
    and c: "carries_out m (entries (creatures w)) ds k w w'"
    using Clockwise_Adjacent by (auto simp: plan_static_creature_moves_def)
  have "apply_decisions m ds w = (Ok (), w')" "players w' = players w" using c by (simp_all add: carries_out_def)
  with p c Clockwise_Adjacent show ?thesis by (simp add: apply_static_creature_policy_def Let_def)
qed

end
