(* ===== verification/Restart.thy ===== *)
theory Restart
  imports Static_Creatures
begin

text \<open>
  A restart: the snapshot of one world restored into a freshly installed one. The lemmas say which
  snapshots are accepted and that an accepted one is reproduced by the restored world.
\<close>

section \<open>Which snapshots are accepted\<close>

definition persisted :: "creature_runtime \<Rightarrow> bool" where
  "persisted rt \<longleftrightarrow> cr_active rt \<or> entity_position rt \<noteq> unplaced_origin"

text \<open>The timers never run further ahead than their interval.\<close>

definition timely :: "world_state \<Rightarrow> bool" where
  "timely w \<longleftrightarrow> (\<forall>c rt. bt_get (creatures w) c = Some rt \<longrightarrow>
     (\<forall>d. cr_reactivation_due rt = Some d \<longrightarrow> 0 < cr_respawn_interval rt \<and> d \<le> tick w + cr_respawn_interval rt) \<and>
     (\<forall>n. cr_melee_cooldown rt = Some n \<longrightarrow> cr_next_melee_due rt \<le> tick w + n))"

text \<open>
  \<open>w0\<close> is a world that has just been installed from the data \<open>w\<close> was installed from: nobody is
  online, every creature \<open>w\<close> persists is known with its intervals, and every other creature is dormant.
\<close>

definition boots :: "world_state \<Rightarrow> world_state \<Rightarrow> bool" where
  "boots w w0 \<longleftrightarrow> (\<forall>q. \<not> is_player_occupied w0 q) \<and> tick w0 + u32_max \<le> u64_max \<and>
     (\<forall>c rt. bt_get (creatures w) c = Some rt \<and> persisted rt \<longrightarrow> entity_position rt \<noteq> unplaced_origin \<and>
        (\<exists>rt0. bt_get (creatures w0) c = Some rt0 \<and> cr_respawn_interval rt0 = cr_respawn_interval rt \<and>
           cr_melee_cooldown rt0 = cr_melee_cooldown rt)) \<and>
     (\<forall>c rt0. bt_get (creatures w0) c = Some rt0 \<longrightarrow>
        (\<exists>rt. bt_get (creatures w) c = Some rt \<and> persisted rt) \<or>
        \<not> cr_active rt0 \<and> entity_position rt0 = unplaced_origin)"

lemma screen_all:
  assumes "distinct (map sn_id rs)" and "\<forall>r \<in> set rs. \<not> bt_mem (sn_id r) seen"
    and "\<forall>r \<in> set rs. sn_position r \<noteq> unplaced_origin \<and> sn_health_percent r \<le> 100 \<and>
      (\<exists>rt. bt_get m (sn_id r) = Some rt \<and> check_record rt r = Ok ())"
  shows "screen_records m rs seen = Ok (rs, 0)"
  using assms
proof (induction rs arbitrary: seen)
  case (Cons r rs)
  then obtain rt where "bt_get m (sn_id r) = Some rt" "check_record rt r = Ok ()" by auto
  moreover have "screen_records m rs (bs_insert (sn_id r) seen) = Ok (rs, 0)"
    using Cons.prems by (intro Cons.IH) (auto simp: image_iff; metis)+
  ultimately show ?case using Cons.prems by simp
qed simp

lemma screen_refuses:
  assumes "r \<in> set rs" and "sn_position r \<noteq> unplaced_origin" and "bt_get m (sn_id r) = Some rt"
    and "check_record rt r = Inl e"
  shows "\<exists>e. screen_records m rs seen = Inl e"
  using assms(1)
proof (induction rs arbitrary: seen)
  case (Cons s rs)
  show ?case
  proof (cases "r = s")
    case True
    with assms show ?thesis by (auto simp: Let_def)
  next
    case False
    with Cons have "\<exists>e. screen_records m rs (bs_insert (sn_id s) seen) = Inl e" by simp
    then show ?thesis by (cases "check_record (the (bt_get m (sn_id s))) s") (auto simp: Let_def split: option.split)
  qed
qed simp

lemma reserve_all:
  assumes "\<forall>q. \<not> is_player_occupied w q" and "distinct (map sn_position (filter sn_active rs))"
    and "\<forall>r \<in> set rs. sn_active r \<longrightarrow> \<not> bt_mem (sn_position r) tiles"
  shows "reserve_tiles w rs tiles = Ok ()"
  using assms(2,3)
proof (induction rs arbitrary: tiles)
  case (Cons r rs)
  then have "reserve_tiles w rs (if sn_active r then bs_insert (sn_position r) tiles else tiles) = Ok ()"
  proof (intro Cons.IH ballI impI)
    show "distinct (map sn_position (filter sn_active rs))" using Cons.prems by (simp split: if_splits)
  next
    fix s assume s: "s \<in> set rs" "sn_active s"
    have "sn_position s \<noteq> sn_position r" if "sn_active r"
    proof
      assume "sn_position s = sn_position r"
      with s have "\<exists>x \<in> set (filter sn_active rs). sn_position r = sn_position x" by (intro bexI [of _ s]) simp_all
      then have "sn_position r \<in> sn_position ` set (filter sn_active rs)" by (simp only: image_iff)
      with Cons.prems(1) that show False by simp
    qed
    with s Cons.prems(2) show "\<not> bt_mem (sn_position s) (if sn_active r then bs_insert (sn_position r) tiles else tiles)"
      by simp
  qed
  with Cons.prems assms(1) show ?case by (cases "sn_active r") simp_all
qed simp

lemma remaining_until_le: "remaining_until now due \<le> u32_max"
  by (simp add: remaining_until_def)

lemma remaining_due_after: "n \<le> u32_max \<Longrightarrow> now + u32_max \<le> u64_max \<Longrightarrow> remaining_until now (due_after now n) = n"
  by (simp add: remaining_until_def due_after_def sat_add_def)

lemma snapshot_of_sel [simp]:
  "sn_id (snapshot_of now (i, rt)) = i" "sn_position (snapshot_of now (i, rt)) = entity_position rt"
  "sn_active (snapshot_of now (i, rt)) = cr_active rt"
  "sn_health_percent (snapshot_of now (i, rt)) = cr_health_percent rt"
  "sn_sequence (snapshot_of now (i, rt)) = cr_damage_sequence rt"
  "sn_reactivation (snapshot_of now (i, rt)) = map_option (remaining_until now) (cr_reactivation_due rt)"
  "sn_cooldown (snapshot_of now (i, rt)) = map_option (\<lambda>_. remaining_until now (cr_next_melee_due rt)) (cr_melee_cooldown rt)"
  by (simp_all add: snapshot_of_def)

text \<open>The check of a record the engine wrote itself fails exactly for a defeated creature that declares
  a melee cooldown.\<close>

lemma check_own_record:
  assumes "creature_ok D i rt" and "bt_get (creatures w) i = Some rt" and "timely w"
    and "cr_respawn_interval rt0 = cr_respawn_interval rt" and "cr_melee_cooldown rt0 = cr_melee_cooldown rt"
  shows "check_record rt0 (snapshot_of (tick w) (i, rt)) =
    (if \<not> cr_active rt \<and> cr_melee_cooldown rt \<noteq> None
     then Inl (invalid_cooldown (snapshot_of (tick w) (i, rt)) (remaining_until (tick w) (cr_next_melee_due rt))
       (the (cr_melee_cooldown rt)))
     else Ok ())"
proof -
  have due: "0 < cr_respawn_interval rt \<and> remaining_until (tick w) d \<le> cr_respawn_interval rt"
    if "cr_reactivation_due rt = Some d" for d
    using assms(2,3) that by (fastforce simp: timely_def remaining_until_def)
  have cool: "remaining_until (tick w) (cr_next_melee_due rt) \<le> n" if "cr_melee_cooldown rt = Some n" for n
    using assms(2,3) that by (fastforce simp: timely_def remaining_until_def)
  have idle: "cr_active rt \<Longrightarrow> cr_reactivation_due rt = None" using assms(1) by (simp add: creature_ok_def)
  show ?thesis
    using assms(4,5) due cool idle
    by (cases "cr_active rt"; cases "cr_reactivation_due rt"; cases "cr_melee_cooldown rt")
      (auto simp: check_record_def Let_def)
qed

section \<open>The restored world writes the same snapshot\<close>

lemma snapshot_restored:
  assumes "creature_ok D i rt" and "now0 + u32_max \<le> u64_max" and "cr_melee_cooldown rt0 = cr_melee_cooldown rt"
  shows "snapshot_of now0 (i, restored_runtime now0 (snapshot_of now (i, rt)) rt0) = snapshot_of now (i, rt)"
proof -
  have r: "remaining_until now0 (due_after now0 (remaining_until now d)) = remaining_until now d" for d
    by (rule remaining_due_after [OF remaining_until_le assms(2)])
  show ?thesis
    using assms(1,3) r
    by (cases "cr_active rt"; cases "cr_reactivation_due rt"; cases "cr_melee_cooldown rt")
      (auto simp: snapshot_of_def restored_runtime_def restored_melee_due_def Let_def entity_position_def creature_ok_def)
qed

lemma snapshot_sorted: "sorted_wrt (<) (map sn_id (static_creature_runtime_snapshot w))"
proof -
  have "map sn_id (static_creature_runtime_snapshot w) =
      map fst (filter (\<lambda>(i, rt). cr_active rt \<or> entity_position rt \<noteq> unplaced_origin) (entries (creatures w)))"
    by (simp add: static_creature_runtime_snapshot_def snapshot_of_def split_beta)
  then show ?thesis by (simp add: sorted_wrt_fst_filter)
qed

lemma snapshot_set:
  "set (static_creature_runtime_snapshot w) =
     {snapshot_of (tick w) (i, rt) | i rt. bt_get (creatures w) i = Some rt \<and> persisted rt}"
  by (auto simp: static_creature_runtime_snapshot_def persisted_def in_entries_iff image_iff)
    (metis in_entries_iff)+

lemma snapshots_eqI:
  assumes "sorted_wrt (<) (map sn_id rs)" and "sorted_wrt (<) (map sn_id ss)" and "set rs = set ss"
  shows "rs = ss"
proof (rule map_inj_on)
  show "map sn_id rs = map sn_id ss"
    using assms by (intro sorted_distinct_set_unique) (simp_all add: strict_sorted_iff)
  show "inj_on sn_id (set rs \<union> set ss)"
    using assms by (simp add: strict_sorted_iff distinct_map)
qed

lemma restart_accepted:
  assumes "creature_inv w" and "timely w" and "boots w w0"
    and fine: "\<And>c rt. bt_get (creatures w) c = Some rt \<Longrightarrow> persisted rt \<Longrightarrow> \<not> cr_active rt \<Longrightarrow> cr_melee_cooldown rt = None"
  obtains s w' where "restore_static_creature_runtime (static_creature_runtime_snapshot w) w0 = (Ok s, w')"
    and "rm_restored s = length (static_creature_runtime_snapshot w)" and "rm_ignored s = 0"
    and "static_creature_runtime_snapshot w' = static_creature_runtime_snapshot w" and "tick w' = tick w0"
proof -
  let ?S = "static_creature_runtime_snapshot w"
  note b = assms(3) [unfolded boots_def]
  have w: "world_wf w" "creatures_apart (creatures w)" using assms(1) by (simp_all add: creature_inv_def tiles_exclusive_def)
  note ok = creature_get_ok [OF w(1)]
  have distinct: "distinct (map sn_id ?S)" using snapshot_sorted [of w] by (simp add: strict_sorted_iff)
  have screen: "screen_records (creatures w0) ?S bt_empty = Ok (?S, 0)"
  proof (rule screen_all [OF distinct])
    show "\<forall>r \<in> set ?S. sn_position r \<noteq> unplaced_origin \<and> sn_health_percent r \<le> 100 \<and>
        (\<exists>rt. bt_get (creatures w0) (sn_id r) = Some rt \<and> check_record rt r = Ok ())"
    proof
      fix r assume "r \<in> set ?S"
      then obtain i rt where r: "r = snapshot_of (tick w) (i, rt)" and i: "bt_get (creatures w) i = Some rt" "persisted rt"
        by (auto simp: snapshot_set)
      from b i obtain rt0 where rt0: "bt_get (creatures w0) i = Some rt0" "cr_respawn_interval rt0 = cr_respawn_interval rt"
        "cr_melee_cooldown rt0 = cr_melee_cooldown rt" "entity_position rt \<noteq> unplaced_origin" by blast
      have "check_record rt0 r = Ok ()"
        using check_own_record [OF ok [OF i(1)] i(1) assms(2) rt0(2,3)] fine [OF i] r
        by (cases "cr_active rt") simp_all
      with rt0 ok [OF i(1)] r show "sn_position r \<noteq> unplaced_origin \<and> sn_health_percent r \<le> 100 \<and>
          (\<exists>rt. bt_get (creatures w0) (sn_id r) = Some rt \<and> check_record rt r = Ok ())"
        by (simp add: creature_ok_def)
    qed
  qed simp
  define ids where "ids = bs_of_list (map sn_id ?S)"
  define tiles where "tiles = bs_of_list (map (\<lambda>(_, rt). entity_position rt)
      (filter (\<lambda>(i, rt). cr_active rt \<and> \<not> bt_mem i ids) (entries (creatures w0))))"
  have id: "bt_mem i ids \<longleftrightarrow> (\<exists>rt. bt_get (creatures w) i = Some rt \<and> persisted rt)" for i
    by (auto simp: ids_def snapshot_set image_iff) force
  have empty: "\<not> bt_mem q tiles" for q
    using b id by (fastforce simp: tiles_def in_entries_iff)
  have apart: "distinct (map sn_position (filter sn_active ?S))"
    unfolding distinct_map
  proof
    show "distinct (filter sn_active ?S)" using distinct by (simp add: distinct_map)
    show "inj_on sn_position (set (filter sn_active ?S))"
    proof (rule inj_onI)
      fix r s assume "r \<in> set (filter sn_active ?S)" "s \<in> set (filter sn_active ?S)" and p: "sn_position r = sn_position s"
      then obtain i a j c where "r = snapshot_of (tick w) (i, a)" "bt_get (creatures w) i = Some a" "cr_active a"
        "s = snapshot_of (tick w) (j, c)" "bt_get (creatures w) j = Some c" "cr_active c"
        by (auto simp: snapshot_set)
      with p creatures_apartD [OF w(2), of i a j c] show "r = s" by simp
    qed
  qed
  have reserve: "reserve_tiles w0 ?S tiles = Ok ()"
    using b apart empty by (intro reserve_all) simp_all
  obtain changed m where a: "apply_records (tick w0) ?S False (creatures w0) = (changed, m)" by (rule prod.exhaust)
  have known: "\<forall>r \<in> set ?S. bt_mem (sn_id r) (creatures w0)"
    using b by (fastforce simp: snapshot_set bt_mem_ex)
  from apply_records_table [OF distinct known, of "tick w0" False] a
  have tab: "restored_table (tick w0) ?S (creatures w0) m" by simp
  obtain w' where run: "restore_static_creature_runtime ?S w0 = (Ok \<lparr>rm_restored = bt_len ids, rm_ignored = 0\<rparr>, w')"
    and w': "creatures w' = m" "tick w' = tick w0"
    using screen reserve a
    by (simp add: restore_static_creature_runtime_def Let_def ids_def tiles_def mark_changed_def
        refresh_static_creature_occupancy_def)
  have set: "set (static_creature_runtime_snapshot w') = set ?S"
  proof (intro set_eqI iffI)
    fix r assume "r \<in> set (static_creature_runtime_snapshot w')"
    then obtain i rt' where r: "r = snapshot_of (tick w0) (i, rt')" "bt_get m i = Some rt'" "persisted rt'"
      by (auto simp: snapshot_set w')
    from tab r(2) consider s rt0 where "s \<in> set ?S" "sn_id s = i" "bt_get (creatures w0) i = Some rt0"
        "rt' = restored_runtime (tick w0) s rt0" | "i \<notin> sn_id ` set ?S" "bt_get (creatures w0) i = Some rt'"
      unfolding restored_table_def by blast
    then show "r \<in> set ?S"
    proof cases
      case (1 s rt0)
      then obtain rt where s: "s = snapshot_of (tick w) (i, rt)" "bt_get (creatures w) i = Some rt" "persisted rt"
        by (auto simp: snapshot_set)
      with b 1(3) have "cr_melee_cooldown rt0 = cr_melee_cooldown rt" by fastforce
      from snapshot_restored [OF ok [OF s(2)] _ this, of "tick w0" "tick w"] b 1(4) r(1) s(1) have "r = s" by simp
      with 1 show ?thesis by simp
    next
      case 2
      have "\<not> (\<exists>rt. bt_get (creatures w) i = Some rt \<and> persisted rt)"
        using id [of i] 2(1) by (simp add: ids_def)
      with b 2(2) have "\<not> cr_active rt' \<and> entity_position rt' = unplaced_origin" by blast
      with r(3) show ?thesis by (simp add: persisted_def)
    qed
  next
    fix s assume "s \<in> set ?S"
    then obtain i rt where s: "s = snapshot_of (tick w) (i, rt)" "bt_get (creatures w) i = Some rt" "persisted rt"
      by (auto simp: snapshot_set)
    from b s(2,3) obtain rt0 where rt0: "bt_get (creatures w0) i = Some rt0" "cr_melee_cooldown rt0 = cr_melee_cooldown rt"
      "entity_position rt \<noteq> unplaced_origin" by blast
    have "bt_get m i = Some (restored_runtime (tick w0) s rt0)"
      using tab \<open>s \<in> set ?S\<close> s(1) rt0(1) unfolding restored_table_def by fastforce
    moreover have "snapshot_of (tick w0) (i, restored_runtime (tick w0) s rt0) = s"
      using snapshot_restored [OF ok [OF s(2)] _ rt0(2), of "tick w0" "tick w"] b s(1) by simp
    moreover have "persisted (restored_runtime (tick w0) s rt0)"
      using rt0(3) s(1) by (simp add: persisted_def)
    ultimately show "s \<in> set (static_creature_runtime_snapshot w')"
      unfolding snapshot_set w' by (metis (mono_tags, lifting) mem_Collect_eq)
  qed
  have "bt_len ids = length ?S"
  proof -
    have "x \<in> dom (bt_get ids) \<longleftrightarrow> x \<in> set (map sn_id ?S)" for x
      using bt_mem_bs_of_list [of x "map sn_id ?S"] by (simp add: ids_def bt_mem_iff)
    then have "dom (bt_get ids) = set (map sn_id ?S)" by blast
    then show ?thesis using distinct distinct_card [of "map sn_id ?S"] by (simp add: bt_len_eq_card)
  qed
  with that [OF run _ _ snapshots_eqI [OF snapshot_sorted snapshot_sorted set] w'(2)] show thesis by simp
qed

lemma restart_refused:
  assumes "creature_inv w" and "timely w" and "boots w w0"
    and "bt_get (creatures w) c = Some rt" and "persisted rt" and "\<not> cr_active rt" and "cr_melee_cooldown rt \<noteq> None"
  obtains e where "restore_static_creature_runtime (static_creature_runtime_snapshot w) w0 = (Inl e, w0)"
proof -
  from assms(3-5) obtain rt0 where rt0: "bt_get (creatures w0) c = Some rt0" "cr_respawn_interval rt0 = cr_respawn_interval rt"
    "cr_melee_cooldown rt0 = cr_melee_cooldown rt" "entity_position rt \<noteq> unplaced_origin" unfolding boots_def by blast
  have "creature_ok (registered w) c rt" using assms(1,4) creature_get_ok by (simp add: creature_inv_def)
  from check_own_record [OF this assms(4,2) rt0(2,3)] assms(6,7) obtain e where
    "check_record rt0 (snapshot_of (tick w) (c, rt)) = Inl e" by simp
  moreover have "snapshot_of (tick w) (c, rt) \<in> set (static_creature_runtime_snapshot w)"
    using assms(4,5) by (auto simp: snapshot_set)
  ultimately obtain e where "screen_records (creatures w0) (static_creature_runtime_snapshot w) bt_empty = Inl e"
    using screen_refuses [of "snapshot_of (tick w) (c, rt)"] rt0 by force
  then show thesis by (intro that [of e]) (simp add: restore_static_creature_runtime_def)
qed

end
