(* ===== verification/Creature_Properties.thy ===== *)
theory Creature_Properties
  imports Sample_World Policy_Plan Restart "HOL-Library.Sublist"
begin

text \<open>
  The properties of static creatures: the exclusive map over every run of the engine, the planned
  policy, the detour search, targets, attacks, loot, reactivation and restarts.
\<close>

section \<open>The exclusive map\<close>

text \<open>
  C28. Over every sequence of commands on players and creatures, accepted or rejected, in any order, in
  which every installed collection places its creatures on different tiles: the world stays well formed,
  the occupancy index agrees with the creature table, no two active creatures share a tile and no player
  stands on an active creature's tile. Two players may share a tile. The condition on the collections
  is one the code never checks, neither in the constructors nor in \<open>install_static_creatures\<close>, and it is
  needed: see \<open>overlapping_installation\<close>.
\<close>

theorem engine_keeps_the_map_exclusive:
  assumes "list_all engine_typed cs"
    and "\<forall>col. Creature (Install col) \<in> set cs \<longrightarrow>
      distinct (map se_position (filter (\<lambda>e. se_position e \<noteq> unplaced_origin) (sc_entities col)))"
    and "creature_inv w"
  shows "creature_inv (run_cmds (exec_engine fs lower m) cs w)"
proof (rule exclusive_run [OF assms(1) _ assms(3)])
  have "keeps_apart c" if "c \<in> set cs" for c
  proof (cases c)
    case (Creature d)
    with that assms(2) show ?thesis by (cases d) (auto simp: places_apart_def)
  qed simp
  then show "list_all keeps_apart cs" by (simp add: list_all_iff)
qed

theorem engine_keeps_the_map_exclusive_witness:
  "creature_inv (run_cmds (exec_engine exact_scale id sample_map)
     (prowl @ [Creature (Policy Clockwise_Adjacent), World (Teleport 1 (Position 103 104 7)), Creature (Defeat 7)]) empty_world)"
proof (rule engine_keeps_the_map_exclusive)
  let ?cs = "prowl @ [Creature (Policy Clockwise_Adjacent), World (Teleport 1 (Position 103 104 7)), Creature (Defeat 7)]"
  have apart: "list_all keeps_apart ?cs" by simp
  show "\<forall>col. Creature (Install col) \<in> set ?cs \<longrightarrow>
      distinct (map se_position (filter (\<lambda>e. se_position e \<noteq> unplaced_origin) (sc_entities col)))"
  proof (intro allI impI)
    fix col assume "Creature (Install col) \<in> set ?cs"
    from bspec [OF apart [unfolded list_all_iff] this]
    show "distinct (map se_position (filter (\<lambda>e. se_position e \<noteq> unplaced_origin) (sc_entities col)))"
      by (simp add: places_apart_def)
  qed
qed (simp_all add: creature_inv_empty)

lemma install_loop_keeps:
  "install_loop col w es m = Ok m' \<Longrightarrow> i \<notin> se_id ` set es \<Longrightarrow> bt_get m' i = bt_get m i"
  by (induction es arbitrary: m) (auto simp: bt_get_insert split: if_splits)

lemma install_loop_puts:
  "install_loop col w es m = Ok m' \<Longrightarrow> distinct (map se_id es) \<Longrightarrow> e \<in> set es \<Longrightarrow>
     bt_get m' (se_id e) = Some (placed_runtime col (tick w) e)"
proof (induction es arbitrary: m)
  case (Cons a es)
  from Cons.prems(1) have r: "install_loop col w es (bt_insert (se_id a) (placed_runtime col (tick w) a) m) = Ok m'"
    by (auto split: if_splits)
  show ?case
  proof (cases "e = a")
    case True
    with Cons.prems(2) install_loop_keeps [OF r, of "se_id a"] show ?thesis by simp
  next
    case False
    with Cons r show ?thesis by auto
  qed
qed simp

text \<open>
  An accepted installation of a collection that places two of its creatures on one tile leaves two
  active creatures on that tile: the check the map would need is missing.
\<close>

theorem overlapping_installation:
  assumes "spawns_wf col" and "install_static_creatures col w = (Ok (), w')"
    and "e \<in> set (sc_entities col)" and "f \<in> set (sc_entities col)" and "se_id e \<noteq> se_id f"
    and "se_position e = se_position f" and "se_position e \<noteq> unplaced_origin"
  shows "\<exists>a b. bt_get (creatures w') (se_id e) = Some a \<and> bt_get (creatures w') (se_id f) = Some b \<and>
    cr_active a \<and> cr_active b \<and> entity_position a = entity_position b"
proof -
  from assms(2) obtain m where m: "install_loop col w (sc_entities col) bt_empty = Ok m" and w': "creatures w' = m"
    by (auto simp: install_static_creatures_def mark_changed_def refresh_static_creature_occupancy_def split: if_splits)
  have "distinct (map se_id (sc_entities col))" using assms(1) by (simp add: spawns_wf_def Let_def)
  note at = install_loop_puts [OF m this]
  from at [OF assms(3)] at [OF assms(4)] assms(6,7) show ?thesis
    by (simp add: w' placed_runtime_def entity_position_def)
qed

definition twins :: spawn_collection where
  "twins = \<lparr>sc_entities = [sample_entity 7 ''rat'' (Position 103 100 7), sample_entity 8 ''rat'' (Position 103 100 7)],
     sc_respawn_intervals = bt_empty, sc_experience_rewards = bt_empty, sc_melee_intervals = bt_empty,
     sc_damage_ranges = bt_empty, sc_melee_conditions = bt_empty, sc_loot_tables = bt_empty,
     sc_npc_ids = bt_empty, sc_spawn_areas = bt_empty\<rparr>"

theorem overlapping_installation_witness:
  "\<exists>a b. bt_get (creatures (snd (install_static_creatures twins empty_world))) 7 = Some a \<and>
     bt_get (creatures (snd (install_static_creatures twins empty_world))) 8 = Some b \<and>
     cr_active a \<and> cr_active b \<and> entity_position a = entity_position b"
proof -
  have "with_loot_tables (sc_entities twins) bt_empty bt_empty bt_empty bt_empty bt_empty bt_empty = Ok twins"
  proof -
    have "map_sum id (\<lambda>_. ()) (with_loot_tables (sc_entities twins) bt_empty bt_empty bt_empty bt_empty bt_empty bt_empty) = Ok ()"
      by code_simp
    then show ?thesis by (auto simp: map_sum_Ok with_loot_tables_def twins_def split: if_splits)
  qed
  from with_loot_tables_wf [OF this] have wf: "spawns_wf twins" by simp
  have run: "install_static_creatures twins empty_world = (Ok (), snd (install_static_creatures twins empty_world))"
    by (rule result_eqI) code_simp
  from overlapping_installation [OF wf run, of "sample_entity 7 ''rat'' (Position 103 100 7)"
      "sample_entity 8 ''rat'' (Position 103 100 7)"]
  show ?thesis by (simp add: twins_def sample_entity_def unplaced_origin_def)
qed

section \<open>The policy\<close>

text \<open>
  C30. The clockwise policy always applies its whole plan: no planned step is refused, every active
  creature is either moved by its one step onto a walkable tile or left where it is and counted as
  skipped, and nobody else moves.
\<close>

theorem policy_applies_its_plan:
  assumes "creature_inv w"
  shows "\<exists>w'. apply_static_creature_policy Clockwise_Adjacent m w = (Ok (plan_static_creature_moves w Clockwise_Adjacent m), w') \<and>
    length (db_decisions (plan_static_creature_moves w Clockwise_Adjacent m)) +
      db_skipped (plan_static_creature_moves w Clockwise_Adjacent m) = active_static_creature_count w \<and>
    (\<forall>c rt. bt_get (creatures w) c = Some rt \<longrightarrow> (\<exists>rt'. bt_get (creatures w') c = Some rt' \<and>
       moved_by m (db_decisions (plan_static_creature_moves w Clockwise_Adjacent m)) c rt rt')) \<and>
    players w' = players w"
proof -
  from policy_carried_out [OF assms, of Clockwise_Adjacent m] obtain w' where
    a: "apply_static_creature_policy Clockwise_Adjacent m w = (Ok (plan_static_creature_moves w Clockwise_Adjacent m), w')"
    and carried: "carries_out m (entries (creatures w)) (db_decisions (plan_static_creature_moves w Clockwise_Adjacent m))
         (db_skipped (plan_static_creature_moves w Clockwise_Adjacent m)) w w'" by auto
  have "\<forall>c rt. bt_get (creatures w) c = Some rt \<longrightarrow> (\<exists>rt'. bt_get (creatures w') c = Some rt' \<and>
       moved_by m (db_decisions (plan_static_creature_moves w Clockwise_Adjacent m)) c rt rt')"
    using carried unfolding carries_out_def by (force simp flip: in_entries_iff)
  with a carried show ?thesis
    by (auto simp: carries_out_def active_static_creature_count_def bt_vals_def)
qed

theorem policy_applies_its_plan_witness:
  "\<exists>w'. apply_static_creature_policy Clockwise_Adjacent sample_map (sample_engine (prowl @ [World (Remove 3)])) =
    (Ok \<lparr>db_decisions = [(7, West)], db_skipped = 2\<rparr>, w')"
proof -
  have "plan_static_creature_moves (sample_engine (prowl @ [World (Remove 3)])) Clockwise_Adjacent sample_map =
      \<lparr>db_decisions = [(7, West)], db_skipped = 2\<rparr>" by code_simp
  with policy_applies_its_plan [of "sample_engine (prowl @ [World (Remove 3)])" sample_map] show ?thesis
    by (auto simp: sample_engine_inv)
qed

section \<open>The detour search\<close>

text \<open>
  C31. The detour search is exact within its budget: it finds no direction only when no way over free
  tiles that is short enough ends beside the target, and a direction it finds is the first step of a
  shortest such way.
\<close>

theorem detour_is_shortest:
  assumes "\<not> is_adjacent_to source target"
  shows "case static_creature_detour_direction w source target m budget of
      None \<Rightarrow> \<not> (\<exists>ds q. way (free_for w m source) source ds = Some q \<and> length ds \<le> budget \<and> is_adjacent_to q target)
    | Some d \<Rightarrow> \<exists>ds q. way (free_for w m source) source (d # ds) = Some q \<and> length (d # ds) \<le> budget \<and>
        is_adjacent_to q target \<and>
        \<not> (\<exists>es r. way (free_for w m source) source es = Some r \<and> is_adjacent_to r target \<and> length es < length (d # ds))"
proof (cases "static_creature_detour_direction w source target m budget")
  case None
  with detour_complete [OF _ assms] show ?thesis by (auto simp: static_creature_detour_direction_def)
next
  case (Some d)
  then have "detour (free_for w m source) source target budget = Some d"
    by (simp add: static_creature_detour_direction_def)
  from detour_shortest [OF this assms] obtain ds q where "way (free_for w m source) source (d # ds) = Some q"
    "is_adjacent_to q target" "length (d # ds) \<le> budget"
    "\<And>es r. way (free_for w m source) source es = Some r \<Longrightarrow> is_adjacent_to r target \<Longrightarrow> length (d # ds) \<le> length es"
    by blast
  then show ?thesis unfolding Some option.case by (metis not_le)
qed

theorem detour_is_shortest_witness:
  "\<not> (\<exists>ds q. way (free_for (sample_engine prowl) sample_map (Position 103 100 7)) (Position 103 100 7) ds = Some q \<and>
      length ds \<le> 6 \<and> is_adjacent_to q (Position 100 100 7))"
proof -
  have "static_creature_detour_direction (sample_engine prowl) (Position 103 100 7) (Position 100 100 7) sample_map 6 = None"
    by code_simp
  moreover have "\<not> is_adjacent_to (Position 103 100 7) (Position 100 100 7)" by code_simp
  ultimately show ?thesis
    using detour_is_shortest [of "Position 103 100 7" "Position 100 100 7" "sample_engine prowl" sample_map 6] by simp
qed

section \<open>Targets\<close>

lemma nearest_None: "nearest xs = None \<longleftrightarrow> xs = []"
  by (cases xs rule: nearest.cases) (auto split: option.split)

lemma nearest_least: "nearest xs = Some (d, p) \<Longrightarrow> (e, q) \<in> set xs \<Longrightarrow> d < e \<or> d = e \<and> p \<le> q"
proof (induction xs arbitrary: d p rule: nearest.induct)
  case (2 d' p' rest)
  then show ?case
    by (cases "nearest rest") (fastforce simp: nearest_None split: if_splits prod.splits)+
qed simp

lemma nearest_target_None:
  "nearest_target w q reach = None \<longleftrightarrow> \<not> (\<exists>p pl. bt_get (players w) p = Some pl \<and> targetable w q reach (p, pl))"
  by (auto simp: nearest_target_def nearest_None filter_empty_conv in_entries_iff)

lemma nearest_target_Some:
  assumes "nearest_target w q reach = Some p"
  obtains pl where "bt_get (players w) p = Some pl" and "targetable w q reach (p, pl)"
    and "\<And>r rl. bt_get (players w) r = Some rl \<Longrightarrow> targetable w q reach (r, rl) \<Longrightarrow>
      chebyshev (pl_position pl) q < chebyshev (pl_position rl) q \<or>
      chebyshev (pl_position pl) q = chebyshev (pl_position rl) q \<and> p \<le> r"
proof -
  let ?xs = "map (\<lambda>(p, pl). (chebyshev (pl_position pl) q, p)) (filter (targetable w q reach) (entries (players w)))"
  from assms obtain d where n: "nearest ?xs = Some (d, p)" by (auto simp: nearest_target_def)
  from nearest_in [OF n] obtain pl where pl: "bt_get (players w) p = Some pl" "targetable w q reach (p, pl)"
    "d = chebyshev (pl_position pl) q" by (auto simp: in_entries_iff)
  show thesis
  proof (rule that [OF pl(1,2)])
    fix r rl assume "bt_get (players w) r = Some rl" "targetable w q reach (r, rl)"
    then have "(chebyshev (pl_position rl) q, r) \<in> set ?xs" by (force simp: in_entries_iff)
    from nearest_least [OF n this] pl(3) show "chebyshev (pl_position pl) q < chebyshev (pl_position rl) q \<or>
      chebyshev (pl_position pl) q = chebyshev (pl_position rl) q \<and> p \<le> r" by simp
  qed
qed

text \<open>
  C32. The target a creature selects is the nearest living, visible and vulnerable player on its floor
  within range, the smallest identifier among equally near ones; it selects none only when there is no
  such player, and the selection is what the creature remembers.
\<close>

theorem selected_target_is_nearest:
  assumes "select_static_creature_target c reach w = (Ok sel, w')" and "bt_get (creatures w) c = Some rt"
    and "\<not> cr_is_npc rt"
  shows "static_creature_target w' c = Ok (sel_target sel) \<and>
    (case sel_target sel of
       None \<Rightarrow> \<not> (\<exists>p pl. bt_get (players w) p = Some pl \<and> targetable w (entity_position rt) reach (p, pl))
     | Some p \<Rightarrow> \<exists>pl. bt_get (players w) p = Some pl \<and> targetable w (entity_position rt) reach (p, pl) \<and>
         \<not> (\<exists>q ql. bt_get (players w) q = Some ql \<and> targetable w (entity_position rt) reach (q, ql) \<and>
           (chebyshev (pl_position ql) (entity_position rt) < chebyshev (pl_position pl) (entity_position rt) \<or>
            chebyshev (pl_position ql) (entity_position rt) = chebyshev (pl_position pl) (entity_position rt) \<and> q < p)))"
proof -
  let ?t = "nearest_target w (entity_position rt) reach"
  from assms have s: "sel_target sel = ?t" and "static_creature_target w' c = Ok ?t"
    by (auto simp: select_static_creature_target_def static_creature_target_def Let_def mark_changed_def
        put_creature_def creature_def split: if_splits)
  moreover have "case ?t of
       None \<Rightarrow> \<not> (\<exists>p pl. bt_get (players w) p = Some pl \<and> targetable w (entity_position rt) reach (p, pl))
     | Some p \<Rightarrow> \<exists>pl. bt_get (players w) p = Some pl \<and> targetable w (entity_position rt) reach (p, pl) \<and>
         \<not> (\<exists>q ql. bt_get (players w) q = Some ql \<and> targetable w (entity_position rt) reach (q, ql) \<and>
           (chebyshev (pl_position ql) (entity_position rt) < chebyshev (pl_position pl) (entity_position rt) \<or>
            chebyshev (pl_position ql) (entity_position rt) = chebyshev (pl_position pl) (entity_position rt) \<and> q < p))"
  proof (cases ?t)
    case (Some p)
    from nearest_target_Some [OF Some] obtain pl where pl: "bt_get (players w) p = Some pl"
      "targetable w (entity_position rt) reach (p, pl)"
      "\<And>r rl. bt_get (players w) r = Some rl \<Longrightarrow> targetable w (entity_position rt) reach (r, rl) \<Longrightarrow>
        chebyshev (pl_position pl) (entity_position rt) < chebyshev (pl_position rl) (entity_position rt) \<or>
        chebyshev (pl_position pl) (entity_position rt) = chebyshev (pl_position rl) (entity_position rt) \<and> p \<le> r"
      by blast
    show ?thesis unfolding Some option.case
      by (rule exI [of _ pl]) (use pl in \<open>fastforce\<close>)
  next
    case None
    then have n: "\<not> (\<exists>p pl. bt_get (players w) p = Some pl \<and> targetable w (entity_position rt) reach (p, pl))"
      by (simp only: nearest_target_None not_False_eq_True)
    show ?thesis unfolding None option.case by (rule n)
  qed
  ultimately show ?thesis by simp
qed

theorem selected_target_is_nearest_witness:
  "static_creature_target (snd (select_static_creature_target 7 3 (sample_engine prowl))) 7 = Ok (Some 3)"
proof -
  let ?w = "sample_engine prowl"
  have sel: "select_static_creature_target 7 3 ?w =
      (Ok \<lparr>sel_creature = 7, sel_target = Some 3, sel_range = 3\<rparr>, snd (select_static_creature_target 7 3 ?w))"
    by (rule result_eqI) code_simp
  have rat: "bt_get (creatures ?w) 7 = Some (placed_runtime den 0 (sample_entity 7 ''rat'' (Position 103 100 7)))"
    by code_simp
  have "\<not> cr_is_npc (placed_runtime den 0 (sample_entity 7 ''rat'' (Position 103 100 7)))" by code_simp
  from selected_target_is_nearest [OF sel rat this] show ?thesis by simp
qed

section \<open>Loot\<close>

definition drawn :: "nat \<times> nat \<Rightarrow> loot_entry \<Rightarrow> bool" where
  "drawn x e \<longleftrightarrow> fst x = le_item_id e \<and> le_min_count e \<le> snd x \<and> snd x \<le> le_max_count e"

lemma roll_entries_ok:
  "\<forall>e \<in> set es. loot_entry_ok e \<Longrightarrow>
     \<exists>items fs. roll_entries s es = Ok items \<and> subseq fs es \<and> list_all2 drawn items fs"
proof (induction es arbitrary: s)
  case (Cons e es)
  have IH: "\<exists>items fs. roll_entries s es = Ok items \<and> subseq fs es \<and> list_all2 drawn items fs" for s
    using Cons by simp
  show ?case
  proof (cases "draw (lcg s) mod loot_chance_scale < min (le_chance e) loot_chance_scale")
    case True
    have le: "le_min_count e \<le> le_max_count e" using Cons.prems by (simp add: loot_entry_ok_def)
    define n where "n = le_min_count e + draw (lcg (lcg s)) mod (le_max_count e - le_min_count e + 1)"
    have "draw (lcg (lcg s)) mod (le_max_count e - le_min_count e + 1) < le_max_count e - le_min_count e + 1"
      by (rule mod_less_divisor) simp
    then have n: "le_min_count e \<le> n" "n \<le> le_max_count e" using le unfolding n_def by linarith+
    from IH obtain items fs where r: "roll_entries (lcg (lcg s)) es = Ok items" "subseq fs es" "list_all2 drawn items fs"
      by blast
    have "roll_entries s (e # es) = Ok ((le_item_id e, if n \<le> u16_max then n else le_max_count e) # items)"
      using True le r(1) by (simp add: inclusive_span_def n_def Let_def)
    moreover have "drawn (le_item_id e, if n \<le> u16_max then n else le_max_count e) e"
      using n le by (simp add: drawn_def)
    moreover have "subseq (e # fs) (e # es)" using r(2) by simp
    ultimately show ?thesis using r(3) by (metis list.rel_inject(2))
  next
    case False
    from IH obtain items fs where r: "roll_entries (lcg s) es = Ok items" "subseq fs es" "list_all2 drawn items fs"
      by blast
    have "roll_entries s (e # es) = Ok items" using False r(1) by (simp add: Let_def)
    with r(2,3) show ?thesis by (metis list_emb_Cons)
  qed
qed simp

text \<open>
  C37. A loot roll of a well-formed world never panics and stays within the creature's table: the items
  rolled are a subsequence of the table's entries, each with a count between the bounds of its entry,
  whatever the seed.
\<close>

theorem loot_stays_within_the_table:
  assumes "world_wf w" and "bt_get (creatures w) c = Some rt"
  shows "\<exists>items es. roll_defeated_static_creature_loot w c seed = Ok \<lparr>lr_creature = c, lr_items = items\<rparr> \<and>
    subseq es (cr_loot rt) \<and> list_all2 drawn items es"
proof (cases "cr_is_npc rt \<or> cr_loot rt = []")
  case True
  then show ?thesis
    using assms(2) by (intro exI [of _ "[]"]) (simp add: roll_defeated_static_creature_loot_def creature_def)
next
  case False
  have "\<forall>e \<in> set (cr_loot rt). loot_entry_ok e"
    using creature_get_ok [OF assms] by (simp add: creature_ok_def)
  from roll_entries_ok [OF this] obtain items fs where
    "roll_entries (loot_seed c (entity_position rt) seed) (cr_loot rt) = Ok items" "subseq fs (cr_loot rt)"
    "list_all2 drawn items fs" by blast
  then show ?thesis
    using assms(2) False by (auto simp: roll_defeated_static_creature_loot_def creature_def)
qed

theorem loot_stays_within_the_table_witness:
  "\<exists>items es. roll_defeated_static_creature_loot (sample_engine prowl) 7 42 = Ok \<lparr>lr_creature = 7, lr_items = items\<rparr> \<and>
    subseq es (loot_table den 7) \<and> list_all2 drawn items es"
proof -
  have rat: "bt_get (creatures (sample_engine prowl)) 7 = Some (placed_runtime den 0 (sample_entity 7 ''rat'' (Position 103 100 7)))"
    by code_simp
  have "world_wf (sample_engine prowl)" using sample_engine_inv [of prowl] by (simp add: creature_inv_def)
  from loot_stays_within_the_table [OF this rat, of 42] show ?thesis
    by (simp add: placed_runtime_def sample_entity_def)
qed

section \<open>Attacks\<close>










section \<open>Reactivation\<close>

lemma reactivate_all_other:
  "i \<notin> fst ` set es \<Longrightarrow>
     bt_get (fst (reactivate_all now standing due guarded deferred es m st)) i = bt_get m i"
  by (induction es arbitrary: m st) (auto split: prod.splits)

lemma reactivate_one_tiles:
  assumes "reactivate_one now standing due guarded deferred a st = (a1, st1)"
  shows "bt_mem q (snd st) \<Longrightarrow> bt_mem q (snd st1)"
    and "bt_mem q (snd st1) \<Longrightarrow> bt_mem q (snd st) \<or> \<not> cr_active a \<and> due a \<and> cr_spawn_position a = q"
  using assms by (auto simp: reactivate_one_def Let_def split: prod.splits if_splits)

text \<open>A creature is treated once, with the tiles reserved for those treated before it.\<close>

lemma reactivate_all_get:
  assumes "(i, rt) \<in> set es" and "distinct (map fst es)"
  shows "\<exists>st'. bt_get (fst (reactivate_all now standing due guarded deferred es m st)) i =
        Some (fst (reactivate_one now standing due guarded deferred rt st')) \<and>
      (\<forall>q. bt_mem q (snd st) \<longrightarrow> bt_mem q (snd st')) \<and>
      (\<forall>q. bt_mem q (snd st') \<longrightarrow> bt_mem q (snd st) \<or>
         (\<exists>j a. (j, a) \<in> set es \<and> j \<noteq> i \<and> \<not> cr_active a \<and> due a \<and> cr_spawn_position a = q))"
  using assms
proof (induction es arbitrary: m st)
  case (Cons e es)
  obtain j a where e: "e = (j, a)" by (rule prod.exhaust)
  obtain a1 st1 where one: "reactivate_one now standing due guarded deferred a st = (a1, st1)" by (rule prod.exhaust)
  have d: "distinct (map fst es)" "j \<notin> fst ` set es" using Cons.prems(2) e by auto
  have step: "reactivate_all now standing due guarded deferred (e # es) m st =
      reactivate_all now standing due guarded deferred es (bt_insert j a1 m) st1"
    by (simp add: e one)
  show ?case
  proof (cases "i = j")
    case True
    with Cons.prems(1) d(2) e have "rt = a" by force
    with True d(2) one show ?thesis
      by (intro exI [of _ st]) (simp add: step reactivate_all_other)
  next
    case False
    with Cons.prems(1) e have "(i, rt) \<in> set es" by simp
    from Cons.IH [OF this d(1), of "bt_insert j a1 m" st1] obtain st' where st':
      "bt_get (fst (reactivate_all now standing due guarded deferred es (bt_insert j a1 m) st1)) i =
        Some (fst (reactivate_one now standing due guarded deferred rt st'))"
      "\<forall>q. bt_mem q (snd st1) \<longrightarrow> bt_mem q (snd st')"
      "\<forall>q. bt_mem q (snd st') \<longrightarrow> bt_mem q (snd st1) \<or>
         (\<exists>j a. (j, a) \<in> set es \<and> j \<noteq> i \<and> \<not> cr_active a \<and> due a \<and> cr_spawn_position a = q)" by blast
    have "\<forall>q. bt_mem q (snd st') \<longrightarrow> bt_mem q (snd st) \<or>
       (\<exists>k b. (k, b) \<in> set (e # es) \<and> k \<noteq> i \<and> \<not> cr_active b \<and> due b \<and> cr_spawn_position b = q)"
      using st'(3) reactivate_one_tiles(2) [OF one] False e by (metis list.set_intros(1,2))
    moreover have "\<forall>q. bt_mem q (snd st) \<longrightarrow> bt_mem q (snd st')"
      using st'(2) reactivate_one_tiles(1) [OF one] by blast
    ultimately show ?thesis using st'(1) unfolding step by blast
  qed
qed simp

text \<open>When a creature's turn has come, and when a player holds it back.\<close>

definition due_now :: "world_state \<Rightarrow> creature_runtime \<Rightarrow> bool" where
  "due_now w rt \<longleftrightarrow> \<not> cr_active rt \<and> (case cr_reactivation_due rt of None \<Rightarrow> False | Some t \<Rightarrow> t \<le> tick w)"

definition held_back :: "world_state \<Rightarrow> creature_runtime \<Rightarrow> bool" where
  "held_back w rt \<longleftrightarrow> is_player_occupied w (cr_spawn_position rt) \<or>
     (case cr_spawn_area rt of None \<Rightarrow> False
      | Some area \<Rightarrow> (\<exists>p pl. bt_get (players w) p = Some pl \<and> area_contains area (pl_position pl)))"

text \<open>
  C34. Who comes back when the due creatures are reactivated: a creature that is active or not due stays
  as it is; one held back by a player, or whose spawn tile an active creature holds, waits one more
  interval; any other comes back on its spawn tile with full health, unless another due creature claims
  the same tile, in which case one of the two outcomes.
\<close>

theorem due_creatures_come_back:
  assumes "world_wf w" and "bt_get (creatures w) c = Some rt"
  shows "\<exists>rt'. bt_get (creatures (snd (reactivate_due_static_creatures w))) c = Some rt' \<and>
    (let later = rt\<lparr>cr_reactivation_due := Some (sat_add u64_max (tick w) (cr_respawn_interval rt))\<rparr> in
     if \<not> due_now w rt then rt' = rt
     else if held_back w rt \<or> active_at (creatures w) (cr_spawn_position rt) then rt' = later
     else rt' = respawned (tick w) rt \<or> rt' = later \<and>
       (\<exists>d b. bt_get (creatures w) d = Some b \<and> d \<noteq> c \<and> due_now w b \<and> cr_spawn_position b = cr_spawn_position rt))"
proof -
  let ?due = "\<lambda>rt. case cr_reactivation_due rt of None \<Rightarrow> False | Some t \<Rightarrow> t \<le> tick w"
  let ?guarded = "\<lambda>rt. case cr_spawn_area rt of None \<Rightarrow> False
     | Some area \<Rightarrow> list_ex (area_contains area) (bt_keys (standing_tiles w))"
  let ?deferred = "\<lambda>rt. rt\<lparr>cr_reactivation_due := Some (sat_add u64_max (tick w) (cr_respawn_interval rt))\<rparr>"
  let ?st = "(\<lparr>re_reactivated = 0, re_deferred_by_player = 0, re_deferred_by_creature = 0\<rparr>, occupied w)"
  let ?m = "fst (reactivate_all (tick w) (standing_tiles w) ?due ?guarded ?deferred (entries (creatures w)) (creatures w) ?st)"
  have final: "creatures (snd (reactivate_due_static_creatures w)) = ?m"
    by (simp add: reactivate_due_static_creatures_def reactivation_pass_def split_beta Let_def mark_changed_def
        refresh_static_creature_occupancy_def)
  have "(c, rt) \<in> set (entries (creatures w))" using assms(2) by (simp add: in_entries_iff)
  from reactivate_all_get [OF this distinct_entries, of "tick w" "standing_tiles w" ?due ?guarded ?deferred "creatures w" ?st]
  obtain st' where m: "bt_get ?m c = Some (fst (reactivate_one (tick w) (standing_tiles w) ?due ?guarded ?deferred rt st'))"
    and low: "\<forall>q. bt_mem q (occupied w) \<longrightarrow> bt_mem q (snd st')"
    and high: "\<forall>q. bt_mem q (snd st') \<longrightarrow> bt_mem q (occupied w) \<or>
      (\<exists>d b. bt_get (creatures w) d = Some b \<and> d \<noteq> c \<and> due_now w b \<and> cr_spawn_position b = q)"
    by (auto simp: in_entries_iff due_now_def)
  have occ: "bt_mem q (occupied w) \<longleftrightarrow> active_at (creatures w) q" for q
    using world_creatures(2) [OF assms(1)] by (simp add: occupancy_wf_def)
  have stands: "q \<in> set (bt_keys (standing_tiles w)) \<longleftrightarrow> is_player_occupied w q" for q
    by (simp only: set_bt_keys bt_mem_iff [symmetric] standing_tiles_mem)
  have inside: "list_ex P (bt_keys (standing_tiles w)) \<longleftrightarrow> (\<exists>p pl. bt_get (players w) p = Some pl \<and> P (pl_position pl))" for P
    unfolding list_ex_iff Bex_def stands occupied_iff by blast
  have held: "bt_mem (cr_spawn_position rt) (standing_tiles w) \<or> ?guarded rt \<longleftrightarrow> held_back w rt"
    by (simp add: held_back_def standing_tiles_mem inside cong: option.case_cong)
  obtain s tiles where st: "st' = (s, tiles)" by (rule prod.exhaust)
  show ?thesis
    unfolding final m using low high occ held
    by (auto simp: reactivate_one_def due_now_def st Let_def)
qed

theorem due_creatures_come_back_witness:
  "\<exists>rt. bt_get (creatures (snd (reactivate_due_static_creatures (sample_engine (prowl @ [Creature (Defeat 7), World (Advance 60)]))))) 7 =
     Some (respawned 60 rt)"
proof -
  let ?w = "sample_engine (prowl @ [Creature (Defeat 7), World (Advance 60)])"
  let ?rt = "(placed_runtime den 0 (sample_entity 7 ''rat'' (Position 103 100 7)))
    \<lparr>cr_active := False, cr_target := None, cr_inactive_since := Some 0, cr_reactivation_due := Some 60\<rparr>"
  have rat: "bt_get (creatures ?w) 7 = Some ?rt" by code_simp
  have inv: "world_wf ?w" using sample_engine_inv [of "prowl @ [Creature (Defeat 7), World (Advance 60)]"]
    by (simp add: creature_inv_def)
  have now: "tick ?w = 60" by code_simp
  have entries: "entries (creatures ?w) = [(7, ?rt), (8, placed_runtime den 0 (sample_entity 8 ''snake'' (Position 103 104 7))),
      (9, placed_runtime den 0 (sample_entity 9 ''Merchant'' (Position 103 106 7)))]" by code_simp
  have "\<not> bt_mem (Position 103 100 7) (occupied ?w)" by code_simp
  then have free: "\<not> active_at (creatures ?w) (cr_spawn_position ?rt)"
    using world_creatures(2) [OF inv] by (simp add: occupancy_wf_def placed_runtime_def sample_entity_def)
  have "\<not> is_player_occupied ?w (Position 103 100 7)" by code_simp
  then have held: "\<not> held_back ?w ?rt"
    by (simp add: held_back_def placed_runtime_def sample_entity_def den_def monster_spawn_area_def)
  have lone: "\<not> (\<exists>d b. bt_get (creatures ?w) d = Some b \<and> d \<noteq> 7 \<and> due_now ?w b \<and> cr_spawn_position b = cr_spawn_position ?rt)"
    by (auto simp: entries due_now_def placed_runtime_def sample_entity_def unplaced_origin_def simp flip: in_entries_iff)
  have due: "due_now ?w ?rt" by (simp add: due_now_def now)
  show ?thesis
    using due_creatures_come_back [OF inv rat] due held free lone unfolding now Let_def by auto
qed

section \<open>Restarts\<close>


text \<open>
  C36. The engine refuses its own snapshot of a defeated creature with a melee cooldown: the snapshot
  writes a remaining cooldown that the restore rejects on an inactive record, and nothing is restored.
\<close>

theorem own_snapshot_of_a_defeated_creature_is_refused:
  assumes "creature_inv w" and "timely w" and "boots w w0"
    and "bt_get (creatures w) c = Some rt" and "persisted rt" and "\<not> cr_active rt" and "cr_melee_cooldown rt \<noteq> None"
  shows "\<exists>e. restore_static_creature_runtime (static_creature_runtime_snapshot w) w0 = (Inl e, w0)"
  using restart_refused [OF assms] by metis

definition den_runtime :: "nat \<Rightarrow> creature_runtime" where
  "den_runtime c = placed_runtime den 0 (if c = 7 then sample_entity 7 ''rat'' (Position 103 100 7)
     else if c = 8 then sample_entity 8 ''snake'' (Position 103 104 7) else sample_entity 9 ''Merchant'' (Position 103 106 7))"

definition nest :: world_state where
  "nest = sample_engine [Creature (Install den)]"

lemma nest_entries: "entries (creatures nest) = map (\<lambda>c. (c, den_runtime c)) [7, 8, 9]"
  by code_simp

lemma nest_get: "bt_get (creatures nest) c = Some rt \<longleftrightarrow> c \<in> {7, 8, 9} \<and> rt = den_runtime c"
  unfolding in_entries_iff [symmetric] nest_entries by auto

lemma den_runtime_facts:
  "c \<in> {7, 8, 9} \<Longrightarrow> entity_position (den_runtime c) \<noteq> unplaced_origin \<and> cr_active (den_runtime c) \<and>
     cr_next_melee_due (den_runtime c) = 0 \<and> cr_reactivation_due (den_runtime c) = None"
  "cr_melee_cooldown (den_runtime 7) = Some 2" "0 < cr_respawn_interval (den_runtime 7)"
  by (auto simp: den_runtime_def placed_runtime_def sample_entity_def entity_position_def unplaced_origin_def den_def
      respawn_interval_seconds_def bt_get_of_list)

lemma nest_boots:
  assumes "entries (creatures w) = map (\<lambda>c. (c, f c)) [7, 8, 9]"
    and "\<And>c. entity_position (f c) = entity_position (den_runtime c) \<and> cr_respawn_interval (f c) = cr_respawn_interval (den_runtime c) \<and>
      cr_melee_cooldown (f c) = cr_melee_cooldown (den_runtime c)"
  shows "boots w nest"
proof -
  have get: "bt_get (creatures w) c = Some rt \<longleftrightarrow> c \<in> {7, 8, 9} \<and> rt = f c" for c rt
    unfolding in_entries_iff [symmetric] assms(1) by auto
  have "players nest = bt_empty" by code_simp
  then have nobody: "\<not> is_player_occupied nest q" for q by (simp add: occupied_iff)
  have "tick nest = 0" by code_simp
  with nobody get assms(2) den_runtime_facts(1) show ?thesis
    unfolding boots_def nest_get persisted_def by (intro conjI) (simp, simp, metis, metis)
qed


theorem own_snapshot_of_a_defeated_creature_is_refused_witness:
  "\<exists>e. restore_static_creature_runtime (static_creature_runtime_snapshot (snd (exec_creature id sample_map (Defeat 7) nest))) nest =
     (Inl e, nest)"
proof -
  define w where "w = snd (exec_creature id sample_map (Defeat 7) nest)"
  let ?f = "\<lambda>c. if c = 7 then (den_runtime 7)\<lparr>cr_active := False, cr_target := None, cr_inactive_since := Some 0,
    cr_reactivation_due := Some 60\<rparr> else den_runtime c"
  have entries: "entries (creatures w) = map (\<lambda>c. (c, ?f c)) [7, 8, 9]" unfolding w_def by code_simp
  have get: "bt_get (creatures w) c = Some rt \<longleftrightarrow> c \<in> {7, 8, 9} \<and> rt = ?f c" for c rt
    unfolding in_entries_iff [symmetric] entries by auto
  have inv: "creature_inv w"
    using sample_engine_inv [of "[Creature (Install den), Creature (Defeat 7)]"] den_apart den_wf by (simp add: nest_def w_def)
  have "cr_respawn_interval (den_runtime 7) = 60" by code_simp
  then have timely: "timely w" using den_runtime_facts(1) by (auto simp: timely_def get)
  have boots: "boots w nest" by (rule nest_boots [OF entries]) (simp add: entity_position_def)
  have rat: "bt_get (creatures w) 7 = Some (?f 7)" by (simp add: get)
  have "persisted (?f 7)" "\<not> cr_active (?f 7)" "cr_melee_cooldown (?f 7) \<noteq> None"
    using den_runtime_facts by (simp_all add: persisted_def entity_position_def)
  from own_snapshot_of_a_defeated_creature_is_refused [OF inv timely boots rat this] show ?thesis unfolding w_def .
qed

end
