(* ===== verification/Command_Batch.thy ===== *)
theory Command_Batch
  imports Prelude "HOL-Library.Multiset"
begin

text \<open>
  The bounded batch of commands awaiting one authoritative tick
  (\<open>DeterministicWorldCommandBatch\<close> of \<open>crates/forgotten-core/src/lib.rs\<close>): commands with unique keys
  are accepted up to a limit and leave in key order. The lemmas show that the order of arrival cannot
  be observed.
\<close>

section \<open>Keys\<close>

datatype command_key = Command_Key (ck_tick: nat) (ck_player: nat) (ck_sequence: nat)

text \<open>The derived order: lexicographic over the fields.\<close>

instantiation command_key :: linorder
begin

definition less_eq_command_key :: "command_key \<Rightarrow> command_key \<Rightarrow> bool" where
  "k \<le> l \<longleftrightarrow> ck_tick k < ck_tick l \<or> ck_tick k = ck_tick l \<and>
     (ck_player k < ck_player l \<or> ck_player k = ck_player l \<and> ck_sequence k \<le> ck_sequence l)"

definition less_command_key :: "command_key \<Rightarrow> command_key \<Rightarrow> bool" where
  "less_command_key k l \<longleftrightarrow> k \<le> l \<and> \<not> l \<le> k"

instance
  by standard (auto simp: less_eq_command_key_def less_command_key_def intro: command_key.expand)

end

section \<open>The batch\<close>

abbreviation max_deterministic_command_batch :: nat where "max_deterministic_command_batch \<equiv> 4096"

record 'a queued_command =
  qc_key :: command_key
  qc_payload :: 'a

datatype batch_error = InvalidLimit nat | CapacityExceeded nat | DuplicateKey command_key

record 'a command_batch =
  ba_limit :: nat
  ba_commands :: "'a queued_command list"

definition batch_new :: "nat \<Rightarrow> batch_error + 'a command_batch" where
  "batch_new limit =
     (if limit = 0 \<or> limit > max_deterministic_command_batch then Inl (InvalidLimit limit)
      else Inr \<lparr>ba_limit = limit, ba_commands = []\<rparr>)"

definition push :: "'a queued_command \<Rightarrow> 'a command_batch \<Rightarrow> (batch_error + unit) \<times> 'a command_batch" where
  "push c b =
     (if list_ex (\<lambda>existing. qc_key existing = qc_key c) (ba_commands b)
      then (Inl (DuplicateKey (qc_key c)), b)
      else if length (ba_commands b) \<ge> ba_limit b then (Inl (CapacityExceeded (ba_limit b)), b)
      else (Inr (), b\<lparr>ba_commands := ba_commands b @ [c]\<rparr>))"

definition drain_sorted :: "'a command_batch \<Rightarrow> 'a queued_command list \<times> 'a command_batch" where
  "drain_sorted b = (sort_key qc_key (ba_commands b), b\<lparr>ba_commands := []\<rparr>)"

section \<open>Lemmas\<close>

definition batch_wf :: "'a command_batch \<Rightarrow> bool" where
  "batch_wf b \<longleftrightarrow> 0 < ba_limit b \<and> ba_limit b \<le> max_deterministic_command_batch \<and>
     length (ba_commands b) \<le> ba_limit b \<and> distinct (map qc_key (ba_commands b))"

lemma batch_new_wf: "batch_new limit = Inr b \<Longrightarrow> batch_wf b \<and> ba_commands b = [] \<and> ba_limit b = limit"
  by (auto simp: batch_new_def batch_wf_def split: if_splits)

lemma key_taken: "list_ex (\<lambda>existing. qc_key existing = qc_key c) cs \<longleftrightarrow> qc_key c \<in> qc_key ` set cs"
  by (auto simp: list_ex_iff image_iff) metis

lemma push_wf: "batch_wf b \<Longrightarrow> batch_wf (snd (push c b))"
  by (auto simp: batch_wf_def push_def key_taken)

interpretation batch: atomic_machine push batch_wf "\<lambda>_. True"
proof
  show "batch_wf (snd (push c b))" if "batch_wf b" for c :: "'a queued_command" and b using that by (rule push_wf)
  show "b' = b" if "push c b = (Inl e, b')" for c :: "'a queued_command" and b b' e
    using that by (auto simp: push_def split: if_splits)
qed

lemma push_run:
  assumes "distinct (map qc_key (ba_commands b @ cs))" and "length (ba_commands b @ cs) \<le> ba_limit b"
  shows "run_cmds push cs b = b\<lparr>ba_commands := ba_commands b @ cs\<rparr>"
  using assms
proof (induction cs arbitrary: b)
  case (Cons c cs)
  have "push c b = (Inr (), b\<lparr>ba_commands := ba_commands b @ [c]\<rparr>)"
    using Cons.prems by (auto simp: push_def key_taken)
  with Cons.IH [of "b\<lparr>ba_commands := ba_commands b @ [c]\<rparr>"] Cons.prems show ?case by simp
qed simp

text \<open>Commands with distinct keys have one order by key.\<close>

lemma distinct_sort_key: "distinct (map f (sort_key f cs)) \<longleftrightarrow> distinct (map f cs)"
  by (metis mset_eq_imp_distinct_iff mset_map mset_sort)

lemma sort_key_unique:
  assumes "mset cs = mset ds" and "distinct (map qc_key cs)"
  shows "sort_key qc_key cs = sort_key qc_key ds"
proof (rule map_inj_on)
  have set: "set cs = set ds" by (metis assms(1) set_mset_mset)
  have "distinct (map qc_key ds)" using assms by (metis mset_eq_imp_distinct_iff mset_map)
  with assms(2) set show "map qc_key (sort_key qc_key cs) = map qc_key (sort_key qc_key ds)"
    by (intro sorted_distinct_set_unique) (simp_all add: distinct_sort_key)
  show "inj_on qc_key (set (sort_key qc_key cs) \<union> set (sort_key qc_key ds))"
    using assms(2) set by (simp add: distinct_map)
qed

text \<open>What a run of submissions leaves is a selection of what was submitted, with ascending keys.\<close>

lemma drain_strictly_sorted:
  assumes "batch_wf b"
  shows "sorted_wrt (<) (map qc_key (fst (drain_sorted b)))"
  using assms by (simp add: drain_sorted_def batch_wf_def strict_sorted_iff distinct_sort_key)

lemma run_push_subset: "set (ba_commands (run_cmds push cs b)) \<subseteq> set (ba_commands b) \<union> set cs"
proof (induction cs arbitrary: b)
  case (Cons c cs)
  have "set (ba_commands (snd (push c b))) \<subseteq> insert c (set (ba_commands b))" by (auto simp: push_def)
  with Cons.IH [of "snd (push c b)"] show ?case by auto
qed simp

end
