(* ===== verification/Trade_Frame.thy ===== *)
theory Trade_Frame
  imports Engine
begin

text \<open>
  Who writes the table of trades: only the six operations of \<open>world_trade.rs\<close>. Every other command of the
  engine leaves it alone, so a property of the sessions that the trade operations keep holds over every
  run of the whole engine. It is used for the acceptance of an initiator, which only an acceptance of
  its own can set.
\<close>

section \<open>Commands on players\<close>

lemma mark_trades [simp]: "trades (mark_changed w) = trades w"
  by (simp add: mark_changed_def)

lemma clear_references_trades [simp]: "trades (clear_player_interaction_references p w) = trades w"
  by (simp add: clear_player_interaction_references_def)

lemma commits_trades [simp]:
  "trades (commit p eq cs w) = trades w" "trades (commit_equipment p eq w) = trades w"
  "trades (commit_containers p cs w) = trades w" "trades (with_inventories w m) = trades w"
  by (simp_all add: commit_def commit_equipment_def commit_containers_def with_inventories_def)

lemma if_trades [simp]: "trades (if b then x else y) = (if b then trades x else trades y)"
  by simp

text \<open>\<open>T\<close> is the table the operation starts from.\<close>

definition trades_are :: "(nat, trade_session) btmap \<Rightarrow> world_state \<Rightarrow> bool" where
  "trades_are T w \<longleftrightarrow> trades w = T"

lemma keeps_trades: "keeps (trades_are (trades w)) r \<Longrightarrow> trades (snd r) = trades w"
  by (simp add: keeps_def trades_are_def)

lemma tables_trades:
  "trades (snd (replace_player_fight_mode_state p fm w)) = trades w"
  "trades (snd (replace_player_combat_defense p df w)) = trades w"
  "trades (snd (replace_player_progression_attempts p att w)) = trades w"
  "trades (snd (replace_player_equipment p eq w)) = trades w"
  "trades (snd (replace_player_containers p cs w)) = trades w"
  "trades (snd (replace_player_containers_quiet p cs w)) = trades w"
  "trades (snd (update_player_vitals p v w)) = trades w"
  "trades (snd (grant_player_food_window p n w)) = trades w"
  "trades (snd (set_player_god_mode p b w)) = trades w"
  "trades (snd (set_player_invisible p b w)) = trades w"
  "trades (snd (replace_player_progression p pr w)) = trades w"
  "trades (snd (replace_player_conditions p cd w)) = trades w"
  "trades (snd (apply_player_condition p c w)) = trades w"
  "trades (snd (apply_player_speed_condition p b' r w)) = trades w"
  "trades (snd (replace_player_town p t w)) = trades w"
  "trades (snd (hydrate_player_respawn_state p st w)) = trades w"
  unfolding replace_player_fight_mode_state_def replace_player_combat_defense_def
    replace_player_progression_attempts_def replace_player_equipment_def replace_player_containers_def
    replace_player_containers_quiet_def update_player_vitals_def grant_player_food_window_def
    set_player_god_mode_def set_player_invisible_def replace_player_progression_def
    replace_player_conditions_def apply_player_condition_def apply_player_speed_condition_def
    replace_player_town_def hydrate_player_respawn_state_def Let_def
  by (rule keeps_trades, intro keeps_intros; simp add: trades_are_def)+

lemma growth_trades:
  "trades (snd (apply_player_regeneration p rr e w)) = trades w"
  "trades (snd (apply_player_skill_tries fs p s n rules w)) = trades w"
  "trades (snd (apply_player_magic_mana fs p n rules w)) = trades w"
  "trades (snd (apply_player_conditions p e w)) = trades w"
  "trades (snd (apply_player_death p t m w)) = trades w"
  "trades (snd (apply_player_spell_cast_event ev w)) = trades w"
  "trades (snd (apply_fixed_percent_death_loss fs p k rules w)) = trades w"
  "trades (snd (award_player_experience_with_vocation_gains p raw pol g w)) = trades w"
  "trades (snd (set_player_interaction p t' f b w)) = trades w"
  "trades (snd (set_player_static_target p c w)) = trades w"
  unfolding apply_player_regeneration_def apply_player_skill_tries_def apply_player_magic_mana_def
    apply_player_conditions_def apply_player_death_def apply_player_spell_cast_event_def
    apply_fixed_percent_death_loss_def award_player_experience_with_vocation_gains_def
    set_player_interaction_def set_player_static_target_def store_intent_def Let_def
  by (rule keeps_trades, intro keeps_intros; simp add: trades_are_def)+

lemma steps_trades:
  "trades (snd (move_player p q w)) = trades w"
  "trades (snd (teleport_player p q w)) = trades w"
  "trades (snd (respawn_player p w)) = trades w"
  "trades (snd (add_player_with_vitals_and_progression pl v pr w)) = trades w"
  "trades (snd (apply_damage_to_known_target t n w)) = trades w"
  unfolding move_player_def teleport_player_def respawn_player_def add_player_with_vitals_and_progression_def
    apply_damage_to_known_target_def Let_def
  by (rule keeps_trades, intro keeps_intros; simp add: trades_are_def)+

lemmas simple_trades = tables_trades growth_trades steps_trades

text \<open>Operations that call these.\<close>

lemma calls_trades:
  "trades (snd (apply_player_damage a t n w)) = trades w"
  "trades (snd (apply_player_combat_event ev w)) = trades w"
  "trades (snd (apply_player_conditions_with_death p t' m e w)) = trades w"
  "trades (snd (move_player_cardinal p d w)) = trades w"
  "trades (snd (remove_player p w)) = trades w"
  unfolding apply_player_damage_def apply_player_combat_event_def apply_player_conditions_with_death_def
    move_player_cardinal_def remove_player_def drop_tables_def Let_def
  by (rule keeps_trades, intro keeps_intros; simp add: trades_are_def keeps_def simple_trades clear_party_flags)+

lemma melee_trades: "trades (snd (apply_player_melee_damage a t n w)) = trades w"
  unfolding apply_player_melee_damage_def
  by (rule keeps_trades, intro keeps_intros; simp add: trades_are_def keeps_def calls_trades)

lemma try_directions_trades: "keeps (trades_are (trades w)) (try_directions m p source ds w)"
proof (induction ds)
  case (Cons d ds)
  then show ?case
    by (simp only: try_directions.simps) (intro keeps_intros; simp add: keeps_def trades_are_def calls_trades)
qed (simp add: keeps_def trades_are_def)

lemma follow_turn_trades: "keeps (trades_are (trades w)) (follow_turn m p w)"
  unfolding follow_turn_def
  by (intro keeps_intros try_directions_trades) (simp_all add: trades_are_def)

lemma follow_loop_trades: "trades_are T w \<Longrightarrow> keeps (trades_are T) (follow_loop m ps moved w)"
proof (induction ps arbitrary: moved w)
  case (Cons p ps)
  from follow_turn_trades [of w m p] Cons.prems have "keeps (trades_are T) (follow_turn m p w)"
    by (simp add: trades_are_def)
  then show ?case by (simp only: follow_loop.simps) (intro keeps_intros Cons.IH; simp)
qed (simp add: keeps_def)

lemma follow_pass_trades: "trades (snd (follow_player_targets_once m w)) = trades w"
  unfolding follow_player_targets_once_def
  by (rule keeps_trades, rule follow_loop_trades) (simp add: trades_are_def)

lemma party_trades: "trades (snd (exec_party c w)) = trades w"
proof -
  have "strip_party (snd (exec_party c w)) = strip_party w"
    by (cases c)
      (auto simp: party_op_defs Let_def attempt_def set_party_shared_experience_requested_def
        split: sum.split option.split)
  from arg_cong [OF this, of trades] show ?thesis by (simp add: strip_party_def)
qed

lemma transfers_trades:
  "trades (snd (move_equipment_item_to_container p slot cid w)) = trades w"
  "trades (snd (move_container_item_to_equipment p cid i slot w)) = trades w"
  "trades (snd (move_content_item_to_equipment p cid i j slot w)) = trades w"
  "trades (snd (move_content_item_to_container p cid i j to w)) = trades w"
  "trades (snd (swap_container_item_with_equipment p cid i slot w)) = trades w"
  "trades (snd (swap_equipment_items p a b w)) = trades w"
  "trades (snd (consume_player_equipment_item_unit p slot w)) = trades w"
  "trades (snd (consume_player_container_item_unit p cid i w)) = trades w"
  "trades (snd (move_equipment_stack_to_container p slot cid n w)) = trades w"
  "trades (snd (move_container_stack_to_equipment p cid i slot n w)) = trades w"
  "trades (snd (move_container_stack_to_container p cid i to n w)) = trades w"
  "trades (snd (take_player_stack_for_ground_drop p src n w)) = trades w"
  unfolding move_equipment_item_to_container_def move_container_item_to_equipment_def
    move_content_item_to_equipment_def move_content_item_to_container_def swap_container_item_with_equipment_def
    swap_equipment_items_def consume_player_equipment_item_unit_def consume_player_container_item_unit_def
    move_equipment_stack_to_container_def move_container_stack_to_equipment_def
    move_container_stack_to_container_def take_player_stack_for_ground_drop_def Let_def
  by (rule keeps_trades, intro keeps_intros; simp add: trades_are_def split: drop_source.split)+

lemma items_trades: "trades (snd (exec_item p c w)) = trades w"
  by (cases c)
    (auto simp: transfers_trades execute_generic_inventory_move_def attempt_def Let_def
      split: sum.split option.split prod.split)

fun trade_step :: "engine_command \<Rightarrow> bool" where
  "trade_step (World (Trade_Step c)) \<longleftrightarrow> True"
| "trade_step c \<longleftrightarrow> False"

lemma exec_world_trades: "\<not> trade_step (World c) \<Longrightarrow> trades (snd (exec_world fs m c w)) = trades w"
  by (cases c)
    (simp_all add: simple_trades calls_trades melee_trades follow_pass_trades party_trades items_trades
      set_player_target_def set_player_follow_def advance_ticks_def Let_def)

section \<open>Commands on creatures\<close>

lemma creature_writes_trades [simp]:
  "trades (put_creature c rt w) = trades w" "trades (refresh_static_creature_occupancy w) = trades w"
  "trades (rearm c n w) = trades w"
  by (simp_all add: put_creature_def refresh_static_creature_occupancy_def rearm_def split: option.split)

lemma lives_trades:
  "trades (snd (install_static_creatures col w)) = trades w"
  "trades (snd (spawn_dynamic_entity lower name q d w)) = trades w"
  "trades (snd (despawn_dynamic_entity c w)) = trades w"
  "trades (snd (set_static_creature_health_percent c h w)) = trades w"
  "trades (snd (deactivate_static_creature c w)) = trades w"
  "trades (snd (restore_static_creature_runtime rs w)) = trades w"
  "trades (snd (clear_static_creature_target c w)) = trades w"
  "trades (snd (move_static_creature_cardinal c d' m w)) = trades w"
  unfolding install_static_creatures_def spawn_dynamic_entity_def despawn_dynamic_entity_def
    set_static_creature_health_percent_def deactivate_static_creature_def restore_static_creature_runtime_def
    clear_static_creature_target_def move_static_creature_cardinal_def Let_def
  by (rule keeps_trades, intro keeps_intros; simp add: trades_are_def)+

lemma passes_trades:
  "trades (snd (reset_static_creatures w)) = trades w"
  "trades (snd (reactivate_due_static_creatures w)) = trades w"
  "trades (snd (record_player_frag p w)) = trades w"
  by (simp_all add: reset_static_creatures_def reactivate_due_static_creatures_def reactivation_pass_def
      record_player_frag_def Let_def split_beta)

lemma seeks_trades:
  "trades (snd (apply_static_creature_melee_damage a c n w)) = trades w"
  "trades (snd (select_static_creature_target c reach w)) = trades w"
  unfolding apply_static_creature_melee_damage_def select_static_creature_target_def Let_def
  by (rule keeps_trades, intro keeps_intros; simp add: trades_are_def keeps_def lives_trades)+

lemma strike_trades: "trades w = T \<Longrightarrow> keeps (trades_are T) (strike_target c p n cooldown m w)"
  unfolding strike_target_def Let_def
  by (intro keeps_intros; simp add: trades_are_def keeps_def simple_trades lives_trades)

lemma attack_trades: "trades (snd (apply_static_creature_target_damage c fallback m w)) = trades w"
  unfolding apply_static_creature_target_damage_def
  by (rule keeps_trades, intro keeps_intros strike_trades; simp add: trades_are_def keeps_def lives_trades)

lemma try_direct_trades: "keeps (trades_are (trades w)) (try_direct c p source ds m w)"
proof (induction ds)
  case (Cons d ds)
  then show ?case
    by (simp only: try_direct.simps) (intro keeps_intros; simp add: keeps_def trades_are_def lives_trades)
qed (simp add: keeps_def trades_are_def)

lemma chase_trades: "trades (snd (step_static_creature_toward_target_with_detour c m budget w)) = trades w"
  unfolding step_static_creature_toward_target_with_detour_def Let_def
  by (rule keeps_trades, intro keeps_intros try_direct_trades; simp add: trades_are_def keeps_def lives_trades)

lemma apply_decisions_trades: "trades (snd (apply_decisions m ds w)) = trades w"
proof (induction ds arbitrary: w)
  case (Cons x ds)
  obtain c d where x: "x = (c, d)" by (rule prod.exhaust)
  obtain r w1 where r: "move_static_creature_cardinal c d m w = (r, w1)" by (rule prod.exhaust)
  from lives_trades(8) [of c d m w] r have "trades w1 = trades w" by simp
  with Cons.IH [of w1] x r show ?case by (cases r) auto
qed simp

lemma policy_trades: "trades (snd (apply_static_creature_policy policy m w)) = trades w"
  unfolding apply_static_creature_policy_def Let_def
  by (rule keeps_trades, intro keeps_intros; simp add: trades_are_def keeps_def apply_decisions_trades)

lemma exec_creature_trades: "trades (snd (exec_creature lower m c w)) = trades w"
  by (cases c) (simp_all add: lives_trades passes_trades seeks_trades attack_trades chase_trades policy_trades)

lemma exec_engine_trades: "\<not> trade_step c \<Longrightarrow> trades (snd (exec_engine fs lower m c w)) = trades w"
  by (cases c) (simp_all add: exec_world_trades exec_creature_trades)

section \<open>An acceptance is the initiator's own\<close>

text \<open>The sessions are well formed and the one that \<open>k\<close> opened, if there is one, is not accepted by \<open>k\<close>.\<close>

definition awaits :: "nat \<Rightarrow> world_state \<Rightarrow> bool" where
  "awaits k w \<longleftrightarrow> trades_wf w \<and> (\<forall>s. bt_get (trades w) k = Some s \<longrightarrow> \<not> ts_initiator_accepted s)"

lemma awaits_cong: "trades w' = trades w \<Longrightarrow> awaits k w' = awaits k w"
  by (simp add: awaits_def trades_wf_def)

lemma awaits_store: "awaits k w \<Longrightarrow> session_ok j s \<Longrightarrow> (j = k \<Longrightarrow> \<not> ts_initiator_accepted s) \<Longrightarrow> awaits k (store_trade j s w)"
  using store_trade_wf [of w j s] by (auto simp: awaits_def) (auto simp: store_trade_def bt_get_insert split: if_splits)

lemma exec_trade_awaits:
  assumes "awaits k w" and "c \<noteq> Accept k"
  shows "awaits k (snd (exec_trade c w))"
proof -
  have wf: "trades_wf (snd (exec_trade c w))" using assms(1) exec_trade_sessions by (simp add: awaits_def)
  have "\<not> ts_initiator_accepted s" if g: "bt_get (trades (snd (exec_trade c w))) k = Some s" for s
  proof (cases c)
    case (Accept p)
    show ?thesis
    proof (cases "active_trade_entry p w")
      case (Inr e)
      obtain j s0 where e: "e = (j, s0)" by (rule prod.exhaust)
      with Inr active_trade_entry_Ok [of w p j s0] assms(1) have
        "bt_get (trades w) j = Some s0" "ts_initiator s0 = j" by (auto simp: awaits_def session_ok_def)
      with g assms Accept Inr e show ?thesis
        by (auto simp: awaits_def accept_player_trade_def store_trade_def bt_get_insert Let_def split: if_splits)
    qed (use g assms(1) Accept in \<open>simp add: awaits_def accept_player_trade_def\<close>)
  next
    case (Stage p r)
    with g assms(1) show ?thesis
      by (auto simp: awaits_def stage_trade_item_def store_trade_def bt_get_insert change_offer_def attempt_def
          split: if_splits sum.splits)
  next
    case (Unstage p r)
    with g assms(1) show ?thesis
      by (auto simp: awaits_def unstage_trade_item_def store_trade_def bt_get_insert change_offer_def attempt_def
          split: if_splits sum.splits option.splits)
  next
    case (Open_Trade a b)
    with g assms(1) show ?thesis
      by (auto simp: awaits_def open_player_trade_def bt_get_insert attempt_def Let_def split: if_splits sum.splits)
  next
    case (Cancel p)
    with g assms(1) show ?thesis
      by (auto simp: awaits_def cancel_player_trade_def bt_get_remove Let_def split: if_splits option.splits)
  next
    case (Execute p)
    obtain r w' where x: "execute_player_trade p w = (r, w')" by (rule prod.exhaust)
    with g Execute have "bt_get (trades w') k = Some s" by simp
    with x assms(1) show ?thesis
      by (cases rule: execute_player_trade_cases)
        (auto simp: awaits_def bt_get_remove split: if_splits sum.splits)
  qed
  with wf show ?thesis by (simp add: awaits_def)
qed

fun not_accepted_by :: "nat \<Rightarrow> engine_command \<Rightarrow> bool" where
  "not_accepted_by k (World (Trade_Step (Accept p))) \<longleftrightarrow> p \<noteq> k"
| "not_accepted_by k c \<longleftrightarrow> True"

lemma exec_engine_awaits:
  assumes "not_accepted_by k c" and "awaits k w"
  shows "awaits k (snd (exec_engine fs lower m c w))"
proof (cases "trade_step c")
  case True
  then obtain d where c: "c = World (Trade_Step d)" by (cases c rule: trade_step.cases) auto
  with assms have "d \<noteq> Accept k" by auto
  with exec_trade_awaits [OF assms(2)] c show ?thesis by simp
next
  case False
  from awaits_cong [OF exec_engine_trades [OF this]] assms(2) show ?thesis by simp
qed

interpretation waiting: invariant_machine "exec_engine fs lower m" "awaits k" "not_accepted_by k" for fs lower m k
  by unfold_locales (rule exec_engine_awaits)

lemma awaits_run:
  assumes "World (Trade_Step (Accept k)) \<notin> set cs" and "awaits k w"
  shows "awaits k (run_cmds (exec_engine fs lower m) cs w)"
proof (rule waiting.run_inv [OF _ assms(2)])
  have "not_accepted_by k c" if "c \<in> set cs" for c
    using that assms(1) by (cases "(k, c)" rule: not_accepted_by.cases) auto
  then show "list_all (not_accepted_by k) cs" by (simp add: list_all_iff)
qed

lemma awaits_blocks:
  assumes "awaits k w" and "execute_player_trade p w = (Ok out, w')"
  shows "te_initiator out \<noteq> k"
proof -
  from assms(2) obtain s where s: "player_trade w p = Some s" "ts_initiator_accepted s" "te_initiator out = ts_initiator s"
    by (auto simp: execute_player_trade_def attempt_def split: sum.splits if_splits prod.splits)
  then have "\<exists>j. bt_get (trades w) j = Some s"
    by (auto simp: player_trade_def split: option.splits dest: find_counterparty_Some)
  then obtain j where j: "bt_get (trades w) j = Some s" by (rule exE)
  with assms(1) have "ts_initiator s = j" by (auto simp: awaits_def trades_wf_def session_ok_def)
  with j s assms(1) show ?thesis by (auto simp: awaits_def)
qed

end
