(* ===== verification/Trade_Properties.thy ===== *)
theory Trade_Properties
  imports Sample_World Command_Batch Trade_Frame
begin

text \<open>
  The properties of trades, of the generic inventory move and of the deterministic command batch.
\<close>

section \<open>Trades\<close>

text \<open>
  C29. The execution of a trade conserves the units of every item kind over all inventories when it
  succeeds, and each side receives as many items as the other offered. When it fails, everything is
  still there, except for a delivery that found no space: then the items it did not deliver are lost.
\<close>

theorem trade_conserves_or_loses:
  assumes "world_wf w" and "trades_wf w" and "player_trade w p = Some s" and "execute_player_trade p w = (r, w')"
  shows "case r of
      Ok out \<Rightarrow> inventories_total item_units (w_containers w') = inventories_total item_units (w_containers w) \<and>
        length (te_initiator_gave out) = length (ts_initiator_items s) \<and>
        length (te_counterparty_gave out) = length (ts_counterparty_items s)
    | Inl e \<Rightarrow> inventories_total item_units (w_containers w') = inventories_total item_units (w_containers w) \<or>
        (e = no_space (ts_initiator s) \<or> e = no_space (ts_counterparty s)) \<and>
        (\<exists>lost. lost \<noteq> [] \<and> inventories_total item_units (w_containers w') + sum_list (map item_units lost) =
           inventories_total item_units (w_containers w))"
  using assms(4)
proof (cases rule: execute_player_trade_cases)
  case (passes s' x m)
  with assms(3) have s: "s' = s" by simp
  have "ts_initiator s \<noteq> ts_counterparty s" using player_trade_ok [OF assms(2,3)] by (simp add: session_ok_def)
  from units.swap_offers_total [OF inventories_wf_world [OF assms(1)] this] passes(4) s
  have "case x of
      Ok (ga, gb) \<Rightarrow> inventories_total item_units m = inventories_total item_units (w_containers w) \<and>
         length ga = length (ts_initiator_items s) \<and> length gb = length (ts_counterparty_items s)
    | Inl e \<Rightarrow> inventories_total item_units m = inventories_total item_units (w_containers w) \<or>
         (e = no_space (ts_initiator s) \<or> e = no_space (ts_counterparty s)) \<and>
         (\<exists>lost. lost \<noteq> [] \<and> inventories_total item_units m + sum_list (map item_units lost) =
            inventories_total item_units (w_containers w))" by blast
  with passes(5) s show ?thesis
    by (auto simp: with_inventories_def mark_changed_def split: sum.splits)
qed simp

definition barter :: "world_command list" where
  "barter = meet @ [Set_Containers 1 (bt_of_list [(0, pouch 0 [sample_item 7 30])]),
     Set_Containers 2 (bt_of_list [(0, pouch 0 [sample_item 9 1])]), Trade_Step (Open_Trade 1 2),
     Trade_Step (Stage 1 \<lparr>tr_container = 0, tr_index = 0\<rparr>), Trade_Step (Stage 2 \<lparr>tr_container = 0, tr_index = 0\<rparr>),
     Trade_Step (Accept 1), Trade_Step (Accept 2)]"

lemma barter_typed [simp]: "list_all well_typed barter"
proof -
  have "containers_wf (bt_of_list [(0, pouch 0 [sample_item 7 30])])" "containers_wf (bt_of_list [(0, pouch 0 [sample_item 9 1])])"
    by (auto simp: containers_wf_def bt_of_list_def bt_len_insert bt_get_insert window_wf_def pouch_def container_wf_def
        split: if_splits)
  then show ?thesis by (simp add: barter_def)
qed

definition bargain :: trade_session where
  "bargain = \<lparr>ts_initiator = 1, ts_counterparty = 2, ts_initiator_items = [\<lparr>tr_container = 0, tr_index = 0\<rparr>],
     ts_counterparty_items = [\<lparr>tr_container = 0, tr_index = 0\<rparr>], ts_initiator_accepted = True,
     ts_counterparty_accepted = True, ts_tick_opened = 0\<rparr>"

lemma barter_trades: "trades_wf (sample_run barter)"
proof -
  have "trades (sample_run barter) = bt_of_list [(1, bargain)]" by code_simp
  then show ?thesis by (auto simp: trades_wf_def session_ok_def bargain_def bt_get_of_list split: if_splits)
qed

theorem trade_conserves_or_loses_witness:
  "inventories_total item_units (w_containers (snd (execute_player_trade 2 (sample_run barter)))) =
     inventories_total item_units (w_containers (sample_run barter))"
proof -
  have run: "execute_player_trade 2 (sample_run barter) =
      (Ok \<lparr>te_initiator = 1, te_counterparty = 2, te_initiator_gave = [sample_item 7 30],
          te_counterparty_gave = [sample_item 9 1]\<rparr>, snd (execute_player_trade 2 (sample_run barter)))"
    by (rule result_eqI) code_simp
  have "player_trade (sample_run barter) 2 = Some bargain" by code_simp
  from trade_conserves_or_loses [OF _ barter_trades this run] show ?thesis by (simp add: sample_run_wf)
qed

text \<open>
  C38. A change of an offer withdraws the initiator's acceptance, and the trade cannot be executed until
  the initiator accepts again: whatever commands of the whole engine follow the change, on players,
  creatures and trades, as long as none of them is an acceptance by the initiator, nobody can then
  execute the initiator's trade. The counterparty's acceptance is withdrawn only when the initiator
  changes its offer: a counterparty that changes its own stays accepted.
\<close>

theorem offer_change_needs_new_acceptance:
  assumes "trades_wf w" and "active_trade_entry p w = Ok (k, s)" and "c = Stage p r \<or> c = Unstage p r"
    and "exec_trade c w = (Ok (), w')"
  shows "(\<exists>s'. bt_get (trades w') k = Some s' \<and> \<not> ts_initiator_accepted s' \<and>
    ts_counterparty_accepted s' = (ts_initiator s \<noteq> p \<and> ts_counterparty_accepted s)) \<and>
    execute_player_trade k w' = (Inl (social_fault (NoActiveTrade k)), w') \<and>
    (\<forall>fs lower m cs q out v. World (Trade_Step (Accept k)) \<notin> set cs \<longrightarrow>
      execute_player_trade q (run_cmds (exec_engine fs lower m) cs w') = (Ok out, v) \<longrightarrow> te_initiator out \<noteq> k)"
proof -
  from assms(2-4) obtain refs where w': "w' = store_trade k (change_offer p refs s) w"
    by (auto simp: stage_trade_item_def unstage_trade_item_def discard_def split: if_splits option.splits)
  let ?s = "change_offer p refs s"
  have get: "bt_get (trades w') k = Some ?s" by (simp add: w' store_trade_def)
  have flags: "\<not> ts_initiator_accepted ?s" "ts_counterparty_accepted ?s = (ts_initiator s \<noteq> p \<and> ts_counterparty_accepted s)"
    by (simp_all add: change_offer_def)
  have "execute_player_trade k w' = (Inl (social_fault (NoActiveTrade k)), w')"
    using get flags(1) by (simp add: execute_player_trade_def player_trade_def attempt_def)
  moreover have "te_initiator out \<noteq> k"
    if "World (Trade_Step (Accept k)) \<notin> set cs"
      and "execute_player_trade q (run_cmds (exec_engine fs lower m) cs w') = (Ok out, v)" for fs lower m cs q out v
  proof (rule awaits_blocks [OF _ that(2)])
    have "awaits k w'"
      using exec_trade_sessions [OF assms(1), of c] assms(4) get flags(1) by (simp add: awaits_def)
    with that(1) show "awaits k (run_cmds (exec_engine fs lower m) cs w')" by (rule awaits_run)
  qed
  ultimately show ?thesis using get flags by blast
qed

theorem offer_change_needs_new_acceptance_witness:
  "execute_player_trade 1 (snd (exec_trade (Unstage 2 \<lparr>tr_container = 0, tr_index = 0\<rparr>) (sample_run barter))) =
     (Inl (social_fault (NoActiveTrade 1)),
      snd (exec_trade (Unstage 2 \<lparr>tr_container = 0, tr_index = 0\<rparr>) (sample_run barter))) \<and>
   (\<nexists>out v. execute_player_trade 2 (run_cmds (exec_engine exact_scale id sample_map)
        [World (Trade_Step (Accept 2)), World (Advance 3), World (Trade_Step (Stage 1 \<lparr>tr_container = 0, tr_index = 1\<rparr>))]
        (snd (exec_trade (Unstage 2 \<lparr>tr_container = 0, tr_index = 0\<rparr>) (sample_run barter)))) =
      (Ok out, v) \<and> te_initiator out = 1)"
proof -
  let ?c = "Unstage 2 \<lparr>tr_container = 0, tr_index = 0\<rparr>"
  have "active_trade_entry 2 (sample_run barter) = Ok (1, bargain)" by code_simp
  moreover have "exec_trade ?c (sample_run barter) = (Ok (), snd (exec_trade ?c (sample_run barter)))"
    by (rule result_eqI) code_simp
  ultimately have changed: "execute_player_trade 1 (snd (exec_trade ?c (sample_run barter))) =
        (Inl (social_fault (NoActiveTrade 1)), snd (exec_trade ?c (sample_run barter)))"
    and later: "World (Trade_Step (Accept 1)) \<notin> set cs \<Longrightarrow>
        execute_player_trade 2 (run_cmds (exec_engine exact_scale id sample_map) cs (snd (exec_trade ?c (sample_run barter)))) =
          (Ok out, v) \<Longrightarrow> te_initiator out \<noteq> 1" for cs out v
    using offer_change_needs_new_acceptance [OF barter_trades, of 2 1 bargain ?c "\<lparr>tr_container = 0, tr_index = 0\<rparr>"]
    by blast+
  from changed later [of "[World (Trade_Step (Accept 2)), World (Advance 3),
      World (Trade_Step (Stage 1 \<lparr>tr_container = 0, tr_index = 1\<rparr>))]"]
  show ?thesis by auto
qed

section \<open>The generic inventory move\<close>

text \<open>
  C39. A generic inventory move keeps the units of every item kind of its player, except that a swap from
  one equipment slot to another loses the displaced item; other players keep everything. A rejected
  move changes nothing.
\<close>

theorem generic_moves_account_for_units:
  assumes "world_wf w"
  shows "case execute_generic_inventory_move p plan w of
      (Inl e, w') \<Rightarrow> w' = w
    | (Inr out, w') \<Rightarrow> player_total item_units w' p + dropped item_units (mp_source plan) (mo_placement out) =
          player_total item_units w p \<and> world_wf w'"
proof (cases "execute_generic_inventory_move p plan w")
  case (Pair r w')
  show ?thesis
  proof (cases r)
    case (Inl e)
    with Pair execute_generic_inventory_move_clean [of w p plan] show ?thesis by (simp add: clean_def)
  next
    case (Inr out)
    with Pair units.generic_move_Ok [OF assms, of p plan out w'] show ?thesis
      by (auto dest: transferred_total(1) transferred_wf [OF _ assms])
  qed
qed

theorem generic_moves_account_for_units_witness:
  "player_total item_units (snd (execute_generic_inventory_move 1
       \<lparr>mp_source = From_Slot RightHand, mp_count = None, mp_target = To_Slot LeftHand True\<rparr> (sample_run packed))) 1 +
     item_units (sample_item 8 1) = player_total item_units (sample_run packed) 1"
proof -
  let ?plan = "\<lparr>mp_source = From_Slot RightHand, mp_count = None, mp_target = To_Slot LeftHand True\<rparr>"
  have m: "execute_generic_inventory_move 1 ?plan (sample_run packed) =
      (Ok \<lparr>mo_player = 1, mo_moved = sample_item 7 40, mo_placement = Swapped (sample_item 8 1), mo_remaining = 0\<rparr>,
       snd (execute_generic_inventory_move 1 ?plan (sample_run packed)))"
    by (rule result_eqI) code_simp
  have "case execute_generic_inventory_move 1 ?plan (sample_run packed) of
      (Inl e, w') \<Rightarrow> w' = sample_run packed
    | (Inr out, w') \<Rightarrow> player_total item_units w' 1 + dropped item_units (mp_source ?plan) (mo_placement out) =
          player_total item_units (sample_run packed) 1 \<and> world_wf w'"
    by (rule generic_moves_account_for_units) (simp add: sample_run_wf)
  then show ?thesis by (subst (asm) m) (simp add: dropped_def)
qed

section \<open>The deterministic command batch\<close>

text \<open>
  C40. The order in which a batch is applied does not depend on the order in which the commands arrived:
  within the limit every command with a key of its own is accepted, and two arrivals of the same commands
  are drained in the same order, by strictly ascending key, which leaves the batch empty.
\<close>

theorem drain_order_ignores_arrival:
  assumes "batch_new limit = Inr b" and "mset cs = mset ds" and "distinct (map qc_key cs)" and "length cs \<le> limit"
  shows "fst (drain_sorted (run_cmds push cs b)) = fst (drain_sorted (run_cmds push ds b)) \<and>
    mset (fst (drain_sorted (run_cmds push cs b))) = mset cs \<and>
    sorted_wrt (<) (map qc_key (fst (drain_sorted (run_cmds push cs b)))) \<and>
    ba_commands (snd (drain_sorted (run_cmds push cs b))) = []"
proof -
  from batch_new_wf [OF assms(1)] have b: "batch_wf b" "ba_commands b = []" "ba_limit b = limit" by auto
  have "length ds = length cs" "distinct (map qc_key ds)"
    using assms(2,3) by (metis size_mset, metis mset_eq_imp_distinct_iff mset_map)
  with b assms push_run [of b cs] push_run [of b ds]
  have run: "run_cmds push cs b = b\<lparr>ba_commands := cs\<rparr>" "run_cmds push ds b = b\<lparr>ba_commands := ds\<rparr>" by simp_all
  have "batch_wf (b\<lparr>ba_commands := cs\<rparr>)" using b assms(3,4) by (simp add: batch_wf_def)
  from drain_strictly_sorted [OF this] sort_key_unique [OF assms(2,3)]
  show ?thesis unfolding run using assms(2) by (simp add: drain_sorted_def)
qed

definition queued :: "nat \<Rightarrow> nat \<Rightarrow> string queued_command" where
  "queued t p = \<lparr>qc_key = Command_Key t p 0, qc_payload = ''step''\<rparr>"

theorem drain_order_ignores_arrival_witness:
  "\<exists>b. batch_new 4 = Inr b \<and> fst (drain_sorted (run_cmds push [queued 5 2, queued 4 9, queued 5 1] b)) =
     fst (drain_sorted (run_cmds push [queued 4 9, queued 5 1, queued 5 2] b))"
proof -
  obtain b :: "string command_batch" where b: "batch_new 4 = Inr b"
    by (auto simp: batch_new_def)
  from drain_order_ignores_arrival [OF b, of "[queued 5 2, queued 4 9, queued 5 1]" "[queued 4 9, queued 5 1, queued 5 2]"] b
  show ?thesis by (auto simp: queued_def)
qed

end
