(* ===== verification/Spec2Isabelle.thy ===== *)
theory Spec2Isabelle
  imports Creature_Properties Trade_Properties
begin

text \<open>
  Forgotten Engine: the authoritative game state.

  The engine is a game server written as several crates. \<open>crates/forgotten-core\<close> holds the whole
  authoritative state, \<open>WorldState\<close> of \<open>lib.rs\<close>, and every transition of it; the host
  (\<open>crates/forgotten-host\<close>) owns sockets, threads and clocks and calls these transitions one at a time
  under a lock, so a run of the engine is a sequence of calls. This development models the core: all of
  \<open>lib.rs\<close> except \<open>Display\<close> texts, and the files \<open>world_*.rs\<close>.

  How code becomes definitions. A struct is a record, an enum a datatype with the source's variants
  (suffixed where a name clashes), a \<open>BTreeMap\<close> or \<open>BTreeSet\<close> the type \<open>btmap\<close> or \<open>btset\<close> of \<open>BTree_Map\<close>,
  whose entries are in key order, so iteration order is the code's. Machine integers are \<open>nat\<close> with the
  saturation, truncation or checked failure of the source written out (\<open>sat_add u64_max\<close>,
  \<open>mod 65536\<close>), and \<open>64 word\<close> where the code wraps (the FNV revision of the map, the loot generator).
  A fallible function returns \<open>fault + 'a\<close>: \<open>Error e\<close> carries the \<open>CoreError\<close> variant, \<open>Panic\<close>
  stands for an arithmetic or indexing panic. A method on \<open>&self\<close> is a function of the world, one on
  \<open>&mut self\<close> returns its result and the world it leaves, in the error case too: \<open>attempt\<close> and \<open>chain\<close>
  are the \<open>?\<close> operator on a read and on a mutating call.

  The theories, in the order of the code:

    \<^item> \<open>Prelude\<close>, \<open>BTree_Map\<close>, \<open>Text_Utf8\<close>: results, lists, the ordered map with its contract
      (\<open>keyed_store\<close>), \<open>str::trim\<close>, the contracts \<open>invariant_machine\<close> and \<open>atomic_machine\<close> of a
      component driven by calls, and the rules \<open>keeps_intros\<close> and \<open>clean_intros\<close> that carry an
      invariant through \<open>attempt\<close> and \<open>chain\<close>.
    \<^item> \<open>Core_Types\<close>, \<open>Items\<close>, \<open>Progression\<close>, \<open>Rules\<close>, \<open>World_Map\<close>, \<open>Static_Spawns\<close>: the data of \<open>lib.rs\<close>
      with its constructors: server lifecycle, positions, item instances and bounded containers, skills
      and levels, rule data, the tile map and its journals, creature templates.
    \<^item> \<open>World\<close>: the record \<open>world_state\<close>, one field per field of \<open>WorldState\<close>, its accessors and the
      invariant \<open>world_wf\<close>: every per-player table tracks exactly the registered players, each table's
      data is well formed, parties, intents and creature targets name registered players, and the
      occupancy index agrees with the creatures.
    \<^item> \<open>Party\<close>, \<open>Vitals_Ops\<close>, \<open>Death_Ops\<close>, \<open>Condition_Ops\<close>, \<open>Combat_Ops\<close>, \<open>Lifecycle\<close>, \<open>Movement\<close>,
      \<open>Transfers\<close>, \<open>Trade\<close>: one theory per file \<open>world_*.rs\<close>; \<open>Generic_Move\<close> and \<open>Command_Batch\<close>:
      the generic inventory move and the deterministic batch of \<open>lib.rs\<close>.
    \<^item> \<open>Static_Creatures\<close>, \<open>Detour\<close>, \<open>Static_Movement\<close>, \<open>Policy_Plan\<close>: \<open>world_static.rs\<close>: life cycle and
      restart snapshots, the breadth-first detour search, targets, attacks, steps and the clockwise
      policy. Every operation keeps \<open>world_inv ex\<close>: the invariant of the world and, when \<open>ex\<close> is set, the
      exclusive tiles (no two active creatures on a tile, no player on an active creature's tile).
    \<^item> \<open>World_Machine\<close> has a command for every public operation on players, parties, items and trades,
      \<open>Engine\<close> adds those on static creatures: together every public operation of \<open>WorldState\<close> that
      changes state. Two interpretations of \<open>invariant_machine\<close> give the invariant of every run: \<open>engine\<close>
      for \<open>world_wf\<close>, with the constructors' guarantees as typing, and \<open>exclusive\<close> for the exclusive tiles,
      for collections that place their creatures apart. \<open>Trade_Frame\<close> shows that only trade commands write
      trades and interprets the machine once more for an offer that awaits its initiator.
    \<^item> \<open>Rule_Properties\<close>, \<open>Sample_World\<close>, \<open>Creature_Properties\<close>, \<open>Restart\<close>, \<open>Trade_Properties\<close> and this theory: the properties of the
      development, C1 to C40, each with an application to concrete data.

  What the lemmas show. For every operation: it keeps the invariant of its component whether it succeeds
  or fails (\<open>..._wf\<close>, \<open>..._inv\<close>), and what an accepted call does (\<open>..._Ok\<close>, \<open>..._effect\<close>); for the operations
  that work on clones, that a rejected call changes nothing (\<open>atomic_machine\<close>). Item moves are
  accounted for with a measure over everything a player carries: \<open>item_deep\<close>, the multiset of all
  items, and \<open>item_units\<close>, the units of every stack kind (locale \<open>stack_measure\<close>).

  Parameters and bounds. \<open>float_scale\<close> is the \<open>f64\<close> requirement curve of skills and magic levels
  (\<open>base * multiplier ^ level\<close>): HOL has no IEEE arithmetic, so the theorems hold for every curve, the
  witnesses use exact rational arithmetic. \<open>lower\<close> is \<open>str::to_lowercase\<close>. The map is a value, as
  \<open>&WorldMap\<close> is in the code. Loops are structural recursion or \<open>function\<close> with a termination proof: the
  detour search by a weight over its frontier, the level search and the advancement loops by their
  distance to the bound, the search for a free identifier by one more candidate than there are keys.

  Not modelled: the texts of \<open>Display\<close>; the wire codecs, the configuration and map parsers, the
  database, the host's sessions and threads, Lua scripting, the command line and the test harness, which
  are other crates around third-party services (sockets, SQL, Lua, XML) and call the core.
\<close>

section \<open>The invariant of the world\<close>

text \<open>
  C1. The invariant of the world (every per-player table has exactly the registered players, vitals
  within their maxima, items and conditions well formed, parties, intents and creature targets over
  registered players, the occupancy index exact for the creature table) survives every sequence of
  engine commands, on players and on static creatures, accepted or rejected, in any order. The
  arguments are what the constructors of the code let through; an installed collection may place two
  creatures on one tile.
\<close>

theorem world_invariant_every_run:
  assumes "list_all engine_typed cs" and "world_wf w"
  shows "world_wf (run_cmds (exec_engine fs lower m) cs w)"
  using assms by (rule engine.run_inv)

theorem world_invariant_every_run_witness:
  "world_wf (run_cmds (exec_engine exact_scale id sample_map)
     (prowl @ [Creature (Seek 7 8), Creature (Attack 7 5), World (Remove 1), World (Party (Leave 9)), Creature Reset])
     empty_world)"
  by (rule world_invariant_every_run) (simp_all add: world_wf_empty)

text \<open>
  C5. Whatever happened before, among players and creatures: after \<open>remove_player\<close> none of the fifteen
  tables it clears has an entry of that player, no party table, no intent of another player and no
  creature's target names it, and in the fourteen tables other than the intents the other players keep
  their entries. Not everything of the
  player goes: the god-mode and invisible flags, the food window, the frag count and the active trades
  stay as they were, so a player registered later under the same identifier inherits them.
\<close>

theorem removed_player_is_unreferenced:
  assumes "list_all engine_typed cs" and "world_wf w"
  shows "unreferenced p (run_cmds (exec_engine fs lower m) (cs @ [World (Remove p)]) w) \<and>
    departed_from p (run_cmds (exec_engine fs lower m) cs w)
      (run_cmds (exec_engine fs lower m) (cs @ [World (Remove p)]) w)"
proof -
  let ?w = "run_cmds (exec_engine fs lower m) cs w"
  have w: "world_wf ?w" by (rule engine.run_inv [OF assms])
  obtain r w' where r: "remove_player p ?w = (r, w')" by fastforce
  have run: "run_cmds (exec_engine fs lower m) (cs @ [World (Remove p)]) w = w'"
    using r by (simp add: engine.run_append)
  note gone = remove_player_departed [OF w r]
  have "p \<notin> registered w'" using gone by (simp add: departed_from_def)
  moreover have "world_wf w'" using remove_player_wf [OF w, of p] r by simp
  ultimately show ?thesis using gone unreferenced_if_wf [of w' p] unfolding run by simp
qed

definition hunted :: "engine_command list" where
  "hunted = prowl @ [World (God_Mode 2 True), Creature (Seek 7 8)]"

lemma hunted_typed [simp]: "list_all engine_typed hunted"
  by (simp add: hunted_def)

theorem removed_player_is_unreferenced_witness:
  "(\<exists>rt. bt_get (creatures (sample_engine hunted)) 7 = Some rt \<and> cr_target rt = Some 3) \<and>
   unreferenced 3 (sample_engine (hunted @ [World (Remove 3)])) \<and>
   bt_mem 2 (w_god (sample_engine (hunted @ [World (Remove 2)])))"
proof -
  have "map_option cr_target (bt_get (creatures (sample_engine hunted)) 7) = Some (Some 3)" by code_simp
  moreover have "bt_mem 2 (w_god (sample_engine hunted))" by code_simp
  ultimately show ?thesis
    using removed_player_is_unreferenced [OF hunted_typed world_wf_empty, of 3 exact_scale id sample_map]
      removed_player_is_unreferenced [OF hunted_typed world_wf_empty, of 2 exact_scale id sample_map]
    by (auto simp: departed_from_def)
qed

text \<open>
  Arrival and departure are inverse: a player that joined and left is handed back as it came, and
  the registry, vitals, respawn states, equipment and containers are what they were.
\<close>

theorem join_then_leave:
  assumes "world_wf w" and "add_player_with_vitals_and_progression pl v pr w = (Ok (), w1)"
  shows "\<exists>w2. remove_player (pl_id pl) w1 = (Ok pl, w2) \<and> players w2 = players w \<and>
    w_vitals w2 = w_vitals w \<and> w_respawn w2 = w_respawn w \<and>
    w_equipments w2 = w_equipments w \<and> w_containers w2 = w_containers w"
proof -
  have "bt_get (players w1) (pl_id pl) = Some pl" using add_player_Ok(4) [OF assms(2)] by simp
  then obtain pl' w2 where r: "remove_player (pl_id pl) w1 = (Ok pl', w2)"
    by (auto simp: remove_player_def lookup_def Let_def)
  from remove_after_add [OF assms r] r show ?thesis by blast
qed

theorem join_then_leave_witness:
  "\<exists>w2. remove_player (pl_id (hero 4 103)) (snd (add_player_with_vitals_and_progression (hero 4 103) hero_vitals
        default_progression (sample_run gather))) = (Ok (hero 4 103), w2) \<and>
     players w2 = players (sample_run gather) \<and> w_vitals w2 = w_vitals (sample_run gather) \<and>
     w_respawn w2 = w_respawn (sample_run gather) \<and> w_equipments w2 = w_equipments (sample_run gather) \<and>
     w_containers w2 = w_containers (sample_run gather)"
proof (rule join_then_leave)
  show "world_wf (sample_run gather)" by (rule sample_run_wf) simp
  show "add_player_with_vitals_and_progression (hero 4 103) hero_vitals default_progression (sample_run gather) =
      (Ok (), snd (add_player_with_vitals_and_progression (hero 4 103) hero_vitals default_progression (sample_run gather)))"
    by (rule result_eqI) code_simp
qed

section \<open>Parties\<close>

text \<open>
  C20. Party commands are atomic: in any run the rejected calls can be dropped without changing the
  final world, so a rejected call has no effect at all.
\<close>

theorem rejected_party_calls_are_invisible:
  assumes "world_wf w"
  shows "run_cmds exec_party (accepted exec_party cs w) w = run_cmds exec_party cs w"
  by (rule party.run_accepted) (use assms in \<open>simp_all add: list_all_iff\<close>)

theorem rejected_party_calls_are_invisible_witness:
  "run_cmds exec_party (accepted exec_party [Leave 9, Leave 1, Invite 2 2] (sample_run gather)) (sample_run gather) =
   run_cmds exec_party [Leave 9, Leave 1, Invite 2 2] (sample_run gather)"
  by (rule rejected_party_calls_are_invisible) (simp add: sample_run_wf)

text \<open>
  C16. When a leader with members leaves, the member with the lowest identifier leads exactly the
  remaining participants, the leaver is in no party, and no other player's party changes.
\<close>

theorem leader_succession:
  assumes "world_wf w" and "leave_party p w = (Ok (), w')" and "bt_mem p (party_leaders w)"
    and "party_member_ids w p = heir # rest"
  shows "party_participants w' heir = party_participants w p - {p} \<and> bt_mem heir (party_leaders w') \<and>
    (\<forall>q \<in> set rest. heir < q) \<and> player_party_leader w' p = Ok None \<and>
    (\<forall>q. q \<notin> party_participants w p \<longrightarrow> player_party_leader w' q = player_party_leader w q)"
  using leave_party_succession [OF assms] leave_party_free [OF assms(1,2)] by blast

theorem leader_succession_witness:
  "party_participants (snd (leave_party 1 (sample_run gather))) 2 = party_participants (sample_run gather) 1 - {1} \<and>
   bt_mem 2 (party_leaders (snd (leave_party 1 (sample_run gather)))) \<and>
   player_party_leader (snd (leave_party 1 (sample_run gather))) 1 = Ok None"
proof -
  have "leave_party 1 (sample_run gather) = (Ok (), snd (leave_party 1 (sample_run gather)))"
    by (rule result_eqI) code_simp
  moreover have "bt_mem 1 (party_leaders (sample_run gather))" and "party_member_ids (sample_run gather) 1 = [2, 3]"
    by (code_simp, code_simp)
  ultimately show ?thesis
    using leader_succession [of "sample_run gather" 1 _ 2 "[3]"] by (simp add: sample_run_wf)
qed

text \<open>
  C17. Handing over the leadership keeps the set of participants, leaves exactly one leader, and
  touches no other party.
\<close>

theorem leadership_transfer_keeps_party:
  assumes "world_wf w" and "transfer_party_leadership l new w = (Ok (), w')"
  shows "party_participants w' new = party_participants w l \<and> bt_mem new (party_leaders w') \<and>
    \<not> bt_mem l (party_leaders w') \<and>
    (\<forall>k. k \<noteq> l \<and> bt_mem k (party_leaders w) \<longrightarrow> party_participants w' k = party_participants w k)"
  using assms by (rule transfer_participants)

theorem leadership_transfer_keeps_party_witness:
  "party_participants (snd (transfer_party_leadership 1 3 (sample_run gather))) 3 = party_participants (sample_run gather) 1 \<and>
   bt_mem 3 (party_leaders (snd (transfer_party_leadership 1 3 (sample_run gather)))) \<and>
   \<not> bt_mem 1 (party_leaders (snd (transfer_party_leadership 1 3 (sample_run gather))))"
proof -
  have "transfer_party_leadership 1 3 (sample_run gather) = (Ok (), snd (transfer_party_leadership 1 3 (sample_run gather)))"
    by (rule result_eqI) code_simp
  from leadership_transfer_keeps_party [OF _ this] show ?thesis by (simp add: sample_run_wf)
qed

text \<open>
  C18. Shared experience goes to a whole party or to nobody: recipients are the participants of the
  player's own party, at least two and in ascending order, every one of them within the range and floor
  bounds of the leader, at the required level share and active inside the window.
\<close>

theorem shared_experience_recipients:
  assumes "world_wf w" and "party_shared_experience_recipients w p rules = Ok (Some rs)"
  shows "\<exists>l lead. bt_mem l (party_leaders w) \<and> p \<in> set rs \<and> set rs = party_participants w l \<and>
    sorted_wrt (<) rs \<and> 2 \<le> length rs \<and> bt_get (players w) l = Some lead \<and>
    (\<forall>q \<in> set rs. \<exists>pl. bt_get (players w) q = Some pl \<and>
        minimum_shared_level (highest_level w (l # party_member_ids w l)) \<le> pl_level pl \<and>
        position_range (pl_position pl) (pl_position lead) \<le> sr_range rules \<and>
        abs_diff (pos_z (pl_position pl)) (pos_z (pl_position lead)) \<le> sr_floor_delta rules \<and>
        recently_active rules w q)"
  by (rule recipients_Some [OF assms]) blast

definition share :: "world_command list" where
  "share = gather @ [Party (RequestShared 1 True default_shared_rules), Party (RecordActivity 1),
     Party (RecordActivity 2), Party (RecordActivity 3)]"

theorem shared_experience_recipients_witness:
  "\<exists>l. bt_mem l (party_leaders (sample_run share)) \<and> set [1, 2, 3] = party_participants (sample_run share) l \<and>
     recently_active default_shared_rules (sample_run share) 3"
proof -
  have "party_shared_experience_recipients (sample_run share) 2 default_shared_rules = Ok (Some [1, 2, 3])"
    by code_simp
  from shared_experience_recipients [OF _ this] show ?thesis by (auto simp: sample_run_wf share_def)
qed

text \<open>
  C19. Saving and restoring parties is lossless: replaying the snapshots of one world into another with
  the same players and no parties is accepted and gives the same leaders and memberships.
\<close>

theorem party_snapshot_round_trip:
  assumes "world_wf w" and "registered v = registered w"
    and "party_leaders v = bt_empty" and "party_memberships v = bt_empty"
  shows "restore_all (party_snapshots w) v =
    (Ok (), v\<lparr>party_memberships := party_memberships w, party_leaders := party_leaders w\<rparr>)"
  using assms by (rule party_snapshots_restore)

theorem party_snapshot_round_trip_witness:
  "restore_all (party_snapshots (sample_run gather)) (sample_run meet) =
    (Ok (), (sample_run meet)\<lparr>party_memberships := party_memberships (sample_run gather),
       party_leaders := party_leaders (sample_run gather)\<rparr>)"
proof (rule party_snapshot_round_trip)
  have "bt_keys (players (sample_run meet)) = bt_keys (players (sample_run gather))" by code_simp
  then show "registered (sample_run meet) = registered (sample_run gather)"
    by (metis set_bt_keys)
  show "party_leaders (sample_run meet) = bt_empty" by code_simp
  show "party_memberships (sample_run meet) = bt_empty" by code_simp
qed (simp add: sample_run_wf)

section \<open>Vitals, combat and death\<close>

text \<open>
  C21. Regeneration never leaves the maxima: the vitals it returns are the stored ones, they exceed the
  old vitals by exactly the gains it reports, and health and mana stay within their maxima.
\<close>

theorem regeneration_stays_in_bounds:
  assumes "world_wf w" and "apply_player_regeneration p rules elapsed w = (Ok out, w')"
  shows "\<exists>cur. bt_get (w_vitals w) p = Some cur \<and> bt_get (w_vitals w') p = Some (ro_vitals out) \<and>
    ro_vitals out = cur\<lparr>health := health cur + ro_health_gained out, mana := mana cur + ro_mana_gained out\<rparr> \<and>
    health cur + ro_health_gained out \<le> max_health cur \<and> mana cur + ro_mana_gained out \<le> max_mana cur"
  by (rule apply_player_regeneration_Ok [OF assms(2,1)]) blast

definition quick_rules :: regeneration_rules where
  "quick_rules = \<lparr>health_rule = \<lparr>rr_interval = 6, rr_amount = 5\<rparr>, mana_rule = \<lparr>rr_interval = 3, rr_amount = 8\<rparr>\<rparr>"

theorem regeneration_stays_in_bounds_witness:
  "\<exists>cur. bt_get (w_vitals (sample_run meet)) 1 = Some cur \<and>
    bt_get (w_vitals (snd (apply_player_regeneration 1 quick_rules 60 (sample_run meet)))) 1 =
      Some (hero_vitals\<lparr>health := 150, mana := 35\<rparr>) \<and>
    hero_vitals\<lparr>health := 150, mana := 35\<rparr> = cur\<lparr>health := health cur + 50, mana := mana cur + 15\<rparr> \<and>
    health cur + 50 \<le> max_health cur \<and> mana cur + 15 \<le> max_mana cur"
proof -
  have "apply_player_regeneration 1 quick_rules 60 (sample_run meet) =
      (Ok \<lparr>ro_player = 1, ro_health_gained = 50, ro_mana_gained = 15,
        ro_vitals = hero_vitals\<lparr>health := 150, mana := 35\<rparr>\<rparr>,
       snd (apply_player_regeneration 1 quick_rules 60 (sample_run meet)))"
    by (rule result_eqI) code_simp
  from regeneration_stays_in_bounds [OF _ this] show ?thesis by (simp add: sample_run_wf)
qed

text \<open>
  C6. A combat event is accepted exactly when attacker and target are two different registered players,
  the damage is physical, the attacker is not dead and off its cooldown, the target is in range for the
  delivery, alive, neither in god mode nor invisible, and both have their combat tables. It then takes
  the mitigated damage, capped by the target's health, reports it, starts the attacker's next cooldown,
  counts one change, and leaves every other player and table as it was.
\<close>

theorem combat_event_effect:
  "apply_player_combat_event ev w = (Ok out, w') \<longleftrightarrow>
     (\<exists>rs a b v df nxt. ev_attacker ev \<noteq> ev_target ev \<and> ev_damage_type ev = Physical \<and>
        bt_get (w_respawn w) (ev_attacker ev) = Some rs \<and> \<not> dead rs \<and>
        bt_get (players w) (ev_attacker ev) = Some a \<and> bt_get (players w) (ev_target ev) = Some b \<and>
        \<not> out_of_range (ev_delivery ev) (pl_position a) (pl_position b) \<and>
        bt_get (w_vitals w) (ev_target ev) = Some v \<and> 0 < health v \<and>
        \<not> bt_mem (ev_target ev) (w_god w) \<and> \<not> bt_mem (ev_target ev) (w_invisible w) \<and>
        bt_get (w_combat_cooldowns w) (ev_attacker ev) = Some nxt \<and> nxt \<le> tick w \<and>
        bt_get (w_defenses w) (ev_target ev) = Some df \<and>
        out = \<lparr>cb_damage = \<lparr>do_attacker = ev_attacker ev, do_target = ev_target ev, do_requested = ev_damage ev,
                  do_applied = min (ev_damage ev - df) (health v),
                  do_remaining = health v - (ev_damage ev - df),
                  do_defeated = (health v \<le> ev_damage ev - df)\<rparr>,
               cb_type = Physical, cb_mitigated = ev_damage ev - df,
               cb_next_attack_tick = sat_add u64_max (tick w) (ev_interval ev)\<rparr> \<and>
        w' = mark_changed (w\<lparr>
          w_vitals := bt_insert (ev_target ev) (v\<lparr>health := health v - (ev_damage ev - df)\<rparr>) (w_vitals w),
          w_combat_cooldowns := bt_insert (ev_attacker ev) (sat_add u64_max (tick w) (ev_interval ev))
            (w_combat_cooldowns w)\<rparr>))"
  by (rule combat_event_iff)

definition strike :: "nat \<Rightarrow> nat \<Rightarrow> combat_event" where
  "strike a b = \<lparr>ev_attacker = a, ev_target = b, ev_delivery = AdjacentMelee, ev_damage_type = Physical,
     ev_damage = 30, ev_interval = 2\<rparr>"

theorem combat_event_effect_witness:
  "(\<exists>v df. bt_get (w_vitals (sample_run meet)) 2 = Some v \<and> bt_get (w_defenses (sample_run meet)) 2 = Some df \<and>
     bt_get (w_vitals (snd (apply_player_combat_event (strike 1 2) (sample_run meet)))) 2 =
       Some (v\<lparr>health := health v - (30 - df)\<rparr>)) \<and>
   \<not> (\<exists>out w'. apply_player_combat_event (strike 1 2\<lparr>ev_damage_type := Fire\<rparr>) (sample_run meet) = (Ok out, w'))"
proof -
  have "map_sum id (\<lambda>_. ()) (fst (apply_player_combat_event (strike 1 2) (sample_run meet))) = Ok ()"
    by code_simp
  then obtain out where "apply_player_combat_event (strike 1 2) (sample_run meet) =
      (Ok out, snd (apply_player_combat_event (strike 1 2) (sample_run meet)))"
    by (auto simp: map_sum_Ok intro: result_eqI)
  from combat_event_effect [THEN iffD1, OF this] combat_event_effect [of "strike 1 2\<lparr>ev_damage_type := Fire\<rparr>"]
  show ?thesis by (auto simp: strike_def mark_changed_def)
qed

text \<open>
  C7. The cooldown holds: until the interval of an accepted event has passed, every further combat
  event of that attacker is rejected and changes nothing, however the world moved in between, as long
  as the attacker's cooldown entry stands.
\<close>

theorem combat_cooldown_holds:
  assumes "apply_player_combat_event ev w = (Ok out, w')" and "0 < ev_interval ev" and "tick w < u64_max"
    and "ev_attacker ev' = ev_attacker ev"
    and "bt_get (w_combat_cooldowns v) (ev_attacker ev) = bt_get (w_combat_cooldowns w') (ev_attacker ev)"
    and "tick v < min (tick w + ev_interval ev) u64_max"
  shows "\<exists>e. apply_player_combat_event ev' v = (Inl e, v)"
  using assms by (rule combat_cooldown_blocks)

theorem combat_cooldown_holds_witness:
  "\<exists>e. apply_player_combat_event (strike 1 2) (snd (advance_ticks 1 (snd (apply_player_combat_event (strike 1 2) (sample_run meet))))) =
     (Inl e, snd (advance_ticks 1 (snd (apply_player_combat_event (strike 1 2) (sample_run meet)))))"
proof -
  have "map_sum id (\<lambda>_. ()) (fst (apply_player_combat_event (strike 1 2) (sample_run meet))) = Ok ()"
    by code_simp
  then obtain out where out: "apply_player_combat_event (strike 1 2) (sample_run meet) =
      (Ok out, snd (apply_player_combat_event (strike 1 2) (sample_run meet)))"
    by (auto simp: map_sum_Ok intro: result_eqI)
  show ?thesis
  proof (rule combat_cooldown_holds [OF out])
    show "0 < ev_interval (strike 1 2)" by (simp add: strike_def)
    show "tick (sample_run meet) < u64_max" by code_simp
    show "tick (snd (advance_ticks 1 (snd (apply_player_combat_event (strike 1 2) (sample_run meet))))) <
        min (tick (sample_run meet) + ev_interval (strike 1 2)) u64_max"
      by code_simp
  qed (simp_all add: strike_def advance_ticks_def mark_changed_def Let_def)
qed

text \<open>The heartbeat reads no flag: it commutes with any change of the god-mode set.\<close>

lemma attempt_commute: "(\<And>x. r = Ok x \<Longrightarrow> k x = map_prod id f (k' x)) \<Longrightarrow> attempt (f w) r k = map_prod id f (attempt w r k')"
  by (cases r) (simp_all add: attempt_def)

lemma if_commute: "(b \<Longrightarrow> x = h x') \<Longrightarrow> (\<not> b \<Longrightarrow> y = h y') \<Longrightarrow> (if b then x else y) = h (if b then x' else y')"
  by simp

lemma heartbeat_ignores_god:
  "apply_player_conditions_with_death p t m e (w\<lparr>w_god := g\<rparr>) =
     map_prod id (w_god_update (\<lambda>_. g)) (apply_player_conditions_with_death p t m e w)"
proof -
  note commute = attempt_commute [where f = "w_god_update (\<lambda>_. g)"] if_commute [where h = "map_prod id (w_god_update (\<lambda>_. g))"]
  have reads: "player_vitals (w\<lparr>w_god := g\<rparr>) p = player_vitals w p"
    "player_conditions (w\<lparr>w_god := g\<rparr>) p = player_conditions w p"
    "player_respawn_state (w\<lparr>w_god := g\<rparr>) p = player_respawn_state w p"
    "require_player p (w\<lparr>w_god := g\<rparr>) = require_player p w" for w
    by (simp_all add: accessor_defs player_conditions_def require_player_def)
  have pending: "pending_player_condition_damage (w\<lparr>w_god := g\<rparr>) p n = pending_player_condition_damage w p n" for n w
    by (simp add: pending_player_condition_damage_def reads)
  have tick: "apply_player_conditions p n (w\<lparr>w_god := g\<rparr>) = map_prod id (w_god_update (\<lambda>_. g)) (apply_player_conditions p n w)"
    for n
    unfolding apply_player_conditions_def pending reads Let_def
    by (intro commute) (simp_all add: mark_changed_def)
  have death: "apply_player_death p t m (w\<lparr>w_god := g\<rparr>) = map_prod id (w_god_update (\<lambda>_. g)) (apply_player_death p t m w)"
    for w
    by (cases "player_respawn_state w p"; cases "temple_position_for_town m t"; cases "player_vitals w p";
       cases "bt_get (w_conditions w) p")
     (simp_all add: apply_player_death_def attempt_def Let_def reads mark_changed_def lookup_def
        clear_player_interaction_references_def split: sum.split)
  have rest: "chain (apply_player_conditions p n (w\<lparr>w_god := g\<rparr>)) k = map_prod id (w_god_update (\<lambda>_. g)) (chain (apply_player_conditions p n w) k)"
    if "\<And>x w1. k x (w1\<lparr>w_god := g\<rparr>) = map_prod id (w_god_update (\<lambda>_. g)) (k x w1)" for n and k :: "condition_outcome \<Rightarrow> (condition_outcome \<times> respawn_state option) action"
    unfolding tick using that
    by (cases "apply_player_conditions p n w"; cases "fst (apply_player_conditions p n w)") (auto simp: chain_def)
  have after: "chain (apply_player_death p t m (w\<lparr>w_god := g\<rparr>)) (\<lambda>st w2. (Ok (out, Some st), w2)) =
      map_prod id (w_god_update (\<lambda>_. g)) (chain (apply_player_death p t m w) (\<lambda>st w2. (Ok (out, Some st), w2)))"
    for w and out :: condition_outcome
    unfolding death
    by (cases "apply_player_death p t m w"; cases "fst (apply_player_death p t m w)") (auto simp: chain_def)
  show ?thesis
    unfolding apply_player_conditions_with_death_def pending reads Let_def
    by (intro commute rest) (simp_all add: after)
qed
text \<open>
  C8. A heartbeat of damaging conditions kills exactly when the period's damage reaches the remaining
  health, and a lethal heartbeat is decided before anything changes: without a town, or with a town
  the map does not know, it is rejected whole; otherwise the player is dead at zero health with the
  town's temple as its respawn position. A survivor only takes the damage.

  God mode does not protect: the heartbeat is the same for every set of god-mode players, so a player in
  god mode is hurt and killed by its conditions. This is what the code does and not what it says: the
  comment in \<open>apply_damage_to_known_target\<close> has every damage source funnel through its check of the flag,
  and the doc of the flag calls such players invincible.
\<close>

theorem lethal_heartbeat:
  assumes "world_wf w" and "bt_get (w_vitals w) p = Some v" and "bt_get (w_conditions w) p = Some cs"
    and "bt_get (w_respawn w) p = Some rs" and "\<not> dead rs" and "0 < e" and "0 < health v"
  shows "(if health v \<le> condition_events_damage (min e max_regeneration_elapsed_seconds) cs
    then if t = 0
      then apply_player_conditions_with_death p t m e w = (Inl (player_fault (PlayerTownUnassigned p)), w)
      else case temple_position_for_town m t of
        None \<Rightarrow> apply_player_conditions_with_death p t m e w = (Inl (player_fault (UnknownTown t)), w)
      | Some q \<Rightarrow> \<exists>out st w'. apply_player_conditions_with_death p t m e w = (Ok (out, Some st), w') \<and>
          dead st \<and> respawn_at st = Some q \<and> bt_get (w_respawn w') p = Some st \<and>
          map_option health (bt_get (w_vitals w') p) = Some 0
    else \<exists>out w'. apply_player_conditions_with_death p t m e w = (Ok (out, None), w') \<and>
      map_option health (bt_get (w_vitals w') p) =
        Some (health v - condition_events_damage (min e max_regeneration_elapsed_seconds) cs)) \<and>
    (\<forall>g. apply_player_conditions_with_death p t m e (w\<lparr>w_god := g\<rparr>) =
      map_prod id (w_god_update (\<lambda>_. g)) (apply_player_conditions_with_death p t m e w))" (is "?heartbeat \<and> ?god")
proof -
  have e: "0 < min e max_regeneration_elapsed_seconds" using assms(6) by simp
  note with_death = apply_player_conditions_with_death_alive [OF assms(1-5) refl e, of t m]
  have ?heartbeat
  proof (cases "health v \<le> condition_events_damage (min e max_regeneration_elapsed_seconds) cs")
    case True
    with with_death(1-3) assms(7) show ?thesis by (cases "temple_position_for_town m t") auto
  next
    case False
    with with_death(4) obtain out w' where
      a: "apply_player_conditions_with_death p t m e w = (Ok (out, None), w')" "apply_player_conditions p e w = (Ok out, w')"
      by auto
    have "map_option health (bt_get (w_vitals w') p) =
        Some (health v - condition_events_damage (min e max_regeneration_elapsed_seconds) cs)"
      by (rule apply_player_conditions_alive [OF assms(1-5) refl e]) (use a(2) in \<open>auto simp: min_def\<close>)
    with a(1) False show ?thesis by simp
  qed
  with heartbeat_ignores_god show ?thesis by simp
qed

text \<open>A player in god mode with a lethal burn.\<close>

definition burning :: "world_command list" where
  "burning = meet @ [God_Mode 1 True, Afflict 1 (sample_burn\<lparr>cond_damage := 60\<rparr>)]"

lemma burning_typed [simp]: "list_all well_typed burning"
  by (simp add: burning_def condition_wf_def sample_burn_def is_damage_over_time_def)

theorem lethal_heartbeat_witness:
  "bt_mem 1 (w_god (sample_run burning)) \<and> (\<exists>out st w'. apply_player_conditions_with_death 1 1 sample_map 10 (sample_run burning) = (Ok (out, Some st), w') \<and>
     dead st \<and> respawn_at st = Some (Position 103 100 7) \<and> bt_get (w_respawn w') 1 = Some st \<and>
     map_option health (bt_get (w_vitals w') 1) = Some 0)"
proof -
  have god: "bt_mem 1 (w_god (sample_run burning))" by code_simp
  have v: "bt_get (w_vitals (sample_run burning)) 1 = Some hero_vitals"
    and c: "bt_get (w_conditions (sample_run burning)) 1 = Some (bt_of_list [(Burning, sample_burn\<lparr>cond_damage := 60\<rparr>)])"
    and r: "bt_get (w_respawn (sample_run burning)) 1 = Some default_respawn"
    by (code_simp, code_simp, code_simp)
  have "world_wf (sample_run burning)" and "\<not> dead default_respawn" and "0 < health hero_vitals"
    by (simp_all add: sample_run_wf default_respawn_def hero_vitals_def)
  note * = lethal_heartbeat [OF this(1) v c r this(2) _ this(3), of 10 1 sample_map]
  moreover have "health hero_vitals \<le> condition_events_damage (min 10 max_regeneration_elapsed_seconds)
      (bt_of_list [(Burning, sample_burn\<lparr>cond_damage := 60\<rparr>)])"
    and "temple_position_for_town sample_map 1 = Some (Position 103 100 7)"
    by (code_simp, code_simp)
  ultimately show ?thesis using god by simp
qed

text \<open>
  C10. A respawn can only fail for the reasons the caller can act on: for a player whose death the world
  recorded, the missing-position error and the panic cannot occur, a failure changes nothing, and
  a success puts the player alive, with full vitals, on the recorded free position.
\<close>

theorem respawn_outcomes:
  assumes "world_wf w"
  shows "case respawn_player p w of
      (Inl e, w') \<Rightarrow> w' = w \<and> e \<noteq> player_fault (MissingRespawnPosition p) \<and> e \<noteq> Panic
    | (Inr out, w') \<Rightarrow>
        (\<exists>st. bt_get (w_respawn w) p = Some st \<and> dead st \<and> respawn_at st = Some (ra_position out)) \<and>
        bt_get (w_respawn w') p = Some default_respawn \<and>
        map_option pl_position (bt_get (players w') p) = Some (ra_position out) \<and>
        \<not> is_static_creature_occupied w (ra_position out) \<and> \<not> other_player_at w p (ra_position out) \<and>
        (\<exists>v. bt_get (w_vitals w') p = Some v \<and> health v = max_health v \<and> mana v = max_mana v)"
  using respawn_player_Err [OF _ assms] respawn_player_Ok
  by (auto split: prod.split sum.split simp del: split_paired_Ex)

theorem respawn_outcomes_witness:
  "case respawn_player 1 (sample_run (meet @ [Set_Town 1 1, Die 1 1])) of
      (Inl e, w') \<Rightarrow> w' = sample_run (meet @ [Set_Town 1 1, Die 1 1]) \<and>
        e \<noteq> player_fault (MissingRespawnPosition 1) \<and> e \<noteq> Panic
    | (Inr out, w') \<Rightarrow>
        (\<exists>st. bt_get (w_respawn (sample_run (meet @ [Set_Town 1 1, Die 1 1]))) 1 = Some st \<and> dead st \<and>
          respawn_at st = Some (ra_position out)) \<and>
        bt_get (w_respawn w') 1 = Some default_respawn \<and>
        map_option pl_position (bt_get (players w') 1) = Some (ra_position out) \<and>
        \<not> is_static_creature_occupied (sample_run (meet @ [Set_Town 1 1, Die 1 1])) (ra_position out) \<and>
        \<not> other_player_at (sample_run (meet @ [Set_Town 1 1, Die 1 1])) 1 (ra_position out) \<and>
        (\<exists>v. bt_get (w_vitals w') 1 = Some v \<and> health v = max_health v \<and> mana v = max_mana v)"
  by (rule respawn_outcomes) (simp add: sample_run_wf)

lemma death_loss_total:
  assumes "world_wf w" and "bt_get (w_respawn w) p = Some ds" and "dead ds" and "\<not> loss_applied ds"
    and "1 \<le> percent" and "percent \<le> 100"
  shows "\<exists>out. fst (apply_fixed_percent_death_loss fs p percent rules w) = Ok out"
proof -
  have "p \<in> registered w" using world_wf_get(8) [OF assms(1,2)] by simp
  then obtain pl v pr att where "bt_get (players w) p = Some pl" "bt_get (w_vitals w) p = Some v"
    "bt_get (w_progressions w) p = Some pr" "bt_get (w_attempts w) p = Some att"
    using world_wf_dom(1-3) [OF assms(1)] by blast
  with assms(2-6) show ?thesis
    by (simp add: apply_fixed_percent_death_loss_def accessor_defs Let_def split: prod.split)
qed

text \<open>
  C9. A fixed-percent death loss is accepted exactly for a recorded death whose loss was not applied
  yet and a percentage from 1 to 100. It marks the loss, takes the rounded-down share of the experience
  with the level that the rest affords, gives every skill and the magic level with its counter the
  result of the loss rule on their lifetime totals, reports what was lost, and changes nothing else.
  The magic rule is pinned by the totals themselves: no level grows, and below the maximum the mana the
  new level and counter stand for is the old total less its rounded-down share, with a counter short of
  the next level (of tables in their bounds, whose total fits 64 bits).
\<close>

theorem death_loss_effect:
  "(apply_fixed_percent_death_loss fs p percent rules w = (Ok out, w') \<longleftrightarrow>
     (\<exists>pl v pr att ds sk tries ml sm. 1 \<le> percent \<and> percent \<le> 100 \<and>
        bt_get (w_respawn w) p = Some ds \<and> dead ds \<and> \<not> loss_applied ds \<and>
        bt_get (players w) p = Some pl \<and> bt_get (w_progressions w) p = Some pr \<and>
        bt_get (w_attempts w) p = Some att \<and> bt_get (w_vitals w) p = Some v \<and>
        (\<forall>s. (sk s, tries s) = skill_after_loss fs percent rules s (skills pr s) (skill_tries att s)) \<and>
        (ml, sm) = magic_after_loss fs percent rules (magic_level v) (magic_mana att) \<and>
        out = \<lparr>dl_player = p, dl_percent = percent,
          dl_experience_lost = fixed_percent_of (pl_experience pl) percent,
          dl_skill_tries_lost = (\<lambda>s. fixed_percent_of
            (cumulative_skill_tries fs (skills pr s) (skill_tries att s) rules s) percent),
          dl_magic_mana_lost = fixed_percent_of
            (cumulative_magic_mana fs (magic_level v) (magic_mana att) rules) percent,
          dl_level = level_for_experience (pl_experience pl - fixed_percent_of (pl_experience pl) percent),
          dl_progression = pr\<lparr>skills := sk\<rparr>, dl_attempts = att\<lparr>skill_tries := tries, magic_mana := sm\<rparr>,
          dl_vitals = v\<lparr>magic_level := ml\<rparr>\<rparr> \<and>
        w' = mark_changed (w\<lparr>
          players := bt_insert p (pl\<lparr>pl_experience := pl_experience pl - fixed_percent_of (pl_experience pl) percent,
            pl_level := level_for_experience (pl_experience pl - fixed_percent_of (pl_experience pl) percent)\<rparr>) (players w),
          w_progressions := bt_insert p (pr\<lparr>skills := sk\<rparr>) (w_progressions w),
          w_attempts := bt_insert p (att\<lparr>skill_tries := tries, magic_mana := sm\<rparr>) (w_attempts w),
          w_vitals := bt_insert p (v\<lparr>magic_level := ml\<rparr>) (w_vitals w),
          w_respawn := bt_insert p (ds\<lparr>loss_applied := True\<rparr>) (w_respawn w)\<rparr>))) \<and>
   (\<forall>l r l' r'. magic_after_loss fs percent rules l r = (l', r') \<and> percent \<le> 100 \<and> l \<le> u8_max \<and> r \<le> u64_max \<and>
      (l < u8_max \<longrightarrow> r < required_magic_mana fs rules (Suc l)) \<and>
      exact_total (required_magic_mana fs rules) 0 l r \<le> u64_max \<longrightarrow>
      l' \<le> l \<and> (l' < u8_max \<longrightarrow>
        exact_total (required_magic_mana fs rules) 0 l' r' =
          exact_total (required_magic_mana fs rules) 0 l r -
          exact_total (required_magic_mana fs rules) 0 l r * percent div 100 \<and>
        r' < required_magic_mana fs rules (Suc l')))"
proof (intro conjI allI impI)
  fix l r l' r'
  assume a: "magic_after_loss fs percent rules l r = (l', r') \<and> percent \<le> 100 \<and> l \<le> u8_max \<and> r \<le> u64_max \<and>
      (l < u8_max \<longrightarrow> r < required_magic_mana fs rules (Suc l)) \<and>
      exact_total (required_magic_mana fs rules) 0 l r \<le> u64_max"
  note spec = magic_after_loss_spec [of fs percent rules l r l' r']
  from a spec show "l' \<le> l" by blast
  assume "l' < u8_max"
  with a spec show "exact_total (required_magic_mana fs rules) 0 l' r' =
      exact_total (required_magic_mana fs rules) 0 l r -
      exact_total (required_magic_mana fs rules) 0 l r * percent div 100"
    and "r' < required_magic_mana fs rules (Suc l')" by blast+
qed (rule death_loss_iff)

definition fallen :: world_state where
  "fallen = sample_run (meet @ [Set_Town 1 1, Die 1 1])"

theorem death_loss_effect_witness:
  "bt_get (w_respawn (snd (apply_fixed_percent_death_loss exact_scale 1 10 sample_rules fallen))) 1 \<noteq>
     bt_get (w_respawn fallen) 1 \<and>
   (\<exists>pl. bt_get (players fallen) 1 = Some pl \<and>
     bt_get (players (snd (apply_fixed_percent_death_loss exact_scale 1 10 sample_rules fallen))) 1 =
       Some (pl\<lparr>pl_experience := pl_experience pl - fixed_percent_of (pl_experience pl) 10,
         pl_level := level_for_experience (pl_experience pl - fixed_percent_of (pl_experience pl) 10)\<rparr>))"
proof -
  have "world_wf fallen" unfolding fallen_def by (rule sample_run_wf) simp
  moreover have "map_option (\<lambda>ds. dead ds \<and> \<not> loss_applied ds) (bt_get (w_respawn fallen) 1) = Some True"
    by code_simp
  ultimately obtain out where "fst (apply_fixed_percent_death_loss exact_scale 1 10 sample_rules fallen) = Ok out"
    using death_loss_total [of fallen 1 _ 10 exact_scale sample_rules] by auto
  then have "apply_fixed_percent_death_loss exact_scale 1 10 sample_rules fallen =
      (Ok out, snd (apply_fixed_percent_death_loss exact_scale 1 10 sample_rules fallen))"
    by (rule result_eqI)
  from death_loss_effect [THEN conjunct1, THEN iffD1, OF this] obtain pl ds where
    "bt_get (players fallen) 1 = Some pl" "bt_get (w_respawn fallen) 1 = Some ds" "\<not> loss_applied ds"
    "bt_get (w_respawn (snd (apply_fixed_percent_death_loss exact_scale 1 10 sample_rules fallen))) 1 =
       Some (ds\<lparr>loss_applied := True\<rparr>)"
    "bt_get (players (snd (apply_fixed_percent_death_loss exact_scale 1 10 sample_rules fallen))) 1 =
       Some (pl\<lparr>pl_experience := pl_experience pl - fixed_percent_of (pl_experience pl) 10,
         pl_level := level_for_experience (pl_experience pl - fixed_percent_of (pl_experience pl) 10)\<rparr>)"
    by (auto simp: mark_changed_def)
  then show ?thesis by (auto dest: arg_cong [of _ _ loss_applied])
qed

section \<open>Movement and item use\<close>

text \<open>
  C15. The follow pass never fails on the worlds the invariant describes: a player outside the reported
  set stays where it was, one inside it took exactly one cardinal step onto a walkable tile, and no two
  players, nor a player and an active creature, come to share a tile.
\<close>

theorem follow_pass_effect:
  assumes "world_wf w" and "positions_ok w"
  shows "\<exists>out w'. follow_player_targets_once m w = (Ok out, w') \<and>
    (players_apart w \<longrightarrow> players_apart w') \<and> (off_creatures w \<longrightarrow> off_creatures w') \<and>
    (\<forall>p. if bt_mem p out then moved_once m w p w' else bt_get (players w') p = bt_get (players w) p)"
  using assms by (rule follow_pass_spec)

definition chase :: "world_command list" where
  "chase = [Join (hero 1 100) hero_vitals default_progression, Join (hero 2 103) hero_vitals default_progression,
     Follow 1 (Some 2)]"

lemma chase_typed [simp]: "list_all well_typed chase"
  by (simp add: chase_def hero_vitals_def)

theorem follow_pass_effect_witness:
  "bt_mem 1 (bs_of_list [1 :: nat]) \<and> moved_once sample_map (sample_run chase) 1 (snd (follow_player_targets_once sample_map (sample_run chase)))"
proof -
  have "list_all (\<lambda>pl. pos_wf (pl_position pl)) (bt_vals (players (sample_run chase)))" by code_simp
  then have "positions_ok (sample_run chase)" by (auto simp: positions_ok_def list_all_iff in_bt_vals_iff)
  from follow_pass_effect [OF _ this, of sample_map] obtain out where
    *: "fst (follow_player_targets_once sample_map (sample_run chase)) = Ok out"
      "\<forall>p. if bt_mem p out then moved_once sample_map (sample_run chase) p (snd (follow_player_targets_once sample_map (sample_run chase)))
         else bt_get (players (snd (follow_player_targets_once sample_map (sample_run chase)))) p = bt_get (players (sample_run chase)) p"
    by (auto simp: sample_run_wf)
  have "fst (follow_player_targets_once sample_map (sample_run chase)) = Ok (bs_of_list [1])" by code_simp
  with * show ?thesis by (metis Inr_inject bt_mem_bs_of_list list.set_intros(1))
qed

text \<open>
  Using a map item is accepted exactly when the player exists, stands on or next to the tile, the
  tile exists, and the item at that index of its stack is the one the client named.
\<close>

theorem item_use_is_exact:
  "(\<exists>out. validate_player_item_use w m i = Ok out) \<longleftrightarrow>
     ui_expected i \<noteq> 0 \<and>
     (\<exists>pl. bt_get (players w) (ui_player i) = Some pl \<and> within_reach (pl_position pl) (ui_position i)) \<and>
     bt_mem (ui_position i) (wm_tiles m) \<and>
     (\<exists>its. bt_get (wm_tile_items m) (ui_position i) = Some its \<and> ui_index i < length its \<and>
        wi_server_id (its ! ui_index i) = ui_expected i)"
  unfolding validate_use_iff by blast

section \<open>Moving items\<close>

fun whole_item_move :: "item_command \<Rightarrow> bool" where
  "whole_item_move (Stow slot cid) \<longleftrightarrow> True"
| "whole_item_move (Draw cid i slot) \<longleftrightarrow> True"
| "whole_item_move (Exchange cid i slot) \<longleftrightarrow> True"
| "whole_item_move (Swap_Slots a b) \<longleftrightarrow> True"
| "whole_item_move c \<longleftrightarrow> False"

lemma discard_Ok: "discard r = (Ok u, w') \<longleftrightarrow> (\<exists>x. r = (Ok x, w'))"
  by (cases r; cases "fst r") (auto simp: discard_def)

text \<open>
  C2. Moving a complete item between a player's slots and windows, or exchanging two, keeps the total
  of every measure over what the player carries, changes no other player's belongings, and keeps the
  invariant: nothing is lost, duplicated or altered.
\<close>

theorem whole_item_moves_conserve:
  fixes mu :: "item_instance \<Rightarrow> 'a::comm_monoid_add"
  assumes "world_wf w" and "whole_item_move c" and "exec_item p c w = (Ok (), w')"
  shows "player_total mu w' p = player_total mu w p \<and>
    (\<forall>q. q \<noteq> p \<longrightarrow> player_total mu w' q = player_total mu w q) \<and> world_wf w'"
proof -
  have "transferred mu p 0 w w'"
    using assms(2,3)
    by (cases c)
      (auto simp: discard_Ok intro: move_equipment_item_to_container_Ok [OF assms(1)]
        move_container_item_to_equipment_Ok [OF assms(1)] swap_container_item_with_equipment_Ok [OF assms(1)]
        swap_equipment_items_Ok(1) [OF assms(1)])
  from transferred_total [OF this] transferred_wf [OF this assms(1)] show ?thesis by auto
qed

theorem whole_item_moves_conserve_witness:
  "player_total item_deep (snd (exec_item 1 (Exchange 0 1 LeftHand) (sample_run packed))) 1 =
     player_total item_deep (sample_run packed) 1"
proof -
  have "exec_item 1 (Exchange 0 1 LeftHand) (sample_run packed) =
      (Ok (), snd (exec_item 1 (Exchange 0 1 LeftHand) (sample_run packed)))"
    by (rule result_eqI) code_simp
  from whole_item_moves_conserve [OF _ _ this, of item_deep] show ?thesis by (simp add: sample_run_wf)
qed

fun stack_move :: "item_command \<Rightarrow> bool" where
  "stack_move (Stow_Stack slot cid n) \<longleftrightarrow> True"
| "stack_move (Draw_Stack cid i slot n) \<longleftrightarrow> True"
| "stack_move (Move_Stack a i b n) \<longleftrightarrow> True"
| "stack_move c \<longleftrightarrow> False"

text \<open>
  C3. Moving part of a stack between slots and windows keeps the number of units of every kind (what
  makes stacks compatible): the split and the merge with the destination neither lose nor create any.
\<close>

theorem stack_moves_conserve_units:
  assumes "world_wf w" and "stack_move c" and "exec_item p c w = (Ok (), w')"
  shows "player_total item_units w' p = player_total item_units w p \<and>
    (\<forall>q. q \<noteq> p \<longrightarrow> player_total item_units w' q = player_total item_units w q) \<and> world_wf w'"
proof -
  have "transferred item_units p 0 w w'"
    using assms(2,3)
    by (cases c)
      (auto simp: discard_Ok intro: units.move_equipment_stack_to_container_Ok [OF assms(1)]
        units.move_container_stack_to_equipment_Ok [OF assms(1)]
        units.move_container_stack_to_container_Ok [OF assms(1)])
  from transferred_total [OF this] transferred_wf [OF this assms(1)] show ?thesis by auto
qed

theorem stack_moves_conserve_units_witness:
  "player_total item_units (snd (exec_item 1 (Stow_Stack RightHand 0 15) (sample_run packed))) 1 =
     player_total item_units (sample_run packed) 1"
proof -
  have "exec_item 1 (Stow_Stack RightHand 0 15) (sample_run packed) =
      (Ok (), snd (exec_item 1 (Stow_Stack RightHand 0 15) (sample_run packed)))"
    by (rule result_eqI) code_simp
  from stack_moves_conserve_units [OF _ _ this] show ?thesis by (simp add: sample_run_wf)
qed

text \<open>
  C4. A drop from a slot or a window entry hands the caller exactly the units that the player loses. A
  drop of nested contents takes the whole nested stack from the player but hands out only the count
  asked for: the difference is destroyed.
\<close>

theorem ground_drop_accounting:
  assumes "world_wf w" and "take_player_stack_for_ground_drop p src n w = (Ok out, w')"
  shows "case src of
      Drop_Content cid i j \<Rightarrow> \<exists>stack. gd_moved out = with_count n stack \<and> n \<le> stack_count stack \<and>
        player_total item_deep w' p + item_deep stack = player_total item_deep w p
    | _ \<Rightarrow> player_total item_units w' p + item_units (gd_moved out) = player_total item_units w p"
proof (cases src)
  case (Drop_Content cid i j)
  with take_player_content_for_ground_drop_Ok [OF assms(1)] assms(2) obtain stack rest where
    s: "split_off stack n = Ok (rest, gd_moved out)" and t: "transferred item_deep p (item_deep stack) w w'"
    by blast
  from s have "gd_moved out = with_count n stack \<and> n \<le> stack_count stack" by (simp add: split_off_Ok)
  with transferred_total(1) [OF t] Drop_Content show ?thesis by auto
qed (use transferred_total(1) [OF units.take_player_stack_for_ground_drop_Ok [OF assms]] in simp_all)

theorem ground_drop_accounting_witness:
  "player_total item_units (snd (take_player_stack_for_ground_drop 1 (Drop_Slot RightHand) 15 (sample_run packed))) 1 +
     item_units (sample_item 7 15) = player_total item_units (sample_run packed) 1"
proof -
  have "take_player_stack_for_ground_drop 1 (Drop_Slot RightHand) 15 (sample_run packed) =
      (Ok \<lparr>gd_player = 1, gd_source = Drop_Slot RightHand, gd_moved = sample_item 7 15, gd_source_remaining = Some 25\<rparr>,
       snd (take_player_stack_for_ground_drop 1 (Drop_Slot RightHand) 15 (sample_run packed)))"
    by (rule result_eqI) code_simp
  from ground_drop_accounting [OF _ this] show ?thesis by (simp add: sample_run_wf)
qed

end
